theory Spec2Isabelle
  imports Main "HOL-Library.Char_ord" "HOL-Library.List_Lexorder"
begin

section \<open>Normalizer (utils/normalize.ts)\<close>

text \<open>
  JavaScript strings are modelled as \<open>string\<close>. The regular expression \<open>/\D/g\<close> removes
  every character that is not one of the ten ASCII digits, so what is left is a list of
  ASCII digits whose \<open>length\<close> is the digit count.
\<close>

definition isDigit :: "char \<Rightarrow> bool" where
  "isDigit c = (c \<in> set ''0123456789'')"

definition stripNonDigits :: "string \<Rightarrow> string" where
  "stripNonDigits phone = filter isDigit phone"

definition startsWith :: "string \<Rightarrow> string \<Rightarrow> bool" where
  "startsWith s p = (take (length p) s = p)"

definition normalizePhone :: "string \<Rightarrow> string" where
  "normalizePhone phone =
     (let digits = stripNonDigits phone in
      if length digits = 10 then ''+1'' @ digits
      else if length digits = 11 \<and> startsWith digits ''1'' then ''+'' @ digits
      else if length digits > 10 then ''+'' @ digits
      else ''+'' @ digits)"

definition isValidPhone :: "string \<Rightarrow> bool" where
  "isValidPhone phone =
     (let digits = stripNonDigits phone in length digits \<ge> 10 \<and> length digits \<le> 15)"

section \<open>Dates\<close>

text \<open>
  A stored timestamp (\<open>Date\<close>) is a time value: the milliseconds since the epoch, an
  integer. A \<open>Date\<close> object of the program (\<open>JsDate\<close>) holds a time value of magnitude at
  most 8.64e15, or \<open>NaN\<close> (an Invalid Date), which is \<open>None\<close> here; a number that may be
  \<open>NaN\<close> is an \<open>int option\<close> in the same way. Time values in range are below \<open>2^53\<close>, so
  the arithmetic of the program on them is exact, and a value computed out of range is
  out of range after rounding as well, where \<open>TimeClip\<close> turns it into \<open>NaN\<close>.

  The getters and setters the program calls are those of ECMAScript, written with its
  abstract operations: \<open>Day\<close>, \<open>TimeWithinDay\<close>, \<open>DaysInYear\<close>, \<open>DayFromYear\<close>,
  \<open>YearFromTime\<close>, \<open>InLeapYear\<close>, \<open>DayWithinYear\<close>, \<open>MonthFromTime\<close>, \<open>DateFromTime\<close>,
  \<open>MakeTime\<close>, \<open>MakeDay\<close>, \<open>MakeDate\<close>, \<open>TimeClip\<close>, \<open>LocalTime\<close> and \<open>UTC\<close>. Months are
  numbered from 0.
\<close>

type_synonym Date = int

type_synonym JsDate = "int option"

definition msPerDay :: int where
  "msPerDay = 86400000"

definition msPerHour :: int where
  "msPerHour = 3600000"

definition maxTime :: int where
  "maxTime = 8640000000000000"

definition TimeClip :: "int \<Rightarrow> JsDate" where
  "TimeClip time = (if \<bar>time\<bar> > maxTime then None else Some time)"

definition Day :: "int \<Rightarrow> int" where
  "Day t = t div msPerDay"

definition TimeWithinDay :: "int \<Rightarrow> int" where
  "TimeWithinDay t = t mod msPerDay"

definition DaysInYear :: "int \<Rightarrow> int" where
  "DaysInYear y =
     (if y mod 4 \<noteq> 0 then 365
      else if y mod 100 \<noteq> 0 then 366
      else if y mod 400 \<noteq> 0 then 365
      else 366)"

text \<open>The day number of the first day of year \<open>y\<close>.\<close>

definition DayFromYear :: "int \<Rightarrow> int" where
  "DayFromYear y =
     365 * (y - 1970) + (y - 1969) div 4 - (y - 1901) div 100 + (y - 1601) div 400"

lemma div_next:
  fixes a d :: int
  assumes "0 < d"
  shows "(a + 1) div d = a div d + (if (a + 1) mod d = 0 then 1 else 0)"
proof -
  define q where "q = a div d"
  define r where "r = a mod d"
  have a: "a = d * q + r" by (simp add: q_def r_def)
  have r: "0 \<le> r" "r < d" using assms by (simp_all add: r_def)
  show ?thesis
  proof (cases "r + 1 = d")
    case True
    then have "a + 1 = d * (q + 1)" using a by (simp add: algebra_simps)
    then show ?thesis using assms by (simp add: q_def)
  next
    case False
    then have lt: "r + 1 < d" using r by simp
    have eq: "a + 1 = d * q + (r + 1)" using a by simp
    have "(a + 1) div d = q" unfolding eq using lt r assms by (simp add: div_pos_pos_trivial)
    moreover have "(a + 1) mod d = r + 1" unfolding eq using lt r assms by simp
    ultimately show ?thesis using r by (simp add: q_def)
  qed
qed

lemma DayFromYear_next: "DayFromYear (y + 1) = DayFromYear y + DaysInYear y"
proof -
  have m4: "(y - 1968) mod 4 = y mod 4"
    using mod_diff_eq [of y 4 1968] by simp
  have m100: "(y - 1900) mod 100 = y mod 100"
    using mod_diff_eq [of y 100 1900] by simp
  have m400: "(y - 1600) mod 400 = y mod 400"
    using mod_diff_eq [of y 400 1600] by simp
  have four: "(y - 1968) div 4 = (y - 1969) div 4 + (if y mod 4 = 0 then 1 else 0)"
    using div_next [of 4 "y - 1969"] m4 by simp
  have hundred: "(y - 1900) div 100 = (y - 1901) div 100 + (if y mod 100 = 0 then 1 else 0)"
    using div_next [of 100 "y - 1901"] m100 by simp
  have fourhundred: "(y - 1600) div 400 = (y - 1601) div 400 + (if y mod 400 = 0 then 1 else 0)"
    using div_next [of 400 "y - 1601"] m400 by simp
  have a: "y mod 4 = 0" if "y mod 100 = 0"
    using mod_mod_cancel [of 4 100 y] that by simp
  have b: "y mod 100 = 0" if "y mod 400 = 0"
    using mod_mod_cancel [of 100 400 y] that by simp
  have "DayFromYear (y + 1) =
          365 * (y - 1969) + (y - 1968) div 4 - (y - 1900) div 100 + (y - 1600) div 400"
    by (simp add: DayFromYear_def)
  also have "\<dots> = DayFromYear y + DaysInYear y"
    unfolding four hundred fourhundred DayFromYear_def DaysInYear_def
    using a b by auto
  finally show ?thesis .
qed

lemma DaysInYear_pos: "0 < DaysInYear y"
  by (simp add: DaysInYear_def)

text \<open>
  \<open>YearFromTime t\<close> is the largest year whose first day is not after the day of \<open>t\<close>. It
  is found from an estimate, by going down while the year starts after the day and then
  up while the next year does not.
\<close>

function yearDown :: "int \<Rightarrow> int \<Rightarrow> int" where
  "yearDown day y = (if day < DayFromYear y then yearDown day (y - 1) else y)"
  by pat_completeness auto
termination
proof (relation "measure (\<lambda>(day, y). nat (DayFromYear y - day))")
  show "wf (measure (\<lambda>(day, y). nat (DayFromYear y - day)))" by simp
next
  fix day y :: int
  assume "day < DayFromYear y"
  moreover have "DayFromYear y = DayFromYear (y - 1) + DaysInYear (y - 1)"
    using DayFromYear_next [of "y - 1"] by simp
  ultimately show "((day, y - 1), (day, y)) \<in> measure (\<lambda>(day, y). nat (DayFromYear y - day))"
    using DaysInYear_pos [of "y - 1"] by simp
qed

function yearUp :: "int \<Rightarrow> int \<Rightarrow> int" where
  "yearUp day y = (if DayFromYear (y + 1) \<le> day then yearUp day (y + 1) else y)"
  by pat_completeness auto
termination
proof (relation "measure (\<lambda>(day, y). nat (day - DayFromYear y))")
  show "wf (measure (\<lambda>(day, y). nat (day - DayFromYear y)))" by simp
next
  fix day y :: int
  assume "DayFromYear (y + 1) \<le> day"
  then show "((day, y + 1), (day, y)) \<in> measure (\<lambda>(day, y). nat (day - DayFromYear y))"
    using DaysInYear_pos [of y] by (simp add: DayFromYear_next)
qed

declare yearDown.simps [simp del] yearUp.simps [simp del]

definition YearFromTime :: "int \<Rightarrow> int" where
  "YearFromTime t = yearUp (Day t) (yearDown (Day t) (1970 + Day t div 365))"

text \<open>One in a leap year and zero otherwise, as \<open>InLeapYear\<close> is in ECMAScript.\<close>

definition leapDays :: "int \<Rightarrow> int" where
  "leapDays y = (if DaysInYear y = 366 then 1 else 0)"

definition InLeapYear :: "int \<Rightarrow> int" where
  "InLeapYear t = leapDays (YearFromTime t)"

definition DayWithinYear :: "int \<Rightarrow> int" where
  "DayWithinYear t = Day t - DayFromYear (YearFromTime t)"

text \<open>
  The day within the year on which month \<open>m\<close> starts, from the table of \<open>MonthFromTime\<close>;
  \<open>leap\<close> is one in a leap year.
\<close>

definition monthStartDay :: "int \<Rightarrow> int \<Rightarrow> int" where
  "monthStartDay leap m =
     (if m = 0 then 0
      else if m = 1 then 31
      else if m = 2 then 59 + leap
      else if m = 3 then 90 + leap
      else if m = 4 then 120 + leap
      else if m = 5 then 151 + leap
      else if m = 6 then 181 + leap
      else if m = 7 then 212 + leap
      else if m = 8 then 243 + leap
      else if m = 9 then 273 + leap
      else if m = 10 then 304 + leap
      else if m = 11 then 334 + leap
      else 365 + leap)"

definition MonthFromTime :: "int \<Rightarrow> int" where
  "MonthFromTime t =
     (let d = DayWithinYear t; leap = InLeapYear t in
      if d < 31 then 0
      else if d < 59 + leap then 1
      else if d < 90 + leap then 2
      else if d < 120 + leap then 3
      else if d < 151 + leap then 4
      else if d < 181 + leap then 5
      else if d < 212 + leap then 6
      else if d < 243 + leap then 7
      else if d < 273 + leap then 8
      else if d < 304 + leap then 9
      else if d < 334 + leap then 10
      else 11)"

definition DateFromTime :: "int \<Rightarrow> int" where
  "DateFromTime t = DayWithinYear t - monthStartDay (InLeapYear t) (MonthFromTime t) + 1"

definition MakeTime :: "int \<Rightarrow> int \<Rightarrow> int \<Rightarrow> int \<Rightarrow> int" where
  "MakeTime hour minute sec ms = hour * msPerHour + minute * 60000 + sec * 1000 + ms"

text \<open>
  \<open>MakeDay\<close>: the day number of the first day of the month, which may lie in another year
  (\<open>month\<close> outside 0 to 11), plus \<open>date - 1\<close>; a \<open>date\<close> outside the month counts on into
  the neighbouring months.
\<close>

definition MakeDay :: "int \<Rightarrow> int \<Rightarrow> int \<Rightarrow> int" where
  "MakeDay year month date =
     (let ym = year + month div 12;
          mn = month mod 12
      in DayFromYear ym + monthStartDay (leapDays ym) mn + date - 1)"

definition MakeDate :: "int \<Rightarrow> int \<Rightarrow> int" where
  "MakeDate day time = day * msPerDay + time"

text \<open>
  The time zone of the server is a parameter. \<open>tz_offsetAt t\<close> is the offset of local
  time from UTC at the instant \<open>t\<close>, and \<open>tz_offsetOf w\<close> the offset the zone applies to
  the wall-clock reading \<open>w\<close> (\<open>LocalTZA\<close> with \<open>isUTC\<close> true and false); in a zone with
  daylight saving both depend on their argument.
\<close>

record TimeZone =
  tz_offsetAt :: "int \<Rightarrow> int"
  tz_offsetOf :: "int \<Rightarrow> int"

definition LocalTime :: "TimeZone \<Rightarrow> int \<Rightarrow> int" where
  "LocalTime tz t = t + tz_offsetAt tz t"

definition UTC :: "TimeZone \<Rightarrow> int \<Rightarrow> int" where
  "UTC tz w = w - tz_offsetOf tz w"

text \<open>
  \<open>new Date(value)\<close> of a \<open>Date\<close> object copies its time value; the \<open>Date\<close> object the
  store client returns for a stored timestamp holds that timestamp, and so does the
  \<open>Date\<close> object of a clock reading.
\<close>

definition copyDate :: "JsDate \<Rightarrow> JsDate" where
  "copyDate d = (case d of None \<Rightarrow> None | Some tv \<Rightarrow> TimeClip tv)"

definition dateObject :: "Date \<Rightarrow> JsDate" where
  "dateObject t = TimeClip t"

definition getFullYear :: "TimeZone \<Rightarrow> JsDate \<Rightarrow> int option" where
  "getFullYear tz d =
     (case d of None \<Rightarrow> None | Some tv \<Rightarrow> Some (YearFromTime (LocalTime tz tv)))"

definition getDate :: "TimeZone \<Rightarrow> JsDate \<Rightarrow> int option" where
  "getDate tz d =
     (case d of None \<Rightarrow> None | Some tv \<Rightarrow> Some (DateFromTime (LocalTime tz tv)))"

text \<open>\<open>setFullYear\<close> of an Invalid Date starts from the time value \<open>+0\<close>.\<close>

definition setFullYear :: "TimeZone \<Rightarrow> JsDate \<Rightarrow> int option \<Rightarrow> JsDate" where
  "setFullYear tz d year =
     (case year of
        None \<Rightarrow> None
      | Some y \<Rightarrow>
          (let t = (case d of None \<Rightarrow> 0 | Some tv \<Rightarrow> LocalTime tz tv);
               made = MakeDate (MakeDay y (MonthFromTime t) (DateFromTime t)) (TimeWithinDay t)
           in TimeClip (UTC tz made)))"

definition setDate :: "TimeZone \<Rightarrow> JsDate \<Rightarrow> int option \<Rightarrow> JsDate" where
  "setDate tz d date =
     (case d of
        None \<Rightarrow> None
      | Some tv \<Rightarrow>
          (case date of
             None \<Rightarrow> None
           | Some dt \<Rightarrow>
               (let t = LocalTime tz tv;
                    made = MakeDate (MakeDay (YearFromTime t) (MonthFromTime t) dt)
                             (TimeWithinDay t)
                in TimeClip (UTC tz made))))"

definition setHours4 :: "TimeZone \<Rightarrow> JsDate \<Rightarrow> int \<Rightarrow> int \<Rightarrow> int \<Rightarrow> int \<Rightarrow> JsDate" where
  "setHours4 tz d hour minute sec ms =
     (case d of
        None \<Rightarrow> None
      | Some tv \<Rightarrow>
          (let t = LocalTime tz tv;
               made = MakeDate (Day t) (MakeTime hour minute sec ms)
           in TimeClip (UTC tz made)))"

text \<open>\<open>a < b\<close> on two \<open>Date\<close> objects compares their time values; with \<open>NaN\<close> it is false.\<close>

definition dateLess :: "JsDate \<Rightarrow> JsDate \<Rightarrow> bool" where
  "dateLess a b =
     (case a of
        None \<Rightarrow> False
      | Some x \<Rightarrow> (case b of None \<Rightarrow> False | Some y \<Rightarrow> x < y))"

text \<open>
  Zones for the examples: a zone with a fixed offset, UTC, and Amsterdam around the start
  of daylight saving in 2020 (UTC+1 before 2020-03-29T01:00Z and UTC+2 from then on; a
  wall-clock reading before 03:00 of that day is read with the offset before the change,
  as ECMAScript reads the hour the clocks skipped).
\<close>

definition fixedZone :: "int \<Rightarrow> TimeZone" where
  "fixedZone offset = \<lparr>tz_offsetAt = (\<lambda>t. offset), tz_offsetOf = (\<lambda>w. offset)\<rparr>"

definition utcZone :: TimeZone where
  "utcZone = fixedZone 0"

definition amsterdam2020 :: TimeZone where
  "amsterdam2020 =
     \<lparr>tz_offsetAt = (\<lambda>t. if t < 1585443600000 then 3600000 else 7200000),
      tz_offsetOf = (\<lambda>w. if w < 1585450800000 then 3600000 else 7200000)\<rparr>"

text \<open>
  What the statements below ask of dates and zones. A time value is in range when a
  \<open>Date\<close> object can hold it. A wall-clock reading reads back when the instant the zone
  gives it shows that reading again, and keeps its day when that instant falls on the
  day of the reading; a zone with a fixed offset reads every reading back, and a reading
  in an hour the clocks skip does not read back.
\<close>

definition inRange :: "int \<Rightarrow> bool" where
  "inRange t = (\<bar>t\<bar> \<le> maxTime)"

definition readsBack :: "TimeZone \<Rightarrow> int \<Rightarrow> bool" where
  "readsBack tz w = (LocalTime tz (UTC tz w) = w)"

definition keepsDay :: "TimeZone \<Rightarrow> int \<Rightarrow> bool" where
  "keepsDay tz w = (Day (LocalTime tz (UTC tz w)) = Day w)"


text \<open>A calendar date at midnight UTC, for writing examples: month and day as on a calendar.\<close>

definition dateOf :: "int \<Rightarrow> int \<Rightarrow> int \<Rightarrow> Date" where
  "dateOf y m d = MakeDate (MakeDay y (m - 1) d) 0"

section \<open>The relational store\<close>

text \<open>
  The tables of the schema, each a list of rows in storage order. Ids are the text keys
  of the schema. The cascade rules of the foreign keys are part of the delete operations
  below, and \<open>createMany\<close> of reminders checks the foreign keys of its rows. The store
  itself is available, except where the program handles its failure: the transaction of
  \<open>mergePeople\<close> and the try/catch blocks of \<open>processDueReminders\<close> and
  \<open>sendPushNotification\<close>.
\<close>

datatype SourceType = PHONE | EMAIL | INSTAGRAM | FACEBOOK | MANUAL

datatype CelebrationType = BIRTHDAY | ANNIVERSARY | LIFE_EVENT

datatype GuestStatus = PENDING | ACCEPTED | DECLINED | MAYBE

record User =
  user_id :: string
  user_email :: string
  user_pushEnabled :: bool
  user_pushToken :: "string option"
  user_pushPlatform :: "string option"

record Person =
  person_id :: string
  person_userId :: string
  person_displayName :: string

record Identity =
  identity_id :: string
  identity_personId :: string
  identity_sourceType :: SourceType
  identity_normalizedPhone :: "string option"
  identity_normalizedEmail :: "string option"
  identity_username :: "string option"

record Address =
  address_id :: string
  address_personId :: string
  address_label :: string
  address_street :: string
  address_city :: string
  address_postalCode :: string
  address_country :: string

record Celebration =
  celebration_id :: string
  celebration_personId :: string
  celebration_type :: CelebrationType
  celebration_title :: "string option"
  celebration_date :: Date
  celebration_recurringRule :: "string option"
  celebration_reminderOffsets :: "int list"

record Event =
  event_id :: string
  event_hostUserId :: string
  event_title :: string
  event_datetime :: Date

record EventGuest =
  guest_id :: string
  guest_eventId :: string
  guest_personId :: "string option"
  guest_status :: GuestStatus

record ScheduledReminder =
  reminder_id :: string
  reminder_userId :: string
  reminder_celebrationId :: "string option"
  reminder_eventId :: "string option"
  reminder_scheduledFor :: Date
  reminder_sent :: bool
  reminder_sentAt :: "Date option"

record Db =
  users :: "User list"
  people :: "Person list"
  identities :: "Identity list"
  addresses :: "Address list"
  celebrations :: "Celebration list"
  events :: "Event list"
  eventGuests :: "EventGuest list"
  scheduledReminders :: "ScheduledReminder list"

section \<open>Reminder scheduling (services/notifications.ts)\<close>

text \<open>
  \<open>createMany\<close> appends one row per element of its data, with the column defaults
  (\<open>sent = false\<close>, no \<open>sentAt\<close>). The client generates the key of each new row;
  \<open>newId k\<close> is the key it gives the \<open>k\<close>-th row of the call, a key no row has yet, as
  generated keys are. The call is rejected, and
  writes nothing, when a \<open>scheduledFor\<close> is an Invalid Date (the client refuses the
  value), when a \<open>scheduledFor\<close> is a timestamp the column cannot hold, and when there
  is a row to insert and the user or the celebration it refers to does not exist (the
  foreign keys of \<open>scheduled_reminders\<close>); with no row to insert it succeeds. Which
  timestamps a column of the store holds is a parameter, \<open>stores\<close>. The offsets are
  integers, as the column \<open>reminderOffsets\<close> holds them.
  \<open>scheduleCelebrationReminders\<close> runs \<open>deleteMany\<close> and \<open>createMany\<close> one after the
  other, not in a transaction: when \<open>createMany\<close> is rejected the function throws and the
  deletion stays.
\<close>

datatype CreateManyError = InvalidDateValue | TimestampOutOfRange | ForeignKeyViolation

definition celebrationReminderRow ::
  "string \<Rightarrow> string \<Rightarrow> string \<Rightarrow> Date \<Rightarrow> ScheduledReminder" where
  "celebrationReminderRow rid userId celebrationId scheduledFor =
     \<lparr>reminder_id = rid, reminder_userId = userId,
      reminder_celebrationId = Some celebrationId, reminder_eventId = None,
      reminder_scheduledFor = scheduledFor, reminder_sent = False, reminder_sentAt = None\<rparr>"

definition celebrationScheduledFor :: "TimeZone \<Rightarrow> JsDate \<Rightarrow> int \<Rightarrow> JsDate" where
  "celebrationScheduledFor tz date daysBefore =
     (let scheduledFor = copyDate date;
          scheduledFor = setDate tz scheduledFor
                           (map_option (\<lambda>dt. dt - daysBefore) (getDate tz scheduledFor));
          scheduledFor = setHours4 tz scheduledFor 9 0 0 0
      in scheduledFor)"

definition createManyCelebrationReminders ::
  "(Date \<Rightarrow> bool) \<Rightarrow> (nat \<Rightarrow> string) \<Rightarrow> string \<Rightarrow> string \<Rightarrow> JsDate list \<Rightarrow> Db \<Rightarrow>
     CreateManyError option \<times> Db" where
  "createManyCelebrationReminders stores newId userId celebrationId reminders db =
     (if list_ex (\<lambda>scheduledFor. scheduledFor = None) reminders
      then (Some InvalidDateValue, db)
      else if list_ex (\<lambda>scheduledFor. \<not> stores (the scheduledFor)) reminders
      then (Some TimestampOutOfRange, db)
      else if reminders \<noteq> [] \<and>
              \<not> (list_ex (\<lambda>u. user_id u = userId) (users db) \<and>
                 list_ex (\<lambda>c. celebration_id c = celebrationId) (celebrations db))
      then (Some ForeignKeyViolation, db)
      else (None, db\<lparr>scheduledReminders := scheduledReminders db @
                     map (\<lambda>(k, scheduledFor).
                            celebrationReminderRow (newId k) userId celebrationId (the scheduledFor))
                       (enumerate 0 reminders)\<rparr>))"

definition scheduleCelebrationReminders ::
  "TimeZone \<Rightarrow> (Date \<Rightarrow> bool) \<Rightarrow> (nat \<Rightarrow> string) \<Rightarrow> string \<Rightarrow> string \<Rightarrow> JsDate \<Rightarrow>
     int list \<Rightarrow> Db \<Rightarrow> CreateManyError option \<times> Db" where
  "scheduleCelebrationReminders tz stores newId userId celebrationId date reminderOffsets db =
     (let db1 = db\<lparr>scheduledReminders :=
                   filter (\<lambda>r. reminder_celebrationId r \<noteq> Some celebrationId)
                     (scheduledReminders db)\<rparr>;
          reminders = map (celebrationScheduledFor tz date) reminderOffsets
      in createManyCelebrationReminders stores newId userId celebrationId reminders db1)"

text \<open>The reminders of one celebration, as a query by \<open>celebrationId\<close> returns them.\<close>

definition remindersOfCelebration :: "string \<Rightarrow> Db \<Rightarrow> ScheduledReminder list" where
  "remindersOfCelebration celebrationId db =
     filter (\<lambda>r. reminder_celebrationId r = Some celebrationId) (scheduledReminders db)"

text \<open>
  What the statements about \<open>scheduleCelebrationReminders\<close> ask of an offset \<open>n\<close> for the
  date \<open>t\<close>. \<open>sameTimeReading\<close> is the wall-clock reading \<open>n\<close> days before that of \<open>t\<close> at the
  same time of day (what \<open>setDate\<close> writes) and \<open>nineReading\<close> is 09:00 on that day (what
  \<open>setHours\<close> writes). The offset is schedulable when the instants of both readings are in
  range, the first reading keeps its day, the second reads back, and the store holds the
  instant of the second.
\<close>

definition sameTimeReading :: "TimeZone \<Rightarrow> Date \<Rightarrow> int \<Rightarrow> int" where
  "sameTimeReading tz t n =
     (Day (LocalTime tz t) - n) * 86400000 + TimeWithinDay (LocalTime tz t)"

definition nineReading :: "TimeZone \<Rightarrow> Date \<Rightarrow> int \<Rightarrow> int" where
  "nineReading tz t n = (Day (LocalTime tz t) - n) * 86400000 + 32400000"

definition schedulable :: "TimeZone \<Rightarrow> (Date \<Rightarrow> bool) \<Rightarrow> Date \<Rightarrow> int \<Rightarrow> bool" where
  "schedulable tz stores t n =
     (inRange (UTC tz (sameTimeReading tz t n)) \<and> keepsDay tz (sameTimeReading tz t n) \<and>
      inRange (UTC tz (nineReading tz t n)) \<and> readsBack tz (nineReading tz t n) \<and>
      stores (UTC tz (nineReading tz t n)))"

text \<open>
  For the examples: the timestamps a PostgreSQL \<open>timestamp\<close> column holds among the time
  values of a \<open>Date\<close>, those from 24 November 4714 BC on; and the zone of Apia around the
  end of 2011, when the clocks went from the end of 29 December (UTC-10) to the start of
  31 December (UTC+14) and the readings of 30 December were skipped.
\<close>

definition timestampColumn :: "Date \<Rightarrow> bool" where
  "timestampColumn t = (- 210866803200000 \<le> t)"

definition apia2011 :: TimeZone where
  "apia2011 =
     \<lparr>tz_offsetAt = (\<lambda>t. if t < 1325239200000 then - 36000000 else 50400000),
      tz_offsetOf = (\<lambda>w. if w < 1325289600000 then - 36000000 else 50400000)\<rparr>"

section \<open>Next occurrence (routes/celebrations.ts)\<close>

definition getNextOccurrence :: "TimeZone \<Rightarrow> JsDate \<Rightarrow> JsDate \<Rightarrow> JsDate" where
  "getNextOccurrence tz originalDate fromDate =
     (let thisYear = getFullYear tz fromDate;
          nextDate = copyDate originalDate;
          nextDate = setFullYear tz nextDate thisYear
      in if dateLess nextDate fromDate
         then setFullYear tz nextDate (map_option (\<lambda>y. y + 1) thisYear)
         else nextDate)"

text \<open>
  Modelled from the spec: the wall-clock reading \<open>w\<close> with its year rewritten to \<open>y\<close>, that
  is the reading with the year \<open>y\<close> and the month, the day of the month and the time of
  day of \<open>w\<close>. \<open>leapDay w\<close>: the reading is on a 29 February, the one date that does not
  exist in every year.
\<close>

definition withYear :: "int \<Rightarrow> int \<Rightarrow> int" where
  "withYear y w = MakeDate (MakeDay y (MonthFromTime w) (DateFromTime w)) (TimeWithinDay w)"

definition leapDay :: "int \<Rightarrow> bool" where
  "leapDay w = (MonthFromTime w = 1 \<and> DateFromTime w = 29)"

section \<open>Deduplication engine (services/dedup.ts)\<close>

text \<open>
  \<open>person.findMany({ where: { userId }, include: { identities: true } })\<close>: the people of
  the user in table order, each with its identities in table order.
\<close>

record PersonWithIdentities =
  pwi_person :: Person
  pwi_identities :: "Identity list"

datatype MatchType = MatchPhone | MatchEmail

record DuplicateSuggestion =
  person1 :: PersonWithIdentities
  person2 :: PersonWithIdentities
  matchType :: MatchType
  matchValue :: string

definition includeIdentities :: "Db \<Rightarrow> Person \<Rightarrow> PersonWithIdentities" where
  "includeIdentities db p =
     \<lparr>pwi_person = p,
      pwi_identities = filter (\<lambda>i. identity_personId i = person_id p) (identities db)\<rparr>"

definition findManyPeople :: "Db \<Rightarrow> string \<Rightarrow> PersonWithIdentities list" where
  "findManyPeople db userId =
     map (includeIdentities db) (filter (\<lambda>p. person_userId p = userId) (people db))"

text \<open>
  A JavaScript \<open>Map\<close> keeps its keys in insertion order: an association list with
  distinct keys. \<open>set\<close> on a key already present replaces the value in place.
\<close>

type_synonym 'v JsMap = "(string \<times> 'v) list"

definition mapGet :: "'v JsMap \<Rightarrow> string \<Rightarrow> 'v option" where
  "mapGet m k = map_of m k"

fun mapSet :: "'v JsMap \<Rightarrow> string \<Rightarrow> 'v \<Rightarrow> 'v JsMap" where
  "mapSet [] k v = [(k, v)]"
| "mapSet ((k', v') # m) k v = (if k' = k then (k, v) # m else (k', v') # mapSet m k v)"

text \<open>\<open>const existing = map.get(key) || []; existing.push(person); map.set(key, existing)\<close>\<close>

definition pushTo :: "'p list JsMap \<Rightarrow> string \<Rightarrow> 'p \<Rightarrow> 'p list JsMap" where
  "pushTo m k person =
     (let existing = (case mapGet m k of None \<Rightarrow> [] | Some l \<Rightarrow> l)
      in mapSet m k (existing @ [person]))"

text \<open>A nullable text column is truthy when it is present and not the empty string.\<close>

definition truthy :: "string option \<Rightarrow> bool" where
  "truthy v = (case v of None \<Rightarrow> False | Some s \<Rightarrow> s \<noteq> [])"

definition addIdentity ::
  "PersonWithIdentities \<Rightarrow> Identity \<Rightarrow>
   PersonWithIdentities list JsMap \<times> PersonWithIdentities list JsMap \<Rightarrow>
   PersonWithIdentities list JsMap \<times> PersonWithIdentities list JsMap" where
  "addIdentity person identity maps =
     (let phoneMap = fst maps; emailMap = snd maps;
          phoneMap = (case identity_normalizedPhone identity of
                        None \<Rightarrow> phoneMap
                      | Some phone \<Rightarrow> if phone \<noteq> [] then pushTo phoneMap phone person else phoneMap);
          emailMap = (case identity_normalizedEmail identity of
                        None \<Rightarrow> emailMap
                      | Some email \<Rightarrow> if email \<noteq> [] then pushTo emailMap email person else emailMap)
      in (phoneMap, emailMap))"

definition buildMaps ::
  "PersonWithIdentities list \<Rightarrow>
   PersonWithIdentities list JsMap \<times> PersonWithIdentities list JsMap" where
  "buildMaps ps =
     fold (\<lambda>person maps. fold (addIdentity person) (pwi_identities person) maps) ps ([], [])"

text \<open>\<open>[a, b].sort().join('-')\<close>: the default sort compares the strings by code units.\<close>

fun join :: "string \<Rightarrow> string list \<Rightarrow> string" where
  "join sep [] = []"
| "join sep [x] = x"
| "join sep (x # y # ys) = x @ sep @ join sep (y # ys)"

definition pairKey :: "string \<Rightarrow> string \<Rightarrow> string" where
  "pairKey a b = join ''-'' (sort [a, b])"

record DedupState =
  seenPairs :: "string set"
  suggestions :: "DuplicateSuggestion list"

text \<open>The body of the inner loop, for the people at positions \<open>i < j\<close> of one map entry.\<close>

definition considerPair ::
  "MatchType \<Rightarrow> string \<Rightarrow> PersonWithIdentities \<Rightarrow> PersonWithIdentities \<Rightarrow>
   DedupState \<Rightarrow> DedupState" where
  "considerPair mt v pi pj st =
     (let key = pairKey (person_id (pwi_person pi)) (person_id (pwi_person pj))
      in if key \<notin> seenPairs st
         then st\<lparr>seenPairs := insert key (seenPairs st),
                 suggestions := suggestions st @
                   [\<lparr>person1 = pi, person2 = pj, matchType = mt, matchValue = v\<rparr>]\<rparr>
         else st)"

text \<open>
  The loops over \<open>i\<close> and \<open>j = i + 1 ..\<close>: the first person with every later one, then
  the same for the rest of the list.
\<close>

fun pairLoop ::
  "MatchType \<Rightarrow> string \<Rightarrow> PersonWithIdentities list \<Rightarrow> DedupState \<Rightarrow> DedupState" where
  "pairLoop mt v [] st = st"
| "pairLoop mt v (pi # rest) st = pairLoop mt v rest (fold (considerPair mt v pi) rest st)"

definition findDuplicatesBy ::
  "MatchType \<Rightarrow> PersonWithIdentities list JsMap \<Rightarrow> DedupState \<Rightarrow> DedupState" where
  "findDuplicatesBy mt m st =
     fold (\<lambda>entry st. if length (snd entry) \<ge> 2 then pairLoop mt (fst entry) (snd entry) st else st)
       m st"

definition getSuggestedDuplicates :: "Db \<Rightarrow> string \<Rightarrow> DuplicateSuggestion list" where
  "getSuggestedDuplicates db userId =
     (let ps = findManyPeople db userId;
          maps = buildMaps ps;
          st = \<lparr>seenPairs = {}, suggestions = []\<rparr>;
          st = findDuplicatesBy MatchPhone (fst maps) st;
          st = findDuplicatesBy MatchEmail (snd maps) st
      in suggestions st)"

text \<open>The two person ids of a suggestion, as an unordered pair.\<close>

definition suggestionPair :: "DuplicateSuggestion \<Rightarrow> string set" where
  "suggestionPair s = {person_id (pwi_person (person1 s)), person_id (pwi_person (person2 s))}"

text \<open>
  Notions for reasoning about the loops: the key a suggestion was stored under, the
  invariant that ties \<open>seenPairs\<close> to the suggestions, what one piece of a loop may do to
  the state, and the list a map holds for a key (empty when the key is absent).
\<close>

definition suggestionKey :: "DuplicateSuggestion \<Rightarrow> string" where
  "suggestionKey s =
     pairKey (person_id (pwi_person (person1 s))) (person_id (pwi_person (person2 s)))"

definition dedupInv :: "DedupState \<Rightarrow> bool" where
  "dedupInv st =
     (seenPairs st = suggestionKey ` set (suggestions st) \<and>
      distinct (map suggestionKey (suggestions st)))"

definition stepOk ::
  "MatchType \<Rightarrow> PersonWithIdentities set \<Rightarrow> DedupState \<Rightarrow> DedupState \<Rightarrow> bool" where
  "stepOk mt P st st' =
     (seenPairs st \<subseteq> seenPairs st' \<and>
      (dedupInv st \<longrightarrow> dedupInv st') \<and>
      (\<exists>new. suggestions st' = suggestions st @ new \<and>
         (\<forall>s \<in> set new. matchType s = mt \<and> suggestionKey s \<notin> seenPairs st \<and>
            person1 s \<in> P \<and> person2 s \<in> P)))"

definition valuesAt :: "'v list JsMap \<Rightarrow> string \<Rightarrow> 'v list" where
  "valuesAt m k = (case mapGet m k of None \<Rightarrow> [] | Some l \<Rightarrow> l)"

text \<open>
  The ids of the people of a user, and the condition under which a pair key tells which
  two ids it was made of. It holds when no id contains a hyphen and when all ids have
  the same length, as generated keys do.
\<close>

definition userPersonIds :: "Db \<Rightarrow> string \<Rightarrow> string set" where
  "userPersonIds db userId =
     set (map person_id (filter (\<lambda>p. person_userId p = userId) (people db)))"

definition pairKeysFaithful :: "string set \<Rightarrow> bool" where
  "pairKeysFaithful ids =
     (\<forall>a \<in> ids. \<forall>b \<in> ids. \<forall>c \<in> ids. \<forall>d \<in> ids.
        pairKey a b = pairKey c d \<longrightarrow> {a, b} = {c, d})"

definition phoneMatches :: "string \<Rightarrow> Identity \<Rightarrow> bool" where
  "phoneMatches phone i = (phone \<noteq> [] \<and> identity_normalizedPhone i = Some phone)"

definition emailMatches :: "string \<Rightarrow> Identity \<Rightarrow> bool" where
  "emailMatches email i = (email \<noteq> [] \<and> identity_normalizedEmail i = Some email)"

text \<open>One entry for every identity that matches, person by person.\<close>

definition occurrences ::
  "(Identity \<Rightarrow> bool) \<Rightarrow> PersonWithIdentities list \<Rightarrow> PersonWithIdentities list" where
  "occurrences Q ps = concat (map (\<lambda>p. map (\<lambda>_. p) (filter Q (pwi_identities p))) ps)"

text \<open>The state after the loop over the phone map, and after both loops.\<close>

definition phonePhase :: "Db \<Rightarrow> string \<Rightarrow> DedupState" where
  "phonePhase db userId =
     findDuplicatesBy MatchPhone (fst (buildMaps (findManyPeople db userId)))
       \<lparr>seenPairs = {}, suggestions = []\<rparr>"

definition finalState :: "Db \<Rightarrow> string \<Rightarrow> DedupState" where
  "finalState db userId =
     findDuplicatesBy MatchEmail (snd (buildMaps (findManyPeople db userId))) (phonePhase db userId)"

text \<open>Example stores.\<close>

definition mkUser :: "string \<Rightarrow> bool \<Rightarrow> string option \<Rightarrow> User" where
  "mkUser uid enabled token =
     \<lparr>user_id = uid, user_email = uid @ ''@example.com'', user_pushEnabled = enabled,
      user_pushToken = token, user_pushPlatform = None\<rparr>"

definition mkPerson :: "string \<Rightarrow> string \<Rightarrow> Person" where
  "mkPerson pid uid = \<lparr>person_id = pid, person_userId = uid, person_displayName = pid\<rparr>"

definition mkIdentity :: "string \<Rightarrow> string \<Rightarrow> string option \<Rightarrow> string option \<Rightarrow> Identity" where
  "mkIdentity iid pid phone email =
     \<lparr>identity_id = iid, identity_personId = pid, identity_sourceType = MANUAL,
      identity_normalizedPhone = phone, identity_normalizedEmail = email,
      identity_username = None\<rparr>"

definition emptyDb :: Db where
  "emptyDb = \<lparr>users = [], people = [], identities = [], addresses = [], celebrations = [],
              events = [], eventGuests = [], scheduledReminders = []\<rparr>"

text \<open>Two people of one user who share a phone number and an email address.\<close>

definition sharedBothDb :: Db where
  "sharedBothDb = emptyDb
     \<lparr>people := [mkPerson ''pa'' ''u1'', mkPerson ''pb'' ''u1''],
      identities := [mkIdentity ''i1'' ''pa'' (Some ''+15551234567'') (Some ''x@example.com''),
                     mkIdentity ''i2'' ''pb'' (Some ''+15551234567'') (Some ''x@example.com'')]\<rparr>"

text \<open>One person with the same phone number on two identities.\<close>

definition twoPhonesDb :: Db where
  "twoPhonesDb = emptyDb
     \<lparr>people := [mkPerson ''pa'' ''u1''],
      identities := [mkIdentity ''i1'' ''pa'' (Some ''+15551234567'') None,
                     mkIdentity ''i2'' ''pa'' (Some ''+15551234567'') None]\<rparr>"

section \<open>Merging two people (services/dedup.ts)\<close>

datatype MergeError =
    PeopleNotFound
  | TransactionAborted
  | RecordNotFound

text \<open>\<open>person.findFirst({ where: { id, userId } })\<close>\<close>

definition findFirstPerson :: "Db \<Rightarrow> string \<Rightarrow> string \<Rightarrow> Person option" where
  "findFirstPerson db pid userId =
     find (\<lambda>p. person_id p = pid \<and> person_userId p = userId) (people db)"

text \<open>
  The statements of the transaction. A statement either gives the next state of the store
  or fails (\<open>None\<close>). \<open>updateMany\<close> never fails; \<open>delete\<close> fails when no row has the id.
\<close>

definition identityUpdateMany :: "string \<Rightarrow> string \<Rightarrow> Db \<Rightarrow> Db option" where
  "identityUpdateMany fromId toId db =
     Some (db\<lparr>identities :=
       map (\<lambda>i. if identity_personId i = fromId then i\<lparr>identity_personId := toId\<rparr> else i)
         (identities db)\<rparr>)"

definition addressUpdateMany :: "string \<Rightarrow> string \<Rightarrow> Db \<Rightarrow> Db option" where
  "addressUpdateMany fromId toId db =
     Some (db\<lparr>addresses :=
       map (\<lambda>a. if address_personId a = fromId then a\<lparr>address_personId := toId\<rparr> else a)
         (addresses db)\<rparr>)"

definition celebrationUpdateMany :: "string \<Rightarrow> string \<Rightarrow> Db \<Rightarrow> Db option" where
  "celebrationUpdateMany fromId toId db =
     Some (db\<lparr>celebrations :=
       map (\<lambda>c. if celebration_personId c = fromId then c\<lparr>celebration_personId := toId\<rparr> else c)
         (celebrations db)\<rparr>)"

definition eventGuestUpdateMany :: "string \<Rightarrow> string \<Rightarrow> Db \<Rightarrow> Db option" where
  "eventGuestUpdateMany fromId toId db =
     Some (db\<lparr>eventGuests :=
       map (\<lambda>g. if guest_personId g = Some fromId then g\<lparr>guest_personId := Some toId\<rparr> else g)
         (eventGuests db)\<rparr>)"

text \<open>
  Deleting a person, with the rules of the foreign keys of the schema: identities,
  addresses and celebrations of the person are deleted with it (ON DELETE CASCADE), and
  with a celebration its scheduled reminders; event guests keep their row and lose the
  reference (ON DELETE SET NULL).
\<close>

definition cascadeDeletePerson :: "string \<Rightarrow> Db \<Rightarrow> Db" where
  "cascadeDeletePerson pid db =
     (let gone = map celebration_id (filter (\<lambda>c. celebration_personId c = pid) (celebrations db))
      in db\<lparr>people := filter (\<lambda>p. person_id p \<noteq> pid) (people db),
            identities := filter (\<lambda>i. identity_personId i \<noteq> pid) (identities db),
            addresses := filter (\<lambda>a. address_personId a \<noteq> pid) (addresses db),
            celebrations := filter (\<lambda>c. celebration_personId c \<noteq> pid) (celebrations db),
            scheduledReminders :=
              filter (\<lambda>r. case reminder_celebrationId r of None \<Rightarrow> True | Some c \<Rightarrow> c \<notin> set gone)
                (scheduledReminders db),
            eventGuests :=
              map (\<lambda>g. if guest_personId g = Some pid then g\<lparr>guest_personId := None\<rparr> else g)
                (eventGuests db)\<rparr>)"

definition personDelete :: "string \<Rightarrow> Db \<Rightarrow> Db option" where
  "personDelete pid db =
     (case find (\<lambda>p. person_id p = pid) (people db) of
        None \<Rightarrow> None
      | Some _ \<Rightarrow> Some (cascadeDeletePerson pid db))"

text \<open>
  \<open>prisma.$transaction([...])\<close> runs its statements in order and commits all of them or
  none. \<open>abortAt\<close> is the fault a test injects: \<open>Some k\<close> aborts the transaction
  when \<open>k\<close> statements have run (\<open>k\<close> = the number of statements: at commit), \<open>None\<close>
  injects nothing. The result \<open>None\<close> is the rolled back transaction: the caller's store
  is the one from before.
\<close>

fun runStatements :: "nat option \<Rightarrow> (Db \<Rightarrow> Db option) list \<Rightarrow> Db \<Rightarrow> Db option" where
  "runStatements abortAt [] db = (if abortAt = Some 0 then None else Some db)"
| "runStatements abortAt (stmt # stmts) db =
     (if abortAt = Some 0 then None
      else case stmt db of
             None \<Rightarrow> None
           | Some db' \<Rightarrow> runStatements (map_option (\<lambda>k. k - 1) abortAt) stmts db')"

definition transaction :: "nat option \<Rightarrow> (Db \<Rightarrow> Db option) list \<Rightarrow> Db \<Rightarrow> Db option" where
  "transaction abortAt stmts db = runStatements abortAt stmts db"

text \<open>\<open>include: { identities: true, addresses: true, celebrations: true }\<close>\<close>

record PersonWithRelations =
  pr_person :: Person
  pr_identities :: "Identity list"
  pr_addresses :: "Address list"
  pr_celebrations :: "Celebration list"

definition includeRelations :: "Db \<Rightarrow> Person \<Rightarrow> PersonWithRelations" where
  "includeRelations db p =
     \<lparr>pr_person = p,
      pr_identities = filter (\<lambda>i. identity_personId i = person_id p) (identities db),
      pr_addresses = filter (\<lambda>a. address_personId a = person_id p) (addresses db),
      pr_celebrations = filter (\<lambda>c. celebration_personId c = person_id p) (celebrations db)\<rparr>"

text \<open>The result of the call and the store after it.\<close>

definition mergePeople ::
  "nat option \<Rightarrow> Db \<Rightarrow> string \<Rightarrow> string \<Rightarrow> string \<Rightarrow> (MergeError + PersonWithRelations) \<times> Db" where
  "mergePeople abortAt db userId person1Id person2Id =
     (let found1 = findFirstPerson db person1Id userId;
          found2 = findFirstPerson db person2Id userId
      in if found1 = None \<or> found2 = None then (Inl PeopleNotFound, db)
         else
           (case transaction abortAt
                   [identityUpdateMany person2Id person1Id,
                    addressUpdateMany person2Id person1Id,
                    celebrationUpdateMany person2Id person1Id,
                    eventGuestUpdateMany person2Id person1Id,
                    personDelete person2Id] db of
              None \<Rightarrow> (Inl TransactionAborted, db)
            | Some db' \<Rightarrow>
                (case find (\<lambda>p. person_id p = person1Id) (people db') of
                   None \<Rightarrow> (Inl RecordNotFound, db')
                 | Some p \<Rightarrow> (Inr (includeRelations db' p), db'))))"

text \<open>
  The example of the specification: A with one identity, B with two identities and one
  celebration (with a scheduled reminder), and event guests pointing at B, at A and at
  nobody.
\<close>

definition mkCelebration :: "string \<Rightarrow> string \<Rightarrow> CelebrationType \<Rightarrow> string option \<Rightarrow> Celebration" where
  "mkCelebration cid pid ty rule =
     \<lparr>celebration_id = cid, celebration_personId = pid, celebration_type = ty,
      celebration_title = None, celebration_date = dateOf 2020 3 15,
      celebration_recurringRule = rule, celebration_reminderOffsets = [7, 1, 0]\<rparr>"

definition mkGuest :: "string \<Rightarrow> string \<Rightarrow> string option \<Rightarrow> EventGuest" where
  "mkGuest gid eid pid =
     \<lparr>guest_id = gid, guest_eventId = eid, guest_personId = pid, guest_status = PENDING\<rparr>"

definition mergeExampleDb :: Db where
  "mergeExampleDb = emptyDb
     \<lparr>people := [mkPerson ''pa'' ''u1'', mkPerson ''pb'' ''u1''],
      identities := [mkIdentity ''i1'' ''pa'' (Some ''+15551230001'') None,
                     mkIdentity ''i2'' ''pb'' (Some ''+15551230002'') None,
                     mkIdentity ''i3'' ''pb'' None (Some ''b@example.com'')],
      celebrations := [mkCelebration ''c1'' ''pb'' BIRTHDAY (Some ''FREQ=YEARLY'')],
      eventGuests := [mkGuest ''g1'' ''e1'' (Some ''pb''), mkGuest ''g2'' ''e1'' (Some ''pa''),
                      mkGuest ''g3'' ''e1'' None],
      scheduledReminders :=
        [celebrationReminderRow ''r1'' ''u1'' ''c1'' (MakeDate 18329 (MakeTime 9 0 0 0))]\<rparr>"

text \<open>
  Example: a user with a person, a celebration and an event, and in the store one
  reminder of the celebration and one of the event.
\<close>

definition scheduleExampleDb :: Db where
  "scheduleExampleDb = emptyDb
     \<lparr>users := [mkUser ''u1'' True None],
      people := [mkPerson ''pa'' ''u1''],
      celebrations := [mkCelebration ''c1'' ''pa'' BIRTHDAY (Some ''FREQ=YEARLY'')],
      events := [\<lparr>event_id = ''e1'', event_hostUserId = ''u1'', event_title = ''Dinner'',
                  event_datetime = 1584262800000\<rparr>],
      scheduledReminders :=
        [celebrationReminderRow ''old'' ''u1'' ''c1'' 1583658000000,
         \<lparr>reminder_id = ''ev'', reminder_userId = ''u1'', reminder_celebrationId = None,
          reminder_eventId = Some ''e1'', reminder_scheduledFor = 1583658000000,
          reminder_sent = False, reminder_sentAt = None\<rparr>]\<rparr>"

section \<open>Celebration routes (routes/celebrations.ts)\<close>

text \<open>
  The request bodies after the schema has parsed them: \<open>reminderOffsets\<close> has its default
  on create, and every field of an update is optional. The handlers return the reply and
  the store after the request. \<open>newCelebrationId\<close> is the key the client generates for
  the created row. The \<open>date\<close> of a body is the \<open>Date\<close> object the schema makes of the
  string in the request, an Invalid Date when the string is no date. The store rejects
  a \<open>create\<close> or an \<open>update\<close> whose date is an Invalid Date or a timestamp the column
  cannot hold. An error thrown by the store or by \<open>scheduleCelebrationReminders\<close>
  reaches the error handler of the server, which replies 500; what was written before
  stays written.
\<close>

definition storable :: "(Date \<Rightarrow> bool) \<Rightarrow> JsDate \<Rightarrow> bool" where
  "storable stores d = (case d of None \<Rightarrow> False | Some t \<Rightarrow> stores t)"


record UpdateCelebrationBody =
  upd_type :: "CelebrationType option"
  upd_title :: "string option"
  upd_date :: "JsDate option"
  upd_recurringRule :: "string option"
  upd_reminderOffsets :: "int list option"

datatype Reply =
    Reply400 string
  | Reply404 string
  | Reply201 Celebration
  | Reply200 Celebration
  | Reply500 string


text \<open>\<open>celebration.update({ where: { id }, data: body })\<close>: a field absent from the body is kept.\<close>

definition applyUpdate :: "UpdateCelebrationBody \<Rightarrow> Celebration \<Rightarrow> Celebration" where
  "applyUpdate body c =
     c\<lparr>celebration_type := (case upd_type body of None \<Rightarrow> celebration_type c | Some t \<Rightarrow> t),
       celebration_title := (case upd_title body of None \<Rightarrow> celebration_title c | Some t \<Rightarrow> Some t),
       celebration_date := (case upd_date body of None \<Rightarrow> celebration_date c | Some d \<Rightarrow> the d),
       celebration_recurringRule :=
         (case upd_recurringRule body of None \<Rightarrow> celebration_recurringRule c | Some r \<Rightarrow> Some r),
       celebration_reminderOffsets :=
         (case upd_reminderOffsets body of None \<Rightarrow> celebration_reminderOffsets c | Some l \<Rightarrow> l)\<rparr>"

definition updateCelebration ::
  "TimeZone \<Rightarrow> (Date \<Rightarrow> bool) \<Rightarrow> (nat \<Rightarrow> string) \<Rightarrow> string \<Rightarrow> string \<Rightarrow>
     UpdateCelebrationBody \<Rightarrow> Db \<Rightarrow> Reply \<times> Db" where
  "updateCelebration tz stores newId userId celebrationId body db =
     (case find (\<lambda>c. celebration_id c = celebrationId \<and>
                   list_ex (\<lambda>p. person_id p = celebration_personId c \<and> person_userId p = userId)
                     (people db))
             (celebrations db) of
        None \<Rightarrow> (Reply404 ''Celebration not found'', db)
      | Some celebration \<Rightarrow>
          if (case upd_date body of None \<Rightarrow> False | Some d \<Rightarrow> \<not> storable stores d)
          then (Reply500 ''Interne serverfout'', db)
          else
            (let updated = applyUpdate body celebration;
                 db1 = db\<lparr>celebrations :=
                          map (\<lambda>c. if celebration_id c = celebrationId then applyUpdate body c else c)
                            (celebrations db)\<rparr>
             in if upd_date body \<noteq> None \<or> upd_reminderOffsets body \<noteq> None
                then (case scheduleCelebrationReminders tz stores newId userId
                             (celebration_id updated) (dateObject (celebration_date updated))
                             (celebration_reminderOffsets updated) db1 of
                        (None, db2) \<Rightarrow> (Reply200 updated, db2)
                      | (Some e, db2) \<Rightarrow> (Reply500 ''Interne serverfout'', db2))
                else (Reply200 updated, db1)))"

text \<open>
  The invariant of the data model: a birthday or an anniversary carries a recurrence
  marker (a \<open>recurringRule\<close> that is present and not empty, which is what the upcoming
  route tests), a life event carries none.
\<close>

definition carriesRecurrence :: "Celebration \<Rightarrow> bool" where
  "carriesRecurrence c = truthy (celebration_recurringRule c)"

definition celebrationInvariant :: "Celebration \<Rightarrow> bool" where
  "celebrationInvariant c =
     (if celebration_type c = LIFE_EVENT then \<not> carriesRecurrence c else carriesRecurrence c)"

text \<open>Example requests: a life event with a rule, a birthday without one.\<close>

definition exampleId :: "nat \<Rightarrow> string" where
  "exampleId k = ''r'' @ replicate k CHR ''x''"


definition onePersonDb :: Db where
  "onePersonDb = emptyDb\<lparr>users := [mkUser ''u1'' True None], people := [mkPerson ''pa'' ''u1'']\<rparr>"




definition toBirthdayBody :: UpdateCelebrationBody where
  "toBirthdayBody =
     \<lparr>upd_type = Some BIRTHDAY, upd_title = None, upd_date = None, upd_recurringRule = None,
      upd_reminderOffsets = None\<rparr>"

definition oneLifeEventDb :: Db where
  "oneLifeEventDb = onePersonDb\<lparr>celebrations := [mkCelebration ''c1'' ''pa'' LIFE_EVENT None]\<rparr>"

section \<open>Push notifications (services/push.ts)\<close>

text \<open>
  What the program does not own is a parameter of the model: the Expo service (what
  \<open>sendPushNotificationsAsync\<close> does with one message: it throws, returns no ticket, an
  ok ticket or an error ticket with optional details), the token check of the Expo
  library, which calls of the store raise an error, and the time zone of the server. The
  texts of the notifications are kept as the case the program selects, with the values
  it puts in; a number of days that is \<open>NaN\<close> is \<open>None\<close>.
\<close>

datatype ExpoTicketError = DeviceNotRegistered | OtherTicketError

datatype ExpoOutcome =
    SendThrows
  | NoTicket
  | TicketOk
  | TicketError "ExpoTicketError option"

datatype NotificationText =
    BirthdayToday string
  | BirthdayTomorrow string
  | BirthdayInDays string "int option"
  | EventStartsSoon string
  | EventToday string int
  | EventInDays string "int option"

record PushNotification =
  pn_userId :: string
  pn_text :: NotificationText

datatype StoreOp =
    UserFindUnique string
  | UserUpdate string
  | ReminderUpdate string

record Env =
  expoSend :: "string \<Rightarrow> PushNotification \<Rightarrow> ExpoOutcome"
  isExpoPushToken :: "string \<Rightarrow> bool"
  storeFails :: "StoreOp \<Rightarrow> bool"
  timeZone :: TimeZone

datatype ReminderError = StoreError | TypeError

text \<open>
  \<open>sendPushNotification\<close>: the lookup of the user is outside the try block, so an error
  of the store there is thrown to the caller; everything after it is caught and reported
  as \<open>false\<close>. \<open>NoTicket\<close> is \<open>tickets[0]\<close> undefined: reading its status throws inside
  the try block.
\<close>

definition clearPushToken :: "string \<Rightarrow> Db \<Rightarrow> Db" where
  "clearPushToken userId db =
     db\<lparr>users := map (\<lambda>u. if user_id u = userId
                              then u\<lparr>user_pushToken := None, user_pushPlatform := None\<rparr> else u)
                      (users db)\<rparr>"

definition sendPushNotification ::
  "Env \<Rightarrow> Db \<Rightarrow> PushNotification \<Rightarrow> (ReminderError + bool) \<times> Db" where
  "sendPushNotification env db notification =
     (if storeFails env (UserFindUnique (pn_userId notification)) then (Inl StoreError, db)
      else case find (\<lambda>u. user_id u = pn_userId notification) (users db) of
             None \<Rightarrow> (Inr False, db)
           | Some user \<Rightarrow>
               (case user_pushToken user of
                  None \<Rightarrow> (Inr False, db)
                | Some token \<Rightarrow>
                    if token = [] \<or> \<not> user_pushEnabled user then (Inr False, db)
                    else if \<not> isExpoPushToken env token then (Inr False, db)
                    else (case expoSend env token notification of
                            SendThrows \<Rightarrow> (Inr False, db)
                          | NoTicket \<Rightarrow> (Inr False, db)
                          | TicketOk \<Rightarrow> (Inr True, db)
                          | TicketError details \<Rightarrow>
                              if details = Some DeviceNotRegistered
                              then (if storeFails env (UserUpdate (pn_userId notification))
                                    then (Inr False, db)
                                    else (Inr False, clearPushToken (pn_userId notification) db))
                              else (Inr False, db))))"

definition sendBirthdayReminder ::
  "Env \<Rightarrow> Db \<Rightarrow> string \<Rightarrow> string \<Rightarrow> int option \<Rightarrow> (ReminderError + bool) \<times> Db" where
  "sendBirthdayReminder env db userId personName daysUntil =
     sendPushNotification env db
       \<lparr>pn_userId = userId,
        pn_text = (if daysUntil = Some 0 then BirthdayToday personName
                   else if daysUntil = Some 1 then BirthdayTomorrow personName
                   else BirthdayInDays personName daysUntil)\<rparr>"

definition sendEventReminder ::
  "Env \<Rightarrow> Db \<Rightarrow> string \<Rightarrow> string \<Rightarrow> int option \<Rightarrow> (ReminderError + bool) \<times> Db" where
  "sendEventReminder env db userId eventTitle hoursUntil =
     sendPushNotification env db
       \<lparr>pn_userId = userId,
        pn_text = (case hoursUntil of
                     None \<Rightarrow> EventInDays eventTitle None
                   | Some h \<Rightarrow>
                       if h \<le> 1 then EventStartsSoon eventTitle
                       else if h \<le> 24 then EventToday eventTitle h
                       else EventInDays eventTitle (Some (h div 24)))\<rparr>"

section \<open>Processing due reminders (services/notifications.ts)\<close>

text \<open>
  \<open>now\<close> is the clock reading of the call; the helpers read the clock again, which the
  model takes to be the same instant. \<open>Math.ceil\<close> of a quotient of integers is the
  negated floor of the negated quotient (the quotient of the program is a floating-point
  number, which gives the same for dates less than seventy thousand years apart). A
  difference with \<open>NaN\<close> is \<open>NaN\<close>, and so are \<open>Math.ceil\<close>, \<open>Math.max\<close> and \<open>Math.floor\<close>
  of it; a comparison with \<open>NaN\<close> is false.
\<close>

definition getDaysUntil :: "TimeZone \<Rightarrow> Date \<Rightarrow> Date \<Rightarrow> int option" where
  "getDaysUntil tz now targetDate =
     (let target = copyDate (dateObject targetDate);
          target = setHours4 tz target 0 0 0 0;
          now0 = setHours4 tz (dateObject now) 0 0 0 0;
          diffTime = (case target of
                        None \<Rightarrow> None
                      | Some a \<Rightarrow> (case now0 of None \<Rightarrow> None | Some b \<Rightarrow> Some (a - b)))
      in map_option (\<lambda>d. - ((- d) div msPerDay)) diffTime)"

definition mathMax0 :: "int option \<Rightarrow> int option" where
  "mathMax0 x = map_option (max 0) x"

definition getHoursUntil :: "Date \<Rightarrow> Date \<Rightarrow> int option" where
  "getHoursUntil now targetDate =
     (let diffTime = (case dateObject targetDate of
                        None \<Rightarrow> None
                      | Some a \<Rightarrow>
                          (case dateObject now of None \<Rightarrow> None | Some b \<Rightarrow> Some (a - b)))
      in map_option (\<lambda>d. - ((- d) div msPerHour)) diffTime)"

text \<open>
  A reminder as \<open>findMany\<close> loads it, with \<open>include: { user, celebration: { include:
  { person } }, event }\<close>. A relation whose row is missing is \<open>null\<close>.
\<close>

record DueReminder =
  dr_reminder :: ScheduledReminder
  dr_user :: "User option"
  dr_celebration :: "(Celebration \<times> Person option) option"
  dr_event :: "Event option"

definition joinReminder :: "Db \<Rightarrow> ScheduledReminder \<Rightarrow> DueReminder" where
  "joinReminder db r =
     \<lparr>dr_reminder = r,
      dr_user = find (\<lambda>u. user_id u = reminder_userId r) (users db),
      dr_celebration =
        (case reminder_celebrationId r of
           None \<Rightarrow> None
         | Some cid \<Rightarrow>
             (case find (\<lambda>c. celebration_id c = cid) (celebrations db) of
                None \<Rightarrow> None
              | Some c \<Rightarrow> Some (c, find (\<lambda>p. person_id p = celebration_personId c) (people db)))),
      dr_event =
        (case reminder_eventId r of
           None \<Rightarrow> None
         | Some eid \<Rightarrow> find (\<lambda>e. event_id e = eid) (events db))\<rparr>"

definition isDue :: "Date \<Rightarrow> ScheduledReminder \<Rightarrow> bool" where
  "isDue now r = (\<not> reminder_sent r \<and> reminder_scheduledFor r \<le> now)"

definition findDueReminders :: "Date \<Rightarrow> Db \<Rightarrow> DueReminder list" where
  "findDueReminders now db =
     map (joinReminder db) (take 100 (filter (isDue now) (scheduledReminders db)))"

text \<open>
  The body of the try block, in three parts. Each gives the error it throws, if any,
  and the store as it is then: what was written before a throw stays written.
\<close>

definition notifyCelebration ::
  "Env \<Rightarrow> Date \<Rightarrow> DueReminder \<Rightarrow> Db \<Rightarrow> ReminderError option \<times> Db" where
  "notifyCelebration env now reminder db =
     (case dr_celebration reminder of
        None \<Rightarrow> (None, db)
      | Some cp \<Rightarrow>
          (let daysUntil = getDaysUntil (timeZone env) now (celebration_date (fst cp)) in
           case snd cp of
             None \<Rightarrow> (Some TypeError, db)
           | Some person \<Rightarrow>
               (case dr_user reminder of
                  None \<Rightarrow> (Some TypeError, db)
                | Some user \<Rightarrow>
                    if user_pushEnabled user \<and> truthy (user_pushToken user)
                    then (case sendBirthdayReminder env db (reminder_userId (dr_reminder reminder))
                                 (person_displayName person) (mathMax0 daysUntil) of
                            (Inl e, db') \<Rightarrow> (Some e, db')
                          | (Inr _, db') \<Rightarrow> (None, db'))
                    else (None, db))))"

definition notifyEvent ::
  "Env \<Rightarrow> Date \<Rightarrow> DueReminder \<Rightarrow> Db \<Rightarrow> ReminderError option \<times> Db" where
  "notifyEvent env now reminder db =
     (case dr_event reminder of
        None \<Rightarrow> (None, db)
      | Some event \<Rightarrow>
          (let hoursUntil = getHoursUntil now (event_datetime event) in
           case dr_user reminder of
             None \<Rightarrow> (Some TypeError, db)
           | Some user \<Rightarrow>
               if user_pushEnabled user \<and> truthy (user_pushToken user)
               then (case sendEventReminder env db (reminder_userId (dr_reminder reminder))
                            (event_title event) (mathMax0 hoursUntil) of
                       (Inl e, db') \<Rightarrow> (Some e, db')
                     | (Inr _, db') \<Rightarrow> (None, db'))
               else (None, db)))"

text \<open>\<open>scheduledReminder.update({ where: { id }, data: { sent: true, sentAt: now } })\<close>\<close>

definition markRow :: "Date \<Rightarrow> ScheduledReminder \<Rightarrow> ScheduledReminder" where
  "markRow now r = r\<lparr>reminder_sent := True, reminder_sentAt := Some now\<rparr>"

definition markSent :: "Env \<Rightarrow> Date \<Rightarrow> string \<Rightarrow> Db \<Rightarrow> ReminderError option \<times> Db" where
  "markSent env now rid db =
     (if storeFails env (ReminderUpdate rid) \<or>
         \<not> list_ex (\<lambda>r. reminder_id r = rid) (scheduledReminders db)
      then (Some StoreError, db)
      else (None, db\<lparr>scheduledReminders :=
                     map (\<lambda>r. if reminder_id r = rid then markRow now r else r)
                       (scheduledReminders db)\<rparr>))"

definition processReminder ::
  "Env \<Rightarrow> Date \<Rightarrow> DueReminder \<Rightarrow> Db \<Rightarrow> ReminderError option \<times> Db" where
  "processReminder env now reminder db =
     (case notifyCelebration env now reminder db of
        (Some e, db1) \<Rightarrow> (Some e, db1)
      | (None, db1) \<Rightarrow>
          (case notifyEvent env now reminder db1 of
             (Some e, db2) \<Rightarrow> (Some e, db2)
           | (None, db2) \<Rightarrow> markSent env now (reminder_id (dr_reminder reminder)) db2))"

text \<open>The loop: an error is caught and logged, and the loop goes on with the next reminder.\<close>

fun processLoop :: "Env \<Rightarrow> Date \<Rightarrow> DueReminder list \<Rightarrow> nat \<Rightarrow> Db \<Rightarrow> nat \<times> Db" where
  "processLoop env now [] processedCount db = (processedCount, db)"
| "processLoop env now (reminder # rest) processedCount db =
     (case processReminder env now reminder db of
        (None, db') \<Rightarrow> processLoop env now rest (processedCount + 1) db'
      | (Some e, db') \<Rightarrow> processLoop env now rest processedCount db')"

definition processDueReminders :: "Env \<Rightarrow> Date \<Rightarrow> Db \<Rightarrow> nat \<times> Db" where
  "processDueReminders env now db = processLoop env now (findDueReminders now db) 0 db"

text \<open>
  When the processing of a loaded reminder throws, as a condition on the environment and
  the loaded data: a relation that is \<open>null\<close> where the program reads through it, or a
  call of the store that raises.
\<close>

definition wantsPush :: "User option \<Rightarrow> bool" where
  "wantsPush user =
     (case user of None \<Rightarrow> False | Some u \<Rightarrow> user_pushEnabled u \<and> truthy (user_pushToken u))"

definition raises :: "(StoreOp \<Rightarrow> bool) \<Rightarrow> DueReminder \<Rightarrow> bool" where
  "raises fails reminder =
     ((case dr_celebration reminder of
         None \<Rightarrow> False
       | Some cp \<Rightarrow> snd cp = None \<or> dr_user reminder = None \<or>
           (wantsPush (dr_user reminder) \<and>
            fails (UserFindUnique (reminder_userId (dr_reminder reminder))))) \<or>
      (case dr_event reminder of
         None \<Rightarrow> False
       | Some event \<Rightarrow> dr_user reminder = None \<or>
           (wantsPush (dr_user reminder) \<and>
            fails (UserFindUnique (reminder_userId (dr_reminder reminder))))) \<or>
      fails (ReminderUpdate (reminder_id (dr_reminder reminder))))"

definition markedRows :: "Date \<Rightarrow> string set \<Rightarrow> ScheduledReminder list \<Rightarrow> ScheduledReminder list" where
  "markedRows now ids rows = map (\<lambda>r. if reminder_id r \<in> ids then markRow now r else r) rows"

text \<open>The ids of the reminders a call loads.\<close>

definition loadedIds :: "Date \<Rightarrow> Db \<Rightarrow> string list" where
  "loadedIds now db = map (\<lambda>dr. reminder_id (dr_reminder dr)) (findDueReminders now db)"

text \<open>
  Example: a user with push enabled, three reminders due at the clock reading 2000 (two
  for a celebration, one for an event) and one not yet due; an environment in which Expo
  throws on every message and nothing else fails, one in which the store also raises on
  the update of reminder \<open>r1\<close>, and one in which Expo delivers every message and the store
  raises on the update of \<open>r1\<close>, and one in which Expo delivers every message and
  the store raises on the lookup of the user. The server is in UTC.
\<close>

definition mkReminder :: "string \<Rightarrow> string option \<Rightarrow> string option \<Rightarrow> Date \<Rightarrow> ScheduledReminder" where
  "mkReminder rid cid eid scheduledFor =
     \<lparr>reminder_id = rid, reminder_userId = ''u1'', reminder_celebrationId = cid,
      reminder_eventId = eid, reminder_scheduledFor = scheduledFor, reminder_sent = False,
      reminder_sentAt = None\<rparr>"

definition remindersDb :: Db where
  "remindersDb = emptyDb
     \<lparr>users := [mkUser ''u1'' True (Some ''ExponentPushToken[x]'')],
      people := [mkPerson ''pa'' ''u1''],
      celebrations := [mkCelebration ''c1'' ''pa'' BIRTHDAY (Some ''FREQ=YEARLY'')],
      events := [\<lparr>event_id = ''e1'', event_hostUserId = ''u1'', event_title = ''Dinner'',
                  event_datetime = 5000\<rparr>],
      scheduledReminders :=
        [mkReminder ''r1'' (Some ''c1'') None 1000,
         mkReminder ''r2'' (Some ''c1'') None 1500,
         mkReminder ''r3'' None (Some ''e1'') 2000,
         mkReminder ''r4'' None (Some ''e1'') 4000]\<rparr>"

definition expoDownEnv :: Env where
  "expoDownEnv =
     \<lparr>expoSend = (\<lambda>token message. SendThrows), isExpoPushToken = (\<lambda>token. True),
      storeFails = (\<lambda>op. False), timeZone = utcZone\<rparr>"

definition deliveredNotMarkedEnv :: Env where
  "deliveredNotMarkedEnv =
     \<lparr>expoSend = (\<lambda>token message. TicketOk), isExpoPushToken = (\<lambda>token. True),
      storeFails = (\<lambda>op. op = ReminderUpdate ''r1''), timeZone = utcZone\<rparr>"

definition lookupFailsEnv :: Env where
  "lookupFailsEnv =
     \<lparr>expoSend = (\<lambda>token message. TicketOk), isExpoPushToken = (\<lambda>token. True),
      storeFails = (\<lambda>op. op = UserFindUnique ''u1''), timeZone = utcZone\<rparr>"

definition updateFailsEnv :: Env where
  "updateFailsEnv =
     \<lparr>expoSend = (\<lambda>token message. SendThrows), isExpoPushToken = (\<lambda>token. True),
      storeFails = (\<lambda>op. op = ReminderUpdate ''r1''), timeZone = utcZone\<rparr>"

section \<open>Properties of the normalizer\<close>

lemma stripNonDigits_digits: "\<forall>c \<in> set (stripNonDigits raw). isDigit c"
  by (simp add: stripNonDigits_def)

text \<open>
  Claim C8. \<open>normalizePhone\<close> removes every non-digit character; when exactly ten digits
  remain the result is \<open>+\<close>, the country prefix \<open>1\<close> and the ten digits; in every other
  case (eleven digits starting with \<open>1\<close>, more than ten digits, fewer than ten) it is
  \<open>+\<close> followed by the digits that remain. The function is total: it has a value of this
  form on every input string.
\<close>

theorem normalizePhone_spec:
  "normalizePhone raw =
     (if length (filter isDigit raw) = 10 then ''+'' @ ''1'' @ filter isDigit raw
      else ''+'' @ filter isDigit raw)"
  by (simp add: normalizePhone_def stripNonDigits_def Let_def)

lemma normalizePhone_examples:
  "normalizePhone ''(555) 123-4567'' = ''+15551234567''"
  "normalizePhone ''1 (555) 123-4567'' = ''+15551234567''"
  "normalizePhone ''+31 6 1234 5678'' = ''+31612345678''"
  "normalizePhone ''n/a'' = ''+''"
  by code_simp+

section \<open>Properties of the dates\<close>











lemma MonthFromTime_range: "0 \<le> MonthFromTime t \<and> MonthFromTime t < 12"
  by (simp add: MonthFromTime_def Let_def)

text \<open>The day of a time value is the day \<open>MakeDay\<close> makes of its year, month and date.\<close>

lemma MakeDay_of_fields:
  "MakeDay (YearFromTime t) (MonthFromTime t) date = Day t - DateFromTime t + date"
proof -
  have "MonthFromTime t div 12 = 0" "MonthFromTime t mod 12 = MonthFromTime t"
    using MonthFromTime_range [of t] by simp_all
  then show ?thesis
    by (simp add: MakeDay_def DateFromTime_def DayWithinYear_def InLeapYear_def Let_def)
qed



lemma Day_MakeDate: "0 \<le> time \<Longrightarrow> time < msPerDay \<Longrightarrow> Day (MakeDate day time) = day"
  by (simp add: Day_def MakeDate_def msPerDay_def)


lemma TimeWithinDay_range: "0 \<le> TimeWithinDay t \<and> TimeWithinDay t < msPerDay"
  by (simp add: TimeWithinDay_def msPerDay_def)







text \<open>Zones and the range of time values.\<close>

lemma TimeClip_inRange: "inRange t \<Longrightarrow> TimeClip t = Some t"
  by (simp add: TimeClip_def inRange_def)

lemma TimeClip_outside: "\<not> inRange t \<Longrightarrow> TimeClip t = None"
  by (simp add: TimeClip_def inRange_def)


lemma readsBack_keepsDay: "readsBack tz w \<Longrightarrow> keepsDay tz w"
  by (simp add: readsBack_def keepsDay_def)

lemma calendar_examples:
  "dateOf 1970 1 1 = 0"
  "dateOf 2020 3 15 = 1584230400000"
  "dateOf 2024 2 29 = 1709164800000"
  "dateOf 2025 1 1 = 1735689600000"
  "YearFromTime 1584230400000 = 2020"
  "MonthFromTime 1584230400000 = 2"
  "DateFromTime 1584230400000 = 15"
  "YearFromTime (- 1) = 1969"
  "MonthFromTime (- 1) = 11"
  "DateFromTime (- 1) = 31"
  "YearFromTime 8640000000000000 = 275760"
  by code_simp+

section \<open>Properties of reminder scheduling\<close>

lemma setDate_getDate_minus:
  "setDate tz (Some t) (map_option (\<lambda>dt. dt - n) (getDate tz (Some t))) =
     TimeClip (UTC tz (sameTimeReading tz t n))"
  by (simp add: setDate_def getDate_def Let_def MakeDay_of_fields MakeDate_def sameTimeReading_def
        msPerDay_def)

lemma Day_sameTimeReading: "Day (sameTimeReading tz t n) = Day (LocalTime tz t) - n"
  using Day_MakeDate [of "TimeWithinDay (LocalTime tz t)" "Day (LocalTime tz t) - n"]
    TimeWithinDay_range [of "LocalTime tz t"]
  by (simp add: sameTimeReading_def MakeDate_def msPerDay_def)

lemma celebrationScheduledFor_eq:
  assumes t: "inRange t" and n: "schedulable tz stores t n"
  shows "celebrationScheduledFor tz (Some t) n = Some (UTC tz (nineReading tz t n))"
proof -
  let ?s = "UTC tz (sameTimeReading tz t n)"
  have copy: "copyDate (Some t) = Some t"
    using t by (simp add: copyDate_def TimeClip_inRange)
  have first: "setDate tz (Some t) (map_option (\<lambda>dt. dt - n) (getDate tz (Some t))) = Some ?s"
    unfolding setDate_getDate_minus using n by (simp add: schedulable_def TimeClip_inRange)
  have day: "Day (LocalTime tz ?s) = Day (LocalTime tz t) - n"
    using n by (simp add: schedulable_def keepsDay_def Day_sameTimeReading)
  have nine: "MakeDate (Day (LocalTime tz ?s)) (MakeTime 9 0 0 0) = nineReading tz t n"
    unfolding day by (simp add: MakeDate_def MakeTime_def
        nineReading_def msPerDay_def msPerHour_def)
  have second: "setHours4 tz (Some ?s) 9 0 0 0 = Some (UTC tz (nineReading tz t n))"
    using n by (simp add: setHours4_def Let_def nine schedulable_def TimeClip_inRange)
  show ?thesis
    by (simp add: celebrationScheduledFor_def Let_def copy first second)
qed

lemma scheduled_all:
  assumes "inRange t" "list_all (schedulable tz stores t) offs"
  shows "map (celebrationScheduledFor tz (Some t)) offs =
           map (\<lambda>n. Some (UTC tz (nineReading tz t n))) offs"
  using assms by (auto simp: list_all_iff intro: celebrationScheduledFor_eq)

lemma created_rows_of_celebration:
  "filter (\<lambda>r. reminder_celebrationId r = Some c)
     (map (\<lambda>(k, scheduledFor). celebrationReminderRow (newId k) u c (the scheduledFor)) xs) =
   map (\<lambda>(k, scheduledFor). celebrationReminderRow (newId k) u c (the scheduledFor)) xs"
  by (induction xs) (auto simp: celebrationReminderRow_def)

lemma created_rows_not_others:
  "filter (\<lambda>r. reminder_celebrationId r \<noteq> Some c)
     (map (\<lambda>(k, scheduledFor). celebrationReminderRow (newId k) u c (the scheduledFor)) xs) = []"
  by (induction xs) (auto simp: celebrationReminderRow_def)

lemma scheduledFor_rows:
  "map reminder_scheduledFor
     (map (\<lambda>(k, scheduledFor). celebrationReminderRow (newId k) u c (the scheduledFor))
        (enumerate n xs)) = map the xs"
  by (induction xs arbitrary: n) (auto simp: celebrationReminderRow_def)

lemma created_rows_unsent:
  "list_all (\<lambda>r. \<not> reminder_sent r \<and> reminder_userId r = u)
     (map (\<lambda>(k, scheduledFor). celebrationReminderRow (newId k) u c (the scheduledFor)) xs)"
  by (induction xs) (auto simp: celebrationReminderRow_def)

text \<open>
  The rows of the celebration after a call: none of the old ones, and the created ones
  when \<open>createMany\<close> accepts the call.
\<close>

lemma schedule_accepted:
  assumes dates: "\<not> list_ex (\<lambda>d. d = None) (map (celebrationScheduledFor tz date) offs)"
    and held: "\<not> list_ex (\<lambda>d. \<not> stores (the d)) (map (celebrationScheduledFor tz date) offs)"
    and user: "list_ex (\<lambda>x. user_id x = u) (users db)"
    and celebration: "list_ex (\<lambda>x. celebration_id x = c) (celebrations db)"
  shows "fst (scheduleCelebrationReminders tz stores newId u c date offs db) = None \<and>
         remindersOfCelebration c
             (snd (scheduleCelebrationReminders tz stores newId u c date offs db)) =
           map (\<lambda>(k, scheduledFor). celebrationReminderRow (newId k) u c (the scheduledFor))
             (enumerate 0 (map (celebrationScheduledFor tz date) offs)) \<and>
         filter (\<lambda>r. reminder_celebrationId r \<noteq> Some c)
           (scheduledReminders
               (snd (scheduleCelebrationReminders tz stores newId u c date offs db))) =
         filter (\<lambda>r. reminder_celebrationId r \<noteq> Some c) (scheduledReminders db)"
proof -
  have old: "filter (\<lambda>r. reminder_celebrationId r = Some c)
               (filter (\<lambda>r. reminder_celebrationId r \<noteq> Some c) (scheduledReminders db)) = []"
    by (simp add: filter_empty_conv)
  show ?thesis
    using dates held user celebration
    by (simp add: scheduleCelebrationReminders_def createManyCelebrationReminders_def Let_def
          remindersOfCelebration_def old created_rows_of_celebration created_rows_not_others)
qed

lemma schedule_keeps_users:
  "users (snd (scheduleCelebrationReminders tz stores newId u c date offs db)) = users db"
  by (simp add: scheduleCelebrationReminders_def createManyCelebrationReminders_def Let_def)

lemma schedule_keeps_celebrations:
  "celebrations
      (snd (scheduleCelebrationReminders tz stores newId u c date offs db)) = celebrations db"
  by (simp add: scheduleCelebrationReminders_def createManyCelebrationReminders_def Let_def)

lemma schedule_rows:
  assumes t: "inRange t" and offs: "list_all (schedulable tz stores t) offs"
    and user: "list_ex (\<lambda>x. user_id x = u) (users db)"
    and celebration: "list_ex (\<lambda>x. celebration_id x = c) (celebrations db)"
  shows "fst (scheduleCelebrationReminders tz stores newId u c (Some t) offs db) = None \<and>
         remindersOfCelebration c
             (snd (scheduleCelebrationReminders tz stores newId u c (Some t) offs db)) =
           map (\<lambda>(k, scheduledFor). celebrationReminderRow (newId k) u c (the scheduledFor))
             (enumerate 0 (map (\<lambda>n. Some (UTC tz (nineReading tz t n))) offs)) \<and>
         filter (\<lambda>r. reminder_celebrationId r \<noteq> Some c)
           (scheduledReminders
               (snd (scheduleCelebrationReminders tz stores newId u c (Some t) offs db))) =
         filter (\<lambda>r. reminder_celebrationId r \<noteq> Some c) (scheduledReminders db)"
proof -
  have dates: "\<not> list_ex (\<lambda>d. d = None) (map (celebrationScheduledFor tz (Some t)) offs)"
    unfolding scheduled_all [OF t offs] by (auto simp: list_ex_iff)
  have held: "\<not> list_ex (\<lambda>d. \<not> stores (the d)) (map (celebrationScheduledFor tz (Some t)) offs)"
    unfolding scheduled_all [OF t offs]
    using offs by (auto simp: list_ex_iff list_all_iff schedulable_def)
  from schedule_accepted [OF dates held user celebration, of newId] show ?thesis
    unfolding scheduled_all [OF t offs] .
qed

lemma schedule_times:
  assumes t: "inRange t" and offs: "list_all (schedulable tz stores t) offs"
    and user: "list_ex (\<lambda>x. user_id x = u) (users db)"
    and celebration: "list_ex (\<lambda>x. celebration_id x = c) (celebrations db)"
  shows "map reminder_scheduledFor
           (remindersOfCelebration c
               (snd (scheduleCelebrationReminders tz stores newId u c (Some t) offs db))) =
         map (\<lambda>n. UTC tz (nineReading tz t n)) offs"
proof -
  have "map the (map (\<lambda>n. Some (UTC tz (nineReading tz t n))) offs) =
          map (\<lambda>n. UTC tz (nineReading tz t n)) offs"
    by (simp add: comp_def)
  then show ?thesis
    using schedule_rows [OF assms, of newId] by (simp only: scheduledFor_rows)
qed

lemma nine_distinct:
  assumes "schedulable tz stores t a" "schedulable tz stores t b" "a \<noteq> b"
  shows "UTC tz (nineReading tz t a) \<noteq> UTC tz (nineReading tz t b)"
proof
  assume "UTC tz (nineReading tz t a) = UTC tz (nineReading tz t b)"
  then have "LocalTime tz (UTC tz (nineReading tz t a))
      = LocalTime tz (UTC tz (nineReading tz t b))"
    by simp
  then have "nineReading tz t a = nineReading tz t b"
    using assms by (simp add: schedulable_def readsBack_def)
  then show False using assms by (simp add: nineReading_def)
qed

text \<open>
  Where the statement below stops. An instant before the first timestamp of the column
  is refused by the store, and \<open>createMany\<close> throws as it does for an Invalid Date. In
  Apia the day 30 December 2011 did not exist: from 2 January 2012 (local time) the
  offsets 3 and 2 both give 09:00 on 31 December, the same instant twice.
\<close>

lemma scheduleCelebrationReminders_limits:
  "celebrationScheduledFor utcZone (Some 1584230400000) 2500000 = Some (- 214415737200000)"
  "fst (scheduleCelebrationReminders utcZone timestampColumn exampleId ''u1'' ''c1''
          (Some 1584230400000) [2500000] scheduleExampleDb) = Some TimestampOutOfRange"
  "remindersOfCelebration ''c1''
     (snd (scheduleCelebrationReminders utcZone timestampColumn exampleId ''u1'' ''c1''
             (Some 1584230400000) [2500000] scheduleExampleDb)) = []"
  "map reminder_scheduledFor
     (remindersOfCelebration ''c1''
        (snd (scheduleCelebrationReminders apia2011 timestampColumn exampleId ''u1'' ''c1''
                (Some 1325462400000) [3, 2] scheduleExampleDb))) =
     [1325271600000, 1325271600000]"
  "LocalTime apia2011 1325462400000 = 1325512800000"
  "LocalTime apia2011 1325271600000 = 1325322000000"
  "\<not> schedulable apia2011 timestampColumn 1325462400000 3"
  by code_simp+

text \<open>
  Claim C5 as stated fails for some dates and offsets. An offset that moves the date
  out of the range of time values makes \<open>scheduledFor\<close> an Invalid Date, which
  \<open>createMany\<close> rejects; a user that does not exist makes it reject the rows for their
  foreign key. In both cases the function throws after \<open>deleteMany\<close> has removed the old
  row of the celebration, and no row is created: one offset, or three, and no row. The
  date is 2020-03-15T00:00Z, in UTC.
\<close>

theorem scheduleCelebrationReminders_counterexample:
  "inRange 1584230400000 \<and>
   list_ex (\<lambda>x. user_id x = ''u1'') (users scheduleExampleDb) \<and>
   list_ex (\<lambda>x. celebration_id x = ''c1'') (celebrations scheduleExampleDb) \<and>
   map reminder_id (remindersOfCelebration ''c1'' scheduleExampleDb) = [''old''] \<and>
   celebrationScheduledFor utcZone (Some 1584230400000) 200000000 = None \<and>
   fst (scheduleCelebrationReminders utcZone timestampColumn exampleId ''u1'' ''c1''
          (Some 1584230400000) [200000000] scheduleExampleDb) = Some InvalidDateValue \<and>
   remindersOfCelebration ''c1''
     (snd (scheduleCelebrationReminders utcZone timestampColumn exampleId ''u1'' ''c1''
             (Some 1584230400000) [200000000] scheduleExampleDb)) = [] \<and>
   \<not> list_ex (\<lambda>x. user_id x = ''u2'') (users scheduleExampleDb) \<and>
   fst (scheduleCelebrationReminders utcZone timestampColumn exampleId ''u2'' ''c1''
          (Some 1584230400000) [7, 1, 0] scheduleExampleDb) = Some ForeignKeyViolation \<and>
   remindersOfCelebration ''c1''
     (snd (scheduleCelebrationReminders utcZone timestampColumn exampleId ''u2'' ''c1''
             (Some 1584230400000) [7, 1, 0] scheduleExampleDb)) = []"
  by code_simp

text \<open>
  Claim C5, as amended. Dates are read in the local time of the server. Let the user
  and the celebration exist, let \<open>date\<close> be a valid date with time value \<open>t\<close>, and let
  every offset be schedulable: the instant \<open>n\<close> days before \<open>date\<close> at the same local time
  of day and the instant of 09:00 local time on that day are in the range of time
  values, the first falls on that local day, the second reads 09:00 on it (as they do
  wherever the clocks make no jump at those readings) and the store holds it. Then the
  call succeeds; after it the rows of the celebration are exactly
  \<open>length offsets\<close> many, one per offset in the order of the offsets, unsent and of the
  user; the row of offset \<open>n\<close> is scheduled for the instant of 09:00 local time on the
  local day \<open>n\<close> days before the local day of \<open>date\<close> (its local reading is that day at
  32400000 ms); and the rows of every other celebration and of the events are as before.
  In particular a call with offsets \<open>[3, 0]\<close> after a call with \<open>[7, 1, 0]\<close> leaves exactly
  two rows for the celebration, at D-3 and D, and none at D-7 or D-1. The examples are
  the date 2020-03-15T00:00Z in UTC (09:00Z on 8, 14 and 15 March, then on 12 and 15
  March), the same date eight hours west of UTC, where it is 14 March (17:00Z on 7 and
  13 March), and the date 2020-04-01T00:00Z in Amsterdam, across the start of daylight
  saving (08:00Z on 25 March and 07:00Z on 1 April).
\<close>

theorem scheduleCelebrationReminders_spec:
  "(inRange t \<and> list_all (schedulable tz stores t) offs \<and>
    list_ex (\<lambda>x. user_id x = u) (users db) \<and>
    list_ex (\<lambda>x. celebration_id x = c) (celebrations db) \<longrightarrow>
      fst (scheduleCelebrationReminders tz stores newId u c (Some t) offs db) = None \<and>
      length
        (remindersOfCelebration c
           (snd (scheduleCelebrationReminders tz stores newId u c (Some t) offs db))) =
        length offs \<and>
      map reminder_scheduledFor
        (remindersOfCelebration c
           (snd (scheduleCelebrationReminders tz stores newId u c (Some t) offs db))) =
        map (\<lambda>n. UTC tz ((Day (LocalTime tz t) - n) * 86400000 + 32400000)) offs \<and>
      map (\<lambda>r. LocalTime tz (reminder_scheduledFor r))
        (remindersOfCelebration c
           (snd (scheduleCelebrationReminders tz stores newId u c (Some t) offs db))) =
        map (\<lambda>n. (Day (LocalTime tz t) - n) * 86400000 + 32400000) offs \<and>
      list_all (\<lambda>r. \<not> reminder_sent r \<and> reminder_userId r = u)
        (remindersOfCelebration c
           (snd (scheduleCelebrationReminders tz stores newId u c (Some t) offs db))) \<and>
      filter (\<lambda>r. reminder_celebrationId r \<noteq> Some c)
        (scheduledReminders
           (snd (scheduleCelebrationReminders tz stores newId u c (Some t) offs db))) =
        filter (\<lambda>r. reminder_celebrationId r \<noteq> Some c) (scheduledReminders db)) \<and>
   (inRange t \<and> list_all (schedulable tz stores t) [7, 1, 0] \<and>
    list_all (schedulable tz stores t) [3, 0] \<and>
    list_ex (\<lambda>x. user_id x = u) (users db) \<and>
    list_ex (\<lambda>x. celebration_id x = c) (celebrations db) \<longrightarrow>
      map reminder_scheduledFor
        (remindersOfCelebration c
           (snd (scheduleCelebrationReminders tz stores newIdLater u c (Some t) [3, 0]
              (snd (scheduleCelebrationReminders tz stores newId u c (Some t) [7, 1, 0] db))))) =
        [UTC tz ((Day (LocalTime tz t) - 3) * 86400000 + 32400000),
         UTC tz (Day (LocalTime tz t) * 86400000 + 32400000)] \<and>
      UTC tz ((Day (LocalTime tz t) - 7) * 86400000 + 32400000) \<notin>
        set (map reminder_scheduledFor
          (remindersOfCelebration c
             (snd (scheduleCelebrationReminders tz stores newIdLater u c (Some t) [3, 0]
                (snd (scheduleCelebrationReminders tz stores newId u c (Some t) [7, 1, 0]
                        db)))))) \<and>
      UTC tz ((Day (LocalTime tz t) - 1) * 86400000 + 32400000) \<notin>
        set (map reminder_scheduledFor
          (remindersOfCelebration c
             (snd (scheduleCelebrationReminders tz stores newIdLater u c (Some t) [3, 0]
                (snd (scheduleCelebrationReminders tz stores newId u c (Some t) [7, 1, 0]
                        db))))))) \<and>
   map reminder_scheduledFor
     (remindersOfCelebration ''c1''
        (snd (scheduleCelebrationReminders utcZone timestampColumn exampleId ''u1'' ''c1''
                (Some 1584230400000) [7, 1, 0] scheduleExampleDb))) =
     [1583658000000, 1584176400000, 1584262800000] \<and>
   map reminder_scheduledFor
     (remindersOfCelebration ''c1''
        (snd (scheduleCelebrationReminders utcZone timestampColumn exampleId ''u1'' ''c1''
                (Some 1584230400000) [3, 0]
                (snd (scheduleCelebrationReminders utcZone timestampColumn exampleId ''u1'' ''c1''
                        (Some 1584230400000) [7, 1, 0] scheduleExampleDb))))) =
     [1584003600000, 1584262800000] \<and>
   map reminder_scheduledFor
     (remindersOfCelebration ''c1''
        (snd (scheduleCelebrationReminders (fixedZone (- 28800000)) timestampColumn exampleId
                ''u1'' ''c1'' (Some 1584230400000) [7, 1] scheduleExampleDb))) =
     [1583600400000, 1584118800000] \<and>
   map reminder_scheduledFor
     (remindersOfCelebration ''c1''
        (snd (scheduleCelebrationReminders amsterdam2020 timestampColumn exampleId ''u1'' ''c1''
                (Some 1585699200000) [7, 0] scheduleExampleDb))) =
     [1585123200000, 1585724400000]"
proof -
  let ?S = "\<lambda>ids offsets store.
              snd (scheduleCelebrationReminders tz stores ids u c (Some t) offsets store)"
  let ?nine = "\<lambda>n. (Day (LocalTime tz t) - n) * 86400000 + 32400000"
  have general:
    "inRange t \<and> list_all (schedulable tz stores t) offs \<and>
     list_ex (\<lambda>x. user_id x = u) (users db) \<and>
     list_ex (\<lambda>x. celebration_id x = c) (celebrations db) \<longrightarrow>
     fst (scheduleCelebrationReminders tz stores newId u c (Some t) offs db) = None \<and>
     length (remindersOfCelebration c (?S newId offs db)) = length offs \<and>
     map reminder_scheduledFor (remindersOfCelebration c (?S newId offs db)) =
       map (\<lambda>n. UTC tz (?nine n)) offs \<and>
     map (\<lambda>r. LocalTime tz (reminder_scheduledFor r))
         (remindersOfCelebration c (?S newId offs db)) =
       map ?nine offs \<and>
     list_all (\<lambda>r. \<not> reminder_sent r \<and> reminder_userId r = u)
       (remindersOfCelebration c (?S newId offs db)) \<and>
     filter (\<lambda>r. reminder_celebrationId r \<noteq> Some c) (scheduledReminders (?S newId offs db)) =
       filter (\<lambda>r. reminder_celebrationId r \<noteq> Some c) (scheduledReminders db)"
    (is "?H \<longrightarrow> ?C")
  proof (rule impI)
    assume H: ?H
    from H have t: "inRange t" and offs: "list_all (schedulable tz stores t) offs"
      and user: "list_ex (\<lambda>x. user_id x = u) (users db)"
      and celebration: "list_ex (\<lambda>x. celebration_id x = c) (celebrations db)"
      by simp_all
    note rows = schedule_rows [OF t offs user celebration, of newId]
    have accepted: "fst (scheduleCelebrationReminders tz stores newId u c (Some t) offs db) = None"
      using rows by simp
    have times: "map reminder_scheduledFor (remindersOfCelebration c (?S newId offs db)) =
                   map (\<lambda>n. UTC tz (?nine n)) offs"
      using schedule_times [OF t offs user celebration, of newId]
      by (simp add: nineReading_def)
    have n_rows: "length (remindersOfCelebration c (?S newId offs db)) = length offs"
      using arg_cong [OF times, of length] by simp
    have reads: "LocalTime tz (UTC tz (?nine n)) = ?nine n" if "n \<in> set offs" for n
      using offs that by (simp add: list_all_iff schedulable_def readsBack_def nineReading_def)
    have "map (\<lambda>r. LocalTime tz (reminder_scheduledFor r))
        (remindersOfCelebration c (?S newId offs db)) =
            map (LocalTime tz) (map reminder_scheduledFor
                (remindersOfCelebration c (?S newId offs db)))"
      by (simp add: comp_def)
    also have "\<dots> = map (\<lambda>n. LocalTime tz (UTC tz (?nine n))) offs"
      unfolding times by (simp add: comp_def)
    also have "\<dots> = map ?nine offs"
      using reads by simp
    finally have readings:
      "map (\<lambda>r. LocalTime tz (reminder_scheduledFor r))
          (remindersOfCelebration c (?S newId offs db)) =
         map ?nine offs" .
    have unsent: "list_all (\<lambda>r. \<not> reminder_sent r \<and> reminder_userId r = u)
                    (remindersOfCelebration c (?S newId offs db))"
      using rows by (simp only: created_rows_unsent)
    have others: "filter (\<lambda>r. reminder_celebrationId r \<noteq> Some c)
                    (scheduledReminders (?S newId offs db)) =
                  filter (\<lambda>r. reminder_celebrationId r \<noteq> Some c) (scheduledReminders db)"
      using rows by simp
    from accepted n_rows times readings unsent others show ?C
      by (intro conjI)
  qed
  have again:
    "inRange t \<and> list_all (schedulable tz stores t) [7, 1, 0] \<and>
     list_all (schedulable tz stores t) [3, 0] \<and>
     list_ex (\<lambda>x. user_id x = u) (users db) \<and>
     list_ex (\<lambda>x. celebration_id x = c) (celebrations db) \<longrightarrow>
     map reminder_scheduledFor
       (remindersOfCelebration c (?S newIdLater [3, 0] (?S newId [7, 1, 0] db))) =
       [UTC tz (?nine 3), UTC tz (Day (LocalTime tz t) * 86400000 + 32400000)] \<and>
     UTC tz (?nine 7) \<notin>
       set (map reminder_scheduledFor
         (remindersOfCelebration c (?S newIdLater [3, 0] (?S newId [7, 1, 0] db)))) \<and>
     UTC tz (?nine 1) \<notin>
       set (map reminder_scheduledFor
         (remindersOfCelebration c (?S newIdLater [3, 0] (?S newId [7, 1, 0] db))))"
    (is "?H \<longrightarrow> ?C")
  proof (rule impI)
    assume H: ?H
    from H have t: "inRange t" and later: "list_all (schedulable tz stores t) [3, 0]"
      and s7: "schedulable tz stores t 7" and s1: "schedulable tz stores t 1"
      and s3: "schedulable tz stores t 3" and s0: "schedulable tz stores t 0"
      and user: "list_ex (\<lambda>x. user_id x = u) (users db)"
      and celebration: "list_ex (\<lambda>x. celebration_id x = c) (celebrations db)"
      by simp_all
    have user1: "list_ex (\<lambda>x. user_id x = u) (users (?S newId [7, 1, 0] db))"
      using user by (simp only: schedule_keeps_users)
    have celebration1: "list_ex (\<lambda>x. celebration_id x = c) (celebrations (?S newId [7, 1, 0] db))"
      using celebration by (simp only: schedule_keeps_celebrations)
    have two: "map reminder_scheduledFor
                 (remindersOfCelebration c (?S newIdLater [3, 0] (?S newId [7, 1, 0] db))) =
               [UTC tz (?nine 3), UTC tz (Day (LocalTime tz t) * 86400000 + 32400000)]"
      using schedule_times [OF t later user1 celebration1, of newIdLater]
      by (simp add: nineReading_def)
    have d73: "UTC tz (?nine 7) \<noteq> UTC tz (?nine 3)"
      using nine_distinct [OF s7 s3] by (simp add: nineReading_def)
    have d70: "UTC tz (?nine 7) \<noteq> UTC tz (Day (LocalTime tz t) * 86400000 + 32400000)"
      using nine_distinct [OF s7 s0] by (simp add: nineReading_def)
    have d13: "UTC tz (?nine 1) \<noteq> UTC tz (?nine 3)"
      using nine_distinct [OF s1 s3] by (simp add: nineReading_def)
    have d10: "UTC tz (?nine 1) \<noteq> UTC tz (Day (LocalTime tz t) * 86400000 + 32400000)"
      using nine_distinct [OF s1 s0] by (simp add: nineReading_def)
    have no7: "UTC tz (?nine 7) \<notin>
       set (map reminder_scheduledFor
         (remindersOfCelebration c (?S newIdLater [3, 0] (?S newId [7, 1, 0] db))))"
      unfolding two using d73 d70 by simp
    have no1: "UTC tz (?nine 1) \<notin>
       set (map reminder_scheduledFor
         (remindersOfCelebration c (?S newIdLater [3, 0] (?S newId [7, 1, 0] db))))"
      unfolding two using d13 d10 by simp
    from two no7 no1 show ?C by (intro conjI)
  qed
  have utc: "map reminder_scheduledFor
     (remindersOfCelebration ''c1''
        (snd (scheduleCelebrationReminders utcZone timestampColumn exampleId ''u1'' ''c1''
            (Some 1584230400000)
                [7, 1, 0] scheduleExampleDb))) =
     [1583658000000, 1584176400000, 1584262800000]"
    by code_simp
  have utc_again: "map reminder_scheduledFor
     (remindersOfCelebration ''c1''
        (snd (scheduleCelebrationReminders utcZone timestampColumn exampleId ''u1'' ''c1''
            (Some 1584230400000)
                [3, 0]
                (snd (scheduleCelebrationReminders utcZone timestampColumn exampleId ''u1'' ''c1''
                        (Some 1584230400000) [7, 1, 0] scheduleExampleDb))))) =
     [1584003600000, 1584262800000]"
    by code_simp
  have west: "map reminder_scheduledFor
     (remindersOfCelebration ''c1''
        (snd (scheduleCelebrationReminders (fixedZone (- 28800000)) timestampColumn exampleId
                ''u1'' ''c1'' (Some 1584230400000) [7, 1] scheduleExampleDb))) =
     [1583600400000, 1584118800000]"
    by code_simp
  have amsterdam: "map reminder_scheduledFor
     (remindersOfCelebration ''c1''
        (snd (scheduleCelebrationReminders amsterdam2020 timestampColumn exampleId ''u1'' ''c1''
                (Some 1585699200000) [7, 0] scheduleExampleDb))) =
     [1585123200000, 1585724400000]"
    by code_simp
  from general again utc utc_again west amsterdam show ?thesis
    by (intro conjI)
qed

theorem scheduleCelebrationReminders_spec_witness:
  "inRange 1585699200000 \<and>
   list_all (schedulable amsterdam2020 timestampColumn 1585699200000) [7, 0] \<and>
   list_ex (\<lambda>x. user_id x = ''u1'') (users scheduleExampleDb) \<and>
   list_ex (\<lambda>x. celebration_id x = ''c1'') (celebrations scheduleExampleDb) \<and>
   fst (scheduleCelebrationReminders amsterdam2020 timestampColumn exampleId ''u1'' ''c1''
          (Some 1585699200000) [7, 0] scheduleExampleDb) = None \<and>
   length
     (remindersOfCelebration ''c1''
        (snd (scheduleCelebrationReminders amsterdam2020 timestampColumn exampleId ''u1'' ''c1''
                (Some 1585699200000) [7, 0] scheduleExampleDb))) = 2 \<and>
   map (\<lambda>r. LocalTime amsterdam2020 (reminder_scheduledFor r))
     (remindersOfCelebration ''c1''
        (snd (scheduleCelebrationReminders amsterdam2020 timestampColumn exampleId ''u1'' ''c1''
                (Some 1585699200000) [7, 0] scheduleExampleDb))) =
     [1585126800000, 1585731600000] \<and>
   inRange 1584230400000 \<and>
   list_all (schedulable utcZone timestampColumn 1584230400000) [7, 1, 0] \<and>
   list_all (schedulable utcZone timestampColumn 1584230400000) [3, 0] \<and>
   1583658000000 \<notin>
     set (map reminder_scheduledFor
       (remindersOfCelebration ''c1''
          (snd (scheduleCelebrationReminders utcZone timestampColumn exampleId ''u1'' ''c1''
                  (Some 1584230400000) [3, 0]
                  (snd (scheduleCelebrationReminders utcZone timestampColumn exampleId ''u1''
                          ''c1'' (Some 1584230400000) [7, 1, 0] scheduleExampleDb))))))"
proof -
  let ?r = "scheduleCelebrationReminders amsterdam2020 timestampColumn exampleId ''u1'' ''c1''
              (Some 1585699200000) [7, 0] scheduleExampleDb"
  let ?again = "snd (scheduleCelebrationReminders utcZone timestampColumn exampleId ''u1'' ''c1''
                  (Some 1584230400000) [3, 0]
                  (snd (scheduleCelebrationReminders utcZone timestampColumn exampleId ''u1''
                          ''c1'' (Some 1584230400000) [7, 1, 0] scheduleExampleDb)))"
  have t: "inRange 1585699200000" by code_simp
  have offs: "list_all (schedulable amsterdam2020 timestampColumn 1585699200000) [7, 0]"
    by code_simp
  have user: "list_ex (\<lambda>x. user_id x = ''u1'') (users scheduleExampleDb)" by code_simp
  have celebration: "list_ex (\<lambda>x. celebration_id x = ''c1'') (celebrations scheduleExampleDb)"
    by code_simp
  have t_utc: "inRange 1584230400000" by code_simp
  have first: "list_all (schedulable utcZone timestampColumn 1584230400000) [7, 1, 0]"
    by code_simp
  have later: "list_all (schedulable utcZone timestampColumn 1584230400000) [3, 0]"
    by code_simp
  note inst = scheduleCelebrationReminders_spec
      [where tz = amsterdam2020 and stores = timestampColumn and t = 1585699200000
         and offs = "[7, 0]" and u = "''u1''" and c = "''c1''" and db = scheduleExampleDb
         and newId = exampleId]
  note inst_utc = scheduleCelebrationReminders_spec
      [where tz = utcZone and stores = timestampColumn and t = 1584230400000 and u = "''u1''"
         and c = "''c1''" and db = scheduleExampleDb and newId = exampleId
         and newIdLater = exampleId]
  from inst t offs user celebration have accepted: "fst ?r = None"
    by blast
  from inst t offs user celebration
  have "length (remindersOfCelebration ''c1'' (snd ?r)) = length [7::int, 0]"
    by blast
  then have n_rows: "length (remindersOfCelebration ''c1'' (snd ?r)) = 2"
    by simp
  from inst t offs user celebration
  have "map (\<lambda>r. LocalTime amsterdam2020 (reminder_scheduledFor r))
          (remindersOfCelebration ''c1'' (snd ?r)) =
        map (\<lambda>n. (Day (LocalTime amsterdam2020 1585699200000) - n) * 86400000 + 32400000) [7, 0]"
    by blast
  moreover have "map (\<lambda>n. (Day (LocalTime amsterdam2020 1585699200000) - n) * 86400000 + 32400000)
                   [7, 0] = [1585126800000, 1585731600000]"
    by code_simp
  ultimately have readings:
    "map (\<lambda>r. LocalTime amsterdam2020 (reminder_scheduledFor r))
       (remindersOfCelebration ''c1'' (snd ?r)) = [1585126800000, 1585731600000]"
    by simp
  from inst_utc t_utc first later user celebration
  have "UTC utcZone ((Day (LocalTime utcZone 1584230400000) - 7) * 86400000 + 32400000) \<notin>
          set (map reminder_scheduledFor (remindersOfCelebration ''c1'' ?again))"
    by blast
  moreover have "UTC utcZone ((Day (LocalTime utcZone 1584230400000) - 7) * 86400000 + 32400000) =
                   1583658000000"
    by code_simp
  ultimately have gone: "1583658000000 \<notin>
      set (map reminder_scheduledFor (remindersOfCelebration ''c1'' ?again))"
    by simp
  from t offs user celebration accepted n_rows readings t_utc first later gone show ?thesis
    by (intro conjI)
qed

section \<open>Properties of the next occurrence\<close>



text \<open>
  Where the statement below stops. A reading of the anchor that falls, in the year of
  \<open>fromDate\<close>, in the hour the clocks skip does not read back: 02:30 on 29 March in
  Amsterdam (the anchor 2019-03-29T01:30Z) gives from 2020-01-01 the instant
  2020-03-29T01:30Z, which reads 03:30. An anchor on 29 February gives 1 March in a year
  that is not a leap year.
\<close>

lemma getNextOccurrence_limits:
  "getNextOccurrence amsterdam2020 (Some 1553823000000) (Some 1577836800000) = Some 1585445400000"
  "TimeWithinDay (LocalTime amsterdam2020 1553823000000) = 9000000"
  "TimeWithinDay (LocalTime amsterdam2020 1585445400000) = 12600000"
  "\<not> readsBack amsterdam2020 (withYear 2020 (LocalTime amsterdam2020 1553823000000))"
  "getNextOccurrence utcZone (Some 1582934400000) (Some 1672531200000) = Some 1677628800000"
  "leapDay (LocalTime utcZone 1582934400000)"
  "MonthFromTime 1677628800000 = 2"
  "DateFromTime 1677628800000 = 1"
  by code_simp+




section \<open>Properties of the deduplication engine\<close>

subsection \<open>Pair keys, loops and maps\<close>

lemma pairKey_eq: "pairKey a b = (if a \<le> b then a @ ''-'' @ b else b @ ''-'' @ a)"
  by (simp add: pairKey_def)

lemma pairKey_commute: "pairKey a b = pairKey b a"
  by (auto simp: pairKey_eq)

lemma dash_split_inj:
  "CHR ''-'' \<notin> set x \<Longrightarrow> CHR ''-'' \<notin> set x' \<Longrightarrow> x @ ''-'' @ y = x' @ ''-'' @ y'
   \<Longrightarrow> x = x' \<and> y = y'"
proof (induction x arbitrary: x')
  case Nil
  then show ?case by (cases x') auto
next
  case (Cons c cs)
  then show ?case by (cases x') auto
qed

lemma pairKey_shape:
  obtains x y where "pairKey a b = x @ ''-'' @ y" "{x, y} = {a, b}"
proof (cases "a \<le> b")
  case True
  then have "pairKey a b = a @ ''-'' @ b" by (simp add: pairKey_eq)
  then show ?thesis using that by blast
next
  case False
  then have "pairKey a b = b @ ''-'' @ a" by (simp add: pairKey_eq)
  moreover have "{b, a} = {a, b}" by (rule insert_commute)
  ultimately show ?thesis using that by blast
qed

lemma pairKey_inj:
  assumes "CHR ''-'' \<notin> set a" "CHR ''-'' \<notin> set b" "CHR ''-'' \<notin> set c" "CHR ''-'' \<notin> set d"
    and eq: "pairKey a b = pairKey c d"
  shows "{a, b} = {c, d}"
proof -
  obtain x y where xy: "pairKey a b = x @ ''-'' @ y" "{x, y} = {a, b}"
    by (rule pairKey_shape)
  obtain x' y' where xy': "pairKey c d = x' @ ''-'' @ y'" "{x', y'} = {c, d}"
    by (rule pairKey_shape)
  have "x \<in> {a, b}" "x' \<in> {c, d}" using xy(2) xy'(2) by blast+
  then have "CHR ''-'' \<notin> set x" "CHR ''-'' \<notin> set x'" using assms(1-4) by blast+
  moreover have "x @ ''-'' @ y = x' @ ''-'' @ y'" using eq xy(1) xy'(1) by simp
  ultimately have "x = x' \<and> y = y'" by (rule dash_split_inj)
  then show ?thesis using xy(2) xy'(2) by simp
qed

lemma pairKey_of_pair:
  "{a, b} = {c, d} \<Longrightarrow> pairKey a b = pairKey c d"
  by (auto simp: doubleton_eq_iff pairKey_commute)

lemma considerPair_seen:
  "pairKey (person_id (pwi_person pi)) (person_id (pwi_person pj)) \<in> seenPairs (considerPair mt v pi pj st)"
  by (simp add: considerPair_def Let_def)

lemma stepOk_refl: "stepOk mt P st st"
  by (simp add: stepOk_def)

lemma stepOk_trans:
  assumes "stepOk mt P st st'" "stepOk mt P st' st''"
  shows "stepOk mt P st st''"
proof -
  from assms(1) obtain n1 where n1: "suggestions st' = suggestions st @ n1"
    "\<forall>s \<in> set n1. matchType s = mt \<and> suggestionKey s \<notin> seenPairs st \<and> person1 s \<in> P \<and> person2 s \<in> P"
    and sub1: "seenPairs st \<subseteq> seenPairs st'" and inv1: "dedupInv st \<longrightarrow> dedupInv st'"
    unfolding stepOk_def by blast
  from assms(2) obtain n2 where n2: "suggestions st'' = suggestions st' @ n2"
    "\<forall>s \<in> set n2. matchType s = mt \<and> suggestionKey s \<notin> seenPairs st' \<and> person1 s \<in> P \<and> person2 s \<in> P"
    and sub2: "seenPairs st' \<subseteq> seenPairs st''" and inv2: "dedupInv st' \<longrightarrow> dedupInv st''"
    unfolding stepOk_def by blast
  have "suggestions st'' = suggestions st @ (n1 @ n2)"
    using n1(1) n2(1) by simp
  moreover have "\<forall>s \<in> set (n1 @ n2). matchType s = mt \<and> suggestionKey s \<notin> seenPairs st \<and> person1 s \<in> P \<and> person2 s \<in> P"
    using n1(2) n2(2) sub1 by auto
  ultimately show ?thesis
    unfolding stepOk_def using sub1 sub2 inv1 inv2 by blast
qed

lemma considerPair_stepOk:
  assumes "pi \<in> P" "pj \<in> P"
  shows "stepOk mt P st (considerPair mt v pi pj st)"
proof (cases "pairKey (person_id (pwi_person pi)) (person_id (pwi_person pj)) \<in> seenPairs st")
  case True
  then show ?thesis by (simp add: considerPair_def stepOk_refl)
next
  case False
  let ?s = "\<lparr>person1 = pi, person2 = pj, matchType = mt, matchValue = v\<rparr>"
  have key: "suggestionKey ?s = pairKey (person_id (pwi_person pi)) (person_id (pwi_person pj))"
    by (simp add: suggestionKey_def)
  have st': "considerPair mt v pi pj st =
      st\<lparr>seenPairs := insert (suggestionKey ?s) (seenPairs st), suggestions := suggestions st @ [?s]\<rparr>"
    using False by (simp add: considerPair_def key)
  have "dedupInv st \<longrightarrow> dedupInv (considerPair mt v pi pj st)"
    unfolding st' dedupInv_def using False key by auto
  then show ?thesis
    unfolding stepOk_def st' using False key assms by auto
qed

lemma fold_stepOk:
  assumes "\<And>x st. x \<in> set xs \<Longrightarrow> stepOk mt P st (f x st)"
  shows "stepOk mt P st (fold f xs st)"
  using assms
proof (induction xs arbitrary: st)
  case Nil
  then show ?case by (simp add: stepOk_refl)
next
  case (Cons x xs)
  have "stepOk mt P st (f x st)" using Cons.prems by simp
  moreover have "stepOk mt P (f x st) (fold f xs (f x st))"
    using Cons.IH Cons.prems by simp
  ultimately show ?case using stepOk_trans by fastforce
qed

lemma pairLoop_stepOk:
  "set xs \<subseteq> P \<Longrightarrow> stepOk mt P st (pairLoop mt v xs st)"
proof (induction xs arbitrary: st)
  case Nil
  then show ?case by (simp add: stepOk_refl)
next
  case (Cons x xs)
  have "stepOk mt P st (fold (considerPair mt v x) xs st)"
    using Cons.prems by (intro fold_stepOk considerPair_stepOk) auto
  moreover have "stepOk mt P (fold (considerPair mt v x) xs st) (pairLoop mt v xs (fold (considerPair mt v x) xs st))"
    using Cons by simp
  ultimately show ?case using stepOk_trans by fastforce
qed

lemma findDuplicatesBy_stepOk:
  assumes "\<And>k xs. (k, xs) \<in> set m \<Longrightarrow> set xs \<subseteq> P"
  shows "stepOk mt P st (findDuplicatesBy mt m st)"
  unfolding findDuplicatesBy_def
proof (rule fold_stepOk)
  fix x st assume "x \<in> set m"
  then have "set (snd x) \<subseteq> P" using assms[of "fst x" "snd x"] by simp
  then show "stepOk mt P st (if 2 \<le> length (snd x) then pairLoop mt (fst x) (snd x) st else st)"
    by (simp add: pairLoop_stepOk stepOk_refl)
qed

lemma stepOk_seen_mono: "stepOk mt P st st' \<Longrightarrow> k \<in> seenPairs st \<Longrightarrow> k \<in> seenPairs st'"
  by (auto simp: stepOk_def)

lemma fold_considerPair_seen:
  assumes "pj \<in> set rest"
  shows "pairKey (person_id (pwi_person pi)) (person_id (pwi_person pj))
           \<in> seenPairs (fold (considerPair mt v pi) rest st)"
  using assms
proof (induction rest arbitrary: st)
  case Nil
  then show ?case by simp
next
  case (Cons x rest)
  show ?case
  proof (cases "pj = x")
    case True
    have "stepOk mt UNIV (considerPair mt v pi x st) (fold (considerPair mt v pi) rest (considerPair mt v pi x st))"
      by (intro fold_stepOk considerPair_stepOk) auto
    then show ?thesis
      using True considerPair_seen[of pi x mt v st] by (auto dest: stepOk_seen_mono)
  next
    case False
    then show ?thesis using Cons by simp
  qed
qed

lemma pairLoop_seen:
  assumes "xs = us @ a # vs @ b # ws"
  shows "pairKey (person_id (pwi_person a)) (person_id (pwi_person b))
           \<in> seenPairs (pairLoop mt v xs st)"
  using assms
proof (induction us arbitrary: xs st)
  case Nil
  have "pairKey (person_id (pwi_person a)) (person_id (pwi_person b))
           \<in> seenPairs (fold (considerPair mt v a) (vs @ b # ws) st)"
    by (rule fold_considerPair_seen) simp
  moreover have "stepOk mt UNIV (fold (considerPair mt v a) (vs @ b # ws) st)
      (pairLoop mt v (vs @ b # ws) (fold (considerPair mt v a) (vs @ b # ws) st))"
    by (rule pairLoop_stepOk) simp
  ultimately show ?case using Nil by (auto dest: stepOk_seen_mono)
next
  case (Cons u us)
  then show ?case by simp
qed

lemma findDuplicatesBy_seen:
  assumes "(k, xs) \<in> set m" "xs = us @ a # vs @ b # ws"
  shows "pairKey (person_id (pwi_person a)) (person_id (pwi_person b))
           \<in> seenPairs (findDuplicatesBy mt m st)"
  using assms(1)
proof (induction m arbitrary: st)
  case Nil
  then show ?case by simp
next
  case (Cons e m)
  let ?step = "\<lambda>entry st. if 2 \<le> length (snd entry) then pairLoop mt (fst entry) (snd entry) st else st"
  show ?case
  proof (cases "e = (k, xs)")
    case True
    have len: "2 \<le> length xs" using assms(2) by simp
    have "pairKey (person_id (pwi_person a)) (person_id (pwi_person b)) \<in> seenPairs (?step e st)"
      using True len pairLoop_seen[OF assms(2)] by simp
    moreover have "stepOk mt UNIV (?step e st) (findDuplicatesBy mt m (?step e st))"
      by (rule findDuplicatesBy_stepOk) simp
    ultimately show ?thesis
      by (auto simp: findDuplicatesBy_def dest: stepOk_seen_mono)
  next
    case False
    then have "(k, xs) \<in> set m" using Cons.prems by simp
    from Cons.IH[OF this] show ?thesis by (simp add: findDuplicatesBy_def)
  qed
qed


lemma map_of_mapSet: "map_of (mapSet m k v) = (map_of m)(k \<mapsto> v)"
  by (induction m k v rule: mapSet.induct) auto

lemma set_mapSet: "set (mapSet m k v) \<subseteq> insert (k, v) (set m)"
  by (induction m k v rule: mapSet.induct) auto

lemma valuesAt_pushTo:
  "valuesAt (pushTo m k p) k' = valuesAt m k' @ (if k' = k then [p] else [])"
  by (simp add: valuesAt_def pushTo_def mapGet_def map_of_mapSet Let_def)

lemma valuesAt_entry: "valuesAt m k \<noteq> [] \<Longrightarrow> (k, valuesAt m k) \<in> set m"
  by (auto simp: valuesAt_def mapGet_def split: option.splits dest: map_of_SomeD)

lemma pushTo_within:
  assumes "\<forall>e \<in> set m. set (snd e) \<subseteq> P" "p \<in> P"
  shows "\<forall>e \<in> set (pushTo m k p). set (snd e) \<subseteq> P"
proof
  fix e assume e: "e \<in> set (pushTo m k p)"
  define existing where "existing = (case mapGet m k of None \<Rightarrow> [] | Some l \<Rightarrow> l)"
  have ex: "set existing \<subseteq> P"
  proof (cases "mapGet m k")
    case None
    then show ?thesis by (simp add: existing_def)
  next
    case (Some l)
    then have "(k, l) \<in> set m" by (simp add: mapGet_def map_of_SomeD)
    then have "set l \<subseteq> P" using assms(1) by fastforce
    then show ?thesis using Some by (simp add: existing_def)
  qed
  have "pushTo m k p = mapSet m k (existing @ [p])"
    by (simp add: pushTo_def existing_def)
  with e have "e = (k, existing @ [p]) \<or> e \<in> set m"
    using set_mapSet[of m k "existing @ [p]"] by auto
  then show "set (snd e) \<subseteq> P"
  proof
    assume "e = (k, existing @ [p])"
    then show ?thesis using ex assms(2) by simp
  next
    assume "e \<in> set m"
    then show ?thesis using assms(1) by simp
  qed
qed

lemma addIdentity_phone:
  "valuesAt (fst (addIdentity person i maps)) phone =
     valuesAt (fst maps) phone @ (if phoneMatches phone i then [person] else [])"
  by (cases "identity_normalizedPhone i")
     (auto simp: addIdentity_def Let_def phoneMatches_def valuesAt_pushTo)

lemma addIdentity_email:
  "valuesAt (snd (addIdentity person i maps)) email =
     valuesAt (snd maps) email @ (if emailMatches email i then [person] else [])"
  by (cases "identity_normalizedEmail i")
     (auto simp: addIdentity_def Let_def emailMatches_def valuesAt_pushTo)

lemma addIdentity_within:
  assumes "\<forall>e \<in> set (fst maps) \<union> set (snd maps). set (snd e) \<subseteq> P" "person \<in> P"
  shows "\<forall>e \<in> set (fst (addIdentity person i maps)) \<union> set (snd (addIdentity person i maps)).
           set (snd e) \<subseteq> P"
proof -
  have f: "\<forall>e \<in> set (fst maps). set (snd e) \<subseteq> P" and s: "\<forall>e \<in> set (snd maps). set (snd e) \<subseteq> P"
    using assms(1) by auto
  have "\<forall>e \<in> set (fst (addIdentity person i maps)). set (snd e) \<subseteq> P"
    using f pushTo_within[OF f assms(2)]
    by (cases "identity_normalizedPhone i") (simp_all add: addIdentity_def Let_def)
  moreover have "\<forall>e \<in> set (snd (addIdentity person i maps)). set (snd e) \<subseteq> P"
    using s pushTo_within[OF s assms(2)]
    by (cases "identity_normalizedEmail i") (simp_all add: addIdentity_def Let_def)
  ultimately show ?thesis by auto
qed

lemma fold_addIdentity_phone:
  "valuesAt (fst (fold (addIdentity person) ids maps)) phone =
     valuesAt (fst maps) phone @ map (\<lambda>_. person) (filter (phoneMatches phone) ids)"
  by (induction ids arbitrary: maps) (simp_all add: addIdentity_phone)

lemma fold_addIdentity_email:
  "valuesAt (snd (fold (addIdentity person) ids maps)) email =
     valuesAt (snd maps) email @ map (\<lambda>_. person) (filter (emailMatches email) ids)"
  by (induction ids arbitrary: maps) (simp_all add: addIdentity_email)

lemma fold_addIdentity_within:
  assumes "\<forall>e \<in> set (fst maps) \<union> set (snd maps). set (snd e) \<subseteq> P" "person \<in> P"
  shows "\<forall>e \<in> set (fst (fold (addIdentity person) ids maps)) \<union>
               set (snd (fold (addIdentity person) ids maps)). set (snd e) \<subseteq> P"
  using assms(1)
proof (induction ids arbitrary: maps)
  case Nil
  then show ?case by simp
next
  case (Cons i ids)
  have "\<forall>e \<in> set (fst (addIdentity person i maps)) \<union> set (snd (addIdentity person i maps)).
           set (snd e) \<subseteq> P"
    by (rule addIdentity_within[OF Cons.prems assms(2)])
  from Cons.IH[OF this] show ?case by simp
qed

lemma people_fold_phone:
  "valuesAt (fst (fold (\<lambda>person maps. fold (addIdentity person) (pwi_identities person) maps) ps maps)) phone =
     valuesAt (fst maps) phone @ occurrences (phoneMatches phone) ps"
  by (induction ps arbitrary: maps) (simp_all add: occurrences_def fold_addIdentity_phone)

lemma people_fold_email:
  "valuesAt (snd (fold (\<lambda>person maps. fold (addIdentity person) (pwi_identities person) maps) ps maps)) email =
     valuesAt (snd maps) email @ occurrences (emailMatches email) ps"
  by (induction ps arbitrary: maps) (simp_all add: occurrences_def fold_addIdentity_email)

lemma people_fold_within:
  assumes "set ps \<subseteq> P"
  shows "(\<forall>e \<in> set (fst maps) \<union> set (snd maps). set (snd e) \<subseteq> P) \<Longrightarrow>
         \<forall>e \<in> set (fst (fold (\<lambda>person maps. fold (addIdentity person) (pwi_identities person) maps) ps maps)) \<union>
              set (snd (fold (\<lambda>person maps. fold (addIdentity person) (pwi_identities person) maps) ps maps)).
           set (snd e) \<subseteq> P"
  using assms
proof (induction ps arbitrary: maps)
  case Nil
  then show ?case by simp
next
  case (Cons p ps)
  have "p \<in> P" using Cons.prems(2) by simp
  from fold_addIdentity_within[OF Cons.prems(1) this]
  have "\<forall>e \<in> set (fst (fold (addIdentity p) (pwi_identities p) maps)) \<union>
               set (snd (fold (addIdentity p) (pwi_identities p) maps)). set (snd e) \<subseteq> P" .
  from Cons.IH[OF this] Cons.prems(2) show ?case by simp
qed

lemma valuesAt_empty: "valuesAt [] k = []"
  by (simp add: valuesAt_def mapGet_def)

lemma buildMaps_phone: "valuesAt (fst (buildMaps ps)) phone = occurrences (phoneMatches phone) ps"
  unfolding buildMaps_def people_fold_phone by (simp add: valuesAt_empty)

lemma buildMaps_email: "valuesAt (snd (buildMaps ps)) email = occurrences (emailMatches email) ps"
  unfolding buildMaps_def people_fold_email by (simp add: valuesAt_empty)

lemma buildMaps_within:
  "\<forall>e \<in> set (fst (buildMaps ps)) \<union> set (snd (buildMaps ps)). set (snd e) \<subseteq> set ps"
  unfolding buildMaps_def by (rule people_fold_within) simp_all

lemma two_elems_split:
  assumes "x \<in> set xs" "y \<in> set xs" "x \<noteq> y"
  shows "(\<exists>us vs ws. xs = us @ x # vs @ y # ws) \<or> (\<exists>us vs ws. xs = us @ y # vs @ x # ws)"
proof -
  from assms(1) obtain as bs where xs: "xs = as @ x # bs" by (meson split_list)
  with assms(2,3) have "y \<in> set as \<or> y \<in> set bs" by auto
  then show ?thesis
  proof
    assume "y \<in> set as"
    then obtain cs ds where "as = cs @ y # ds" by (meson split_list)
    then have "xs = cs @ y # ds @ x # bs" using xs by simp
    then show ?thesis by blast
  next
    assume "y \<in> set bs"
    then obtain cs ds where "bs = cs @ y # ds" by (meson split_list)
    then have "xs = as @ x # cs @ y # ds" using xs by simp
    then show ?thesis by blast
  qed
qed

lemma occurrences_mem:
  assumes "p \<in> set ps" "i \<in> set (pwi_identities p)" "Q i"
  shows "p \<in> set (occurrences Q ps)"
  using assms by (auto simp: occurrences_def)

lemma occurrences_twice:
  assumes "p \<in> set ps" "i1 \<in> set (pwi_identities p)" "i2 \<in> set (pwi_identities p)"
    "i1 \<noteq> i2" "Q i1" "Q i2"
  shows "\<exists>us vs ws. occurrences Q ps = us @ p # vs @ p # ws"
proof -
  have "i1 \<in> set (filter Q (pwi_identities p))" "i2 \<in> set (filter Q (pwi_identities p))"
    using assms by simp_all
  from two_elems_split[OF this assms(4)]
  obtain as bs cs where "filter Q (pwi_identities p) = as @ i1 # bs @ i2 # cs \<or>
      filter Q (pwi_identities p) = as @ i2 # bs @ i1 # cs" by blast
  then have own: "map (\<lambda>_. p) (filter Q (pwi_identities p)) =
      map (\<lambda>_. p) as @ p # map (\<lambda>_. p) bs @ p # map (\<lambda>_. p) cs"
    by auto
  from assms(1) obtain ps1 ps2 where "ps = ps1 @ p # ps2" by (meson split_list)
  then have "occurrences Q ps =
      (occurrences Q ps1 @ map (\<lambda>_. p) as) @ p # map (\<lambda>_. p) bs @ p # (map (\<lambda>_. p) cs @ occurrences Q ps2)"
    using own by (simp add: occurrences_def)
  then show ?thesis by blast
qed

lemma distinct_map_coarser:
  assumes "distinct (map f xs)" "\<And>x y. g x = g y \<Longrightarrow> f x = f y"
  shows "distinct (map g xs)"
  using assms(1)
proof (induction xs)
  case Nil
  then show ?case by simp
next
  case (Cons x xs)
  have "g x \<notin> g ` set xs"
  proof
    assume "g x \<in> g ` set xs"
    then obtain y where y: "y \<in> set xs" "g x = g y" by auto
    from y(2) have "f x = f y" by (rule assms(2))
    with y(1) have "f x \<in> f ` set xs" by simp
    then show False using Cons.prems by simp
  qed
  then show ?case using Cons by simp
qed

lemma distinct_filter_single:
  assumes "distinct (map f xs)" "x \<in> set xs"
  shows "filter (\<lambda>y. f y = f x) xs = [x]"
  using assms
proof (induction xs)
  case Nil
  then show ?case by simp
next
  case (Cons a xs)
  show ?case
  proof (cases "a = x")
    case True
    have "f x \<notin> f ` set xs" using Cons.prems(1) True by simp
    then have "\<forall>y \<in> set xs. f y \<noteq> f x" by (metis imageI)
    then have "filter (\<lambda>y. f y = f x) xs = []"
      by (simp add: filter_empty_conv)
    then show ?thesis using True by simp
  next
    case False
    then have mem: "x \<in> set xs" using Cons.prems by simp
    have "f a \<notin> f ` set xs" using Cons.prems(1) by simp
    with mem have "f a \<noteq> f x" by (metis imageI)
    then show ?thesis using Cons mem by simp
  qed
qed

subsection \<open>The two phases of the search\<close>

lemma buildMaps_within_fst:
  assumes "(k, xs) \<in> set (fst (buildMaps ps))"
  shows "set xs \<subseteq> set ps"
proof -
  have "(k, xs) \<in> set (fst (buildMaps ps)) \<union> set (snd (buildMaps ps))"
    using assms by simp
  with buildMaps_within[of ps] have "set (snd (k, xs)) \<subseteq> set ps" by (rule bspec)
  then show ?thesis by simp
qed

lemma buildMaps_within_snd:
  assumes "(k, xs) \<in> set (snd (buildMaps ps))"
  shows "set xs \<subseteq> set ps"
proof -
  have "(k, xs) \<in> set (fst (buildMaps ps)) \<union> set (snd (buildMaps ps))"
    using assms by simp
  with buildMaps_within[of ps] have "set (snd (k, xs)) \<subseteq> set ps" by (rule bspec)
  then show ?thesis by simp
qed

lemma getSuggestedDuplicates_final: "getSuggestedDuplicates db u = suggestions (finalState db u)"
  by (simp add: getSuggestedDuplicates_def finalState_def phonePhase_def Let_def)

lemma dedupInv_init: "dedupInv \<lparr>seenPairs = {}, suggestions = []\<rparr>"
  by (simp add: dedupInv_def)

lemma phonePhase_stepOk:
  "stepOk MatchPhone (set (findManyPeople db u)) \<lparr>seenPairs = {}, suggestions = []\<rparr> (phonePhase db u)"
  unfolding phonePhase_def
proof (rule findDuplicatesBy_stepOk)
  fix k xs assume "(k, xs) \<in> set (fst (buildMaps (findManyPeople db u)))"
  then show "set xs \<subseteq> set (findManyPeople db u)"
    by (rule buildMaps_within_fst)
qed

lemma finalState_stepOk:
  "stepOk MatchEmail (set (findManyPeople db u)) (phonePhase db u) (finalState db u)"
  unfolding finalState_def
proof (rule findDuplicatesBy_stepOk)
  fix k xs assume "(k, xs) \<in> set (snd (buildMaps (findManyPeople db u)))"
  then show "set xs \<subseteq> set (findManyPeople db u)"
    by (rule buildMaps_within_snd)
qed

lemma phonePhase_inv: "dedupInv (phonePhase db u)"
  using phonePhase_stepOk[of db u] dedupInv_init by (simp add: stepOk_def)

lemma finalState_inv: "dedupInv (finalState db u)"
  using finalState_stepOk[of db u] phonePhase_inv[of db u] by (simp add: stepOk_def)

lemma phonePhase_suggestions:
  assumes "s \<in> set (suggestions (phonePhase db u))"
  shows "matchType s = MatchPhone \<and> person1 s \<in> set (findManyPeople db u) \<and>
         person2 s \<in> set (findManyPeople db u)"
  using phonePhase_stepOk[of db u] assms by (auto simp: stepOk_def)

lemma finalState_suggestions:
  assumes "s \<in> set (suggestions (finalState db u))"
  shows "(s \<in> set (suggestions (phonePhase db u)) \<and> matchType s = MatchPhone \<or>
          suggestionKey s \<notin> seenPairs (phonePhase db u) \<and> matchType s = MatchEmail) \<and>
         person1 s \<in> set (findManyPeople db u) \<and> person2 s \<in> set (findManyPeople db u)"
proof -
  from finalState_stepOk[of db u] obtain new where
    new: "suggestions (finalState db u) = suggestions (phonePhase db u) @ new"
      "\<forall>s \<in> set new. matchType s = MatchEmail \<and> suggestionKey s \<notin> seenPairs (phonePhase db u) \<and>
         person1 s \<in> set (findManyPeople db u) \<and> person2 s \<in> set (findManyPeople db u)"
    unfolding stepOk_def by blast
  from assms new(1) have "s \<in> set (suggestions (phonePhase db u)) \<or> s \<in> set new" by simp
  then show ?thesis
  proof
    assume "s \<in> set (suggestions (phonePhase db u))"
    then show ?thesis using phonePhase_suggestions by blast
  next
    assume "s \<in> set new"
    then show ?thesis using new(2) by blast
  qed
qed

lemma phonePhase_subset: "set (suggestions (phonePhase db u)) \<subseteq> set (suggestions (finalState db u))"
  using finalState_stepOk[of db u] by (auto simp: stepOk_def)

lemma seen_has_suggestion:
  assumes "dedupInv st" "k \<in> seenPairs st"
  shows "\<exists>s \<in> set (suggestions st). suggestionKey s = k"
  using assms by (auto simp: dedupInv_def)

lemma findManyPeople_mem:
  assumes "p \<in> set (people db)" "person_userId p = u"
  shows "includeIdentities db p \<in> set (findManyPeople db u)"
  using assms by (simp add: findManyPeople_def)

lemma findManyPeople_person:
  assumes "x \<in> set (findManyPeople db u)"
  shows "pwi_person x \<in> set (people db) \<and> person_userId (pwi_person x) = u"
  using assms by (auto simp: findManyPeople_def includeIdentities_def)

lemma includeIdentities_mem:
  assumes "i \<in> set (identities db)" "identity_personId i = person_id p"
  shows "i \<in> set (pwi_identities (includeIdentities db p))"
  using assms by (simp add: includeIdentities_def)

lemma suggestionPair_key:
  "suggestionPair s = suggestionPair t \<Longrightarrow> suggestionKey s = suggestionKey t"
  unfolding suggestionPair_def suggestionKey_def by (rule pairKey_of_pair)

lemma suggestions_distinct_pairs:
  "distinct (map suggestionPair (getSuggestedDuplicates db u))"
proof -
  have "distinct (map suggestionKey (suggestions (finalState db u)))"
    using finalState_inv[of db u] by (simp add: dedupInv_def)
  then show ?thesis
    unfolding getSuggestedDuplicates_final
    by (rule distinct_map_coarser) (rule suggestionPair_key)
qed

text \<open>Two people sharing a phone number: their key is seen after the phone loop.\<close>

lemma shared_phone_seen:
  assumes A: "A \<in> set (people db)" "person_userId A = u"
    and B: "B \<in> set (people db)" "person_userId B = u"
    and ne: "person_id A \<noteq> person_id B"
    and iA: "iA \<in> set (identities db)" "identity_personId iA = person_id A"
    and iB: "iB \<in> set (identities db)" "identity_personId iB = person_id B"
    and ph: "phone \<noteq> []" "identity_normalizedPhone iA = Some phone"
            "identity_normalizedPhone iB = Some phone"
  shows "pairKey (person_id A) (person_id B) \<in> seenPairs (phonePhase db u)"
proof -
  let ?ps = "findManyPeople db u"
  let ?a = "includeIdentities db A" and ?b = "includeIdentities db B"
  let ?xs = "occurrences (phoneMatches phone) ?ps"
  have "?a \<in> set ?xs"
    using findManyPeople_mem[OF A] includeIdentities_mem[OF iA] ph
    by (intro occurrences_mem[where i = iA]) (simp_all add: phoneMatches_def)
  moreover have "?b \<in> set ?xs"
    using findManyPeople_mem[OF B] includeIdentities_mem[OF iB] ph
    by (intro occurrences_mem[where i = iB]) (simp_all add: phoneMatches_def)
  moreover have "?a \<noteq> ?b" using ne by (auto simp: includeIdentities_def)
  ultimately have split: "(\<exists>us vs ws. ?xs = us @ ?a # vs @ ?b # ws) \<or>
      (\<exists>us vs ws. ?xs = us @ ?b # vs @ ?a # ws)"
    by (rule two_elems_split)
  have "?xs \<noteq> []" using \<open>?a \<in> set ?xs\<close> by auto
  then have entry: "(phone, ?xs) \<in> set (fst (buildMaps ?ps))"
    using valuesAt_entry[of "fst (buildMaps ?ps)" phone] by (simp add: buildMaps_phone)
  have ida: "person_id (pwi_person ?a) = person_id A" and idb: "person_id (pwi_person ?b) = person_id B"
    by (simp_all add: includeIdentities_def)
  from split show ?thesis
  proof
    assume "\<exists>us vs ws. ?xs = us @ ?a # vs @ ?b # ws"
    then obtain us vs ws where "?xs = us @ ?a # vs @ ?b # ws" by blast
    from findDuplicatesBy_seen[OF entry this] show ?thesis
      by (simp add: phonePhase_def ida idb)
  next
    assume "\<exists>us vs ws. ?xs = us @ ?b # vs @ ?a # ws"
    then obtain us vs ws where "?xs = us @ ?b # vs @ ?a # ws" by blast
    from findDuplicatesBy_seen[OF entry this] show ?thesis
      by (simp add: phonePhase_def ida idb pairKey_commute[of "person_id A"])
  qed
qed


lemma pairKeysFaithfulD:
  assumes "pairKeysFaithful ids" "a \<in> ids" "b \<in> ids" "c \<in> ids" "d \<in> ids"
    "pairKey a b = pairKey c d"
  shows "{a, b} = {c, d}"
  using assms unfolding pairKeysFaithful_def by blast

lemma hyphen_free_faithful:
  assumes "\<And>x. x \<in> ids \<Longrightarrow> CHR ''-'' \<notin> set x"
  shows "pairKeysFaithful ids"
  unfolding pairKeysFaithful_def
proof (intro ballI impI)
  fix a b c d
  assume "a \<in> ids" "b \<in> ids" "c \<in> ids" "d \<in> ids" and eq: "pairKey a b = pairKey c d"
  then have "CHR ''-'' \<notin> set a" "CHR ''-'' \<notin> set b" "CHR ''-'' \<notin> set c" "CHR ''-'' \<notin> set d"
    using assms by blast+
  then show "{a, b} = {c, d}" using eq by (rule pairKey_inj)
qed

lemma same_length_faithful:
  assumes "\<And>x. x \<in> ids \<Longrightarrow> length x = n"
  shows "pairKeysFaithful ids"
  unfolding pairKeysFaithful_def
proof (intro ballI impI)
  fix a b c d
  assume mem: "a \<in> ids" "b \<in> ids" "c \<in> ids" "d \<in> ids" and eq: "pairKey a b = pairKey c d"
  obtain x y where xy: "pairKey a b = x @ ''-'' @ y" "{x, y} = {a, b}"
    by (rule pairKey_shape)
  obtain x' y' where xy': "pairKey c d = x' @ ''-'' @ y'" "{x', y'} = {c, d}"
    by (rule pairKey_shape)
  have "x \<in> {a, b}" "x' \<in> {c, d}" using xy(2) xy'(2) by blast+
  then have "x \<in> ids" "x' \<in> ids" using mem by blast+
  then have "length x = length x'" using assms by simp
  moreover have "x @ ''-'' @ y = x' @ ''-'' @ y'" using eq xy(1) xy'(1) by simp
  ultimately have "x = x' \<and> y = y'" by simp
  then show "{a, b} = {c, d}" using xy(2) xy'(2) by simp
qed

lemma userPersonIds_mem:
  assumes "p \<in> set (people db)" "person_userId p = u"
  shows "person_id p \<in> userPersonIds db u"
  using assms by (auto simp: userPersonIds_def)

lemma suggestion_ids_known:
  assumes s: "s \<in> set (suggestions (finalState db u))"
  shows "person_id (pwi_person (person1 s)) \<in> userPersonIds db u \<and>
         person_id (pwi_person (person2 s)) \<in> userPersonIds db u"
proof -
  from finalState_suggestions[OF s]
  have "person1 s \<in> set (findManyPeople db u)" "person2 s \<in> set (findManyPeople db u)"
    by simp_all
  then have "pwi_person (person1 s) \<in> set (people db) \<and> person_userId (pwi_person (person1 s)) = u"
    "pwi_person (person2 s) \<in> set (people db) \<and> person_userId (pwi_person (person2 s)) = u"
    by (simp_all add: findManyPeople_person)
  then show ?thesis by (simp add: userPersonIds_mem)
qed

subsection \<open>Suggestions\<close>

text \<open>
  Claim C2, as amended. \<open>seenPairs\<close> is one set for both loops and its keys do not
  contain the match type, so no unordered pair of person ids is returned twice, whatever
  the match types. Two distinct people of the user who share a normalized phone number
  are returned exactly once, with match type \<open>phone\<close>, also when they share a normalized
  email address as well: the email loop finds their key already seen. (The second part
  is for ids whose pair keys tell the pairs apart.)
\<close>

theorem getSuggestedDuplicates_pair_once:
  "distinct (map suggestionPair (getSuggestedDuplicates db u)) \<and>
   (pairKeysFaithful (userPersonIds db u) \<and>
    A \<in> set (people db) \<and> person_userId A = u \<and>
    B \<in> set (people db) \<and> person_userId B = u \<and>
    person_id A \<noteq> person_id B \<and>
    iA \<in> set (identities db) \<and> identity_personId iA = person_id A \<and>
    iB \<in> set (identities db) \<and> identity_personId iB = person_id B \<and>
    phone \<noteq> [] \<and> identity_normalizedPhone iA = Some phone \<and>
    identity_normalizedPhone iB = Some phone
    \<longrightarrow> (\<exists>s. filter (\<lambda>t. suggestionPair t = {person_id A, person_id B})
                (getSuggestedDuplicates db u) = [s] \<and> matchType s = MatchPhone))"
proof (intro conjI impI)
  show "distinct (map suggestionPair (getSuggestedDuplicates db u))"
    by (rule suggestions_distinct_pairs)
next
  assume H: "pairKeysFaithful (userPersonIds db u) \<and>
    A \<in> set (people db) \<and> person_userId A = u \<and>
    B \<in> set (people db) \<and> person_userId B = u \<and>
    person_id A \<noteq> person_id B \<and>
    iA \<in> set (identities db) \<and> identity_personId iA = person_id A \<and>
    iB \<in> set (identities db) \<and> identity_personId iB = person_id B \<and>
    phone \<noteq> [] \<and> identity_normalizedPhone iA = Some phone \<and>
    identity_normalizedPhone iB = Some phone"
  then have faithful: "pairKeysFaithful (userPersonIds db u)"
    and A: "A \<in> set (people db)" "person_userId A = u"
    and B: "B \<in> set (people db)" "person_userId B = u"
    and ne: "person_id A \<noteq> person_id B"
    and iA: "iA \<in> set (identities db)" "identity_personId iA = person_id A"
    and iB: "iB \<in> set (identities db)" "identity_personId iB = person_id B"
    and ph: "phone \<noteq> []" "identity_normalizedPhone iA = Some phone"
            "identity_normalizedPhone iB = Some phone"
    by simp_all
  have "pairKey (person_id A) (person_id B) \<in> seenPairs (phonePhase db u)"
    by (rule shared_phone_seen[OF A B ne iA iB ph])
  with phonePhase_inv[of db u] obtain s where
    s: "s \<in> set (suggestions (phonePhase db u))"
       "suggestionKey s = pairKey (person_id A) (person_id B)"
    using seen_has_suggestion by blast
  have mt: "matchType s = MatchPhone" using phonePhase_suggestions[OF s(1)] by simp
  have fin: "s \<in> set (suggestions (finalState db u))" using s(1) phonePhase_subset by blast
  have kA: "person_id A \<in> userPersonIds db u" and kB: "person_id B \<in> userPersonIds db u"
    using A B by (simp_all add: userPersonIds_mem)
  have ks: "person_id (pwi_person (person1 s)) \<in> userPersonIds db u"
     "person_id (pwi_person (person2 s)) \<in> userPersonIds db u"
    using suggestion_ids_known[OF fin] by simp_all
  have pair: "suggestionPair s = {person_id A, person_id B}"
    unfolding suggestionPair_def
    by (rule pairKeysFaithfulD[OF faithful ks kA kB]) (use s(2) in \<open>simp add: suggestionKey_def\<close>)
  have "filter (\<lambda>t. suggestionPair t = suggestionPair s) (getSuggestedDuplicates db u) = [s]"
    using suggestions_distinct_pairs[of db u] fin
    unfolding getSuggestedDuplicates_final by (rule distinct_filter_single)
  then show "\<exists>s. filter (\<lambda>t. suggestionPair t = {person_id A, person_id B})
                (getSuggestedDuplicates db u) = [s] \<and> matchType s = MatchPhone"
    using pair mt by auto
qed

text \<open>
  Claim C2 as stated fails: two distinct people of one user share both a normalized phone
  number and a normalized email address, and the pair is returned once, for the phone,
  and not a second time for the email.
\<close>

theorem getSuggestedDuplicates_both_counterexample:
  "map person_id (people sharedBothDb) = [''pa'', ''pb''] \<and>
   map person_userId (people sharedBothDb) = [''u1'', ''u1''] \<and>
   map identity_personId (identities sharedBothDb) = [''pa'', ''pb''] \<and>
   map identity_normalizedPhone (identities sharedBothDb) =
     [Some ''+15551234567'', Some ''+15551234567''] \<and>
   map identity_normalizedEmail (identities sharedBothDb) =
     [Some ''x@example.com'', Some ''x@example.com''] \<and>
   map matchType (getSuggestedDuplicates sharedBothDb ''u1'') = [MatchPhone] \<and>
   map suggestionPair (getSuggestedDuplicates sharedBothDb ''u1'') = [{''pa'', ''pb''}]"
  by code_simp

theorem getSuggestedDuplicates_pair_once_witness:
  "pairKeysFaithful (userPersonIds sharedBothDb ''u1'') \<and>
   distinct (map suggestionPair (getSuggestedDuplicates sharedBothDb ''u1'')) \<and>
   (\<exists>s. filter (\<lambda>t. suggestionPair t = {''pa'', ''pb''})
          (getSuggestedDuplicates sharedBothDb ''u1'') = [s] \<and> matchType s = MatchPhone)"
proof -
  let ?A = "mkPerson ''pa'' ''u1''" and ?B = "mkPerson ''pb'' ''u1''"
  let ?iA = "mkIdentity ''i1'' ''pa'' (Some ''+15551234567'') (Some ''x@example.com'')"
  let ?iB = "mkIdentity ''i2'' ''pb'' (Some ''+15551234567'') (Some ''x@example.com'')"
  have ids_of_user: "userPersonIds sharedBothDb ''u1'' = {''pa'', ''pb''}"
    by (simp add: userPersonIds_def sharedBothDb_def emptyDb_def mkPerson_def)
  have faithful: "pairKeysFaithful (userPersonIds sharedBothDb ''u1'')"
    unfolding ids_of_user by (rule hyphen_free_faithful) auto
  have hyps: "?A \<in> set (people sharedBothDb) \<and> person_userId ?A = ''u1'' \<and>
    ?B \<in> set (people sharedBothDb) \<and> person_userId ?B = ''u1'' \<and>
    person_id ?A \<noteq> person_id ?B \<and>
    ?iA \<in> set (identities sharedBothDb) \<and> identity_personId ?iA = person_id ?A \<and>
    ?iB \<in> set (identities sharedBothDb) \<and> identity_personId ?iB = person_id ?B \<and>
    ''+15551234567'' \<noteq> [] \<and> identity_normalizedPhone ?iA = Some ''+15551234567'' \<and>
    identity_normalizedPhone ?iB = Some ''+15551234567''"
    by (simp add: sharedBothDb_def emptyDb_def mkPerson_def mkIdentity_def)
  have ids: "person_id ?A = ''pa''" "person_id ?B = ''pb''"
    by (simp_all add: mkPerson_def)
  from getSuggestedDuplicates_pair_once
         [where db = sharedBothDb and u = "''u1''" and A = ?A and B = ?B and iA = ?iA
            and iB = ?iB and phone = "''+15551234567''"] faithful hyps
  have "distinct (map suggestionPair (getSuggestedDuplicates sharedBothDb ''u1'')) \<and>
    (\<exists>s. filter (\<lambda>t. suggestionPair t = {person_id ?A, person_id ?B})
          (getSuggestedDuplicates sharedBothDb ''u1'') = [s] \<and> matchType s = MatchPhone)"
    by blast
  then show ?thesis unfolding ids using faithful by blast
qed

text \<open>
  Claim C10. When one person of the user owns two identities with the same normalized
  phone number, or two with the same normalized email address, the person is in the list
  of that value twice, the loop pairs the two entries, and the result holds a suggestion
  whose \<open>person1\<close> and \<open>person2\<close> both carry the id of that person: a suggestion need not
  relate two distinct people. (For ids whose pair keys tell the pairs apart.)
\<close>

theorem getSuggestedDuplicates_self_suggestion:
  assumes faithful: "pairKeysFaithful (userPersonIds db u)"
    and A: "A \<in> set (people db)" "person_userId A = u"
    and i1: "i1 \<in> set (identities db)" "identity_personId i1 = person_id A"
    and i2: "i2 \<in> set (identities db)" "identity_personId i2 = person_id A"
    and ne: "i1 \<noteq> i2"
    and same: "v \<noteq> []"
      "identity_normalizedPhone i1 = Some v \<and> identity_normalizedPhone i2 = Some v \<or>
       identity_normalizedEmail i1 = Some v \<and> identity_normalizedEmail i2 = Some v"
  shows "\<exists>s \<in> set (getSuggestedDuplicates db u).
           person_id (pwi_person (person1 s)) = person_id A \<and>
           person_id (pwi_person (person2 s)) = person_id A"
proof -
  let ?ps = "findManyPeople db u"
  let ?a = "includeIdentities db A"
  have mem: "?a \<in> set ?ps" by (rule findManyPeople_mem[OF A])
  have m1: "i1 \<in> set (pwi_identities ?a)" by (rule includeIdentities_mem[OF i1])
  have m2: "i2 \<in> set (pwi_identities ?a)" by (rule includeIdentities_mem[OF i2])
  have ida: "person_id (pwi_person ?a) = person_id A" by (simp add: includeIdentities_def)
  have seen: "pairKey (person_id A) (person_id A) \<in> seenPairs (finalState db u)"
    using same(2)
  proof
    assume p: "identity_normalizedPhone i1 = Some v \<and> identity_normalizedPhone i2 = Some v"
    let ?xs = "occurrences (phoneMatches v) ?ps"
    have "\<exists>us vs ws. ?xs = us @ ?a # vs @ ?a # ws"
      using p same(1) by (intro occurrences_twice[OF mem m1 m2 ne]) (simp_all add: phoneMatches_def)
    then obtain us vs ws where xs: "?xs = us @ ?a # vs @ ?a # ws" by blast
    then have "?xs \<noteq> []" by simp
    then have entry: "(v, ?xs) \<in> set (fst (buildMaps ?ps))"
      using valuesAt_entry[of "fst (buildMaps ?ps)" v] by (simp add: buildMaps_phone)
    from findDuplicatesBy_seen[OF entry xs]
    have "pairKey (person_id A) (person_id A) \<in> seenPairs (phonePhase db u)"
      by (simp add: phonePhase_def ida)
    then show ?thesis using finalState_stepOk[of db u] by (rule stepOk_seen_mono[rotated])
  next
    assume e: "identity_normalizedEmail i1 = Some v \<and> identity_normalizedEmail i2 = Some v"
    let ?xs = "occurrences (emailMatches v) ?ps"
    have "\<exists>us vs ws. ?xs = us @ ?a # vs @ ?a # ws"
      using e same(1) by (intro occurrences_twice[OF mem m1 m2 ne]) (simp_all add: emailMatches_def)
    then obtain us vs ws where xs: "?xs = us @ ?a # vs @ ?a # ws" by blast
    then have "?xs \<noteq> []" by simp
    then have entry: "(v, ?xs) \<in> set (snd (buildMaps ?ps))"
      using valuesAt_entry[of "snd (buildMaps ?ps)" v] by (simp add: buildMaps_email)
    from findDuplicatesBy_seen[OF entry xs]
    show ?thesis by (simp add: finalState_def ida)
  qed
  with finalState_inv[of db u] obtain s where
    s: "s \<in> set (suggestions (finalState db u))"
       "suggestionKey s = pairKey (person_id A) (person_id A)"
    using seen_has_suggestion by blast
  have kA: "person_id A \<in> userPersonIds db u" using A by (simp add: userPersonIds_mem)
  have ks: "person_id (pwi_person (person1 s)) \<in> userPersonIds db u"
     "person_id (pwi_person (person2 s)) \<in> userPersonIds db u"
    using suggestion_ids_known[OF s(1)] by simp_all
  have "{person_id (pwi_person (person1 s)), person_id (pwi_person (person2 s))} =
        {person_id A, person_id A}"
    by (rule pairKeysFaithfulD[OF faithful ks kA kA]) (use s(2) in \<open>simp add: suggestionKey_def\<close>)
  then have "person_id (pwi_person (person1 s)) = person_id A \<and>
        person_id (pwi_person (person2 s)) = person_id A"
    by auto
  then show ?thesis using s(1) unfolding getSuggestedDuplicates_final by blast
qed

theorem getSuggestedDuplicates_self_suggestion_witness:
  "pairKeysFaithful (userPersonIds twoPhonesDb ''u1'') \<and>
   map identity_personId (identities twoPhonesDb) = [''pa'', ''pa''] \<and>
   map identity_normalizedPhone (identities twoPhonesDb) =
     [Some ''+15551234567'', Some ''+15551234567''] \<and>
   (\<exists>s \<in> set (getSuggestedDuplicates twoPhonesDb ''u1'').
      person_id (pwi_person (person1 s)) = ''pa'' \<and>
      person_id (pwi_person (person2 s)) = ''pa'')"
proof -
  let ?A = "mkPerson ''pa'' ''u1''"
  let ?i1 = "mkIdentity ''i1'' ''pa'' (Some ''+15551234567'') None"
  let ?i2 = "mkIdentity ''i2'' ''pa'' (Some ''+15551234567'') None"
  have ids_of_user: "userPersonIds twoPhonesDb ''u1'' = {''pa''}"
    by (simp add: userPersonIds_def twoPhonesDb_def emptyDb_def mkPerson_def)
  have h0: "pairKeysFaithful (userPersonIds twoPhonesDb ''u1'')"
    unfolding ids_of_user by (rule same_length_faithful[where n = 2]) auto
  have rows: "map identity_personId (identities twoPhonesDb) = [''pa'', ''pa'']"
    "map identity_normalizedPhone (identities twoPhonesDb) =
       [Some ''+15551234567'', Some ''+15551234567'']"
    by (simp_all add: twoPhonesDb_def emptyDb_def mkIdentity_def)
  have h1: "?A \<in> set (people twoPhonesDb)" "person_userId ?A = ''u1''"
    by (simp_all add: twoPhonesDb_def emptyDb_def mkPerson_def)
  have h2: "?i1 \<in> set (identities twoPhonesDb)" "identity_personId ?i1 = person_id ?A"
    "?i2 \<in> set (identities twoPhonesDb)" "identity_personId ?i2 = person_id ?A"
    by (simp_all add: twoPhonesDb_def emptyDb_def mkPerson_def mkIdentity_def)
  have h3: "?i1 \<noteq> ?i2" by (simp add: mkIdentity_def)
  have h4: "''+15551234567'' \<noteq> []"
    "identity_normalizedPhone ?i1 = Some ''+15551234567'' \<and>
     identity_normalizedPhone ?i2 = Some ''+15551234567'' \<or>
     identity_normalizedEmail ?i1 = Some ''+15551234567'' \<and>
     identity_normalizedEmail ?i2 = Some ''+15551234567''"
    by (simp_all add: mkIdentity_def)
  have ids: "person_id ?A = ''pa''" by (simp add: mkPerson_def)
  from getSuggestedDuplicates_self_suggestion[OF h0 h1 h2 h3 h4]
  have "\<exists>s \<in> set (getSuggestedDuplicates twoPhonesDb ''u1'').
      person_id (pwi_person (person1 s)) = ''pa'' \<and>
      person_id (pwi_person (person2 s)) = ''pa''"
    unfolding ids .
  then show ?thesis using h0 rows by blast
qed

section \<open>Properties of the merge\<close>

lemma find_filter_implied:
  assumes "\<And>x. P x \<Longrightarrow> R x"
  shows "find P (filter R xs) = find P xs"
  using assms by (induction xs) auto

lemma filter_all: "(\<And>x. x \<in> set xs \<Longrightarrow> P x) \<Longrightarrow> filter P xs = xs"
  by (induction xs) auto

lemma findFirstPerson_Some:
  assumes "findFirstPerson db pid userId = Some p"
  shows "p \<in> set (people db) \<and> person_id p = pid \<and> person_userId p = userId"
  using assms by (auto simp: findFirstPerson_def find_Some_iff)

lemma findFirstPerson_find_id:
  assumes "findFirstPerson db pid userId = Some p"
  shows "\<exists>q. find (\<lambda>p. person_id p = pid) (people db) = Some q \<and> person_id q = pid"
proof (cases "find (\<lambda>p. person_id p = pid) (people db)")
  case None
  then show ?thesis using findFirstPerson_Some[OF assms] by (auto simp: find_None_iff)
next
  case (Some q)
  then show ?thesis by (auto simp: find_Some_iff)
qed

lemma repoint_identities_survive:
  assumes "a \<noteq> b"
  shows "filter (\<lambda>i. identity_personId i \<noteq> b)
           (map (\<lambda>i. if identity_personId i = b then i\<lparr>identity_personId := a\<rparr> else i) xs) =
         map (\<lambda>i. if identity_personId i = b then i\<lparr>identity_personId := a\<rparr> else i) xs"
  using assms by (intro filter_all) auto

lemma repoint_addresses_survive:
  assumes "a \<noteq> b"
  shows "filter (\<lambda>x. address_personId x \<noteq> b)
           (map (\<lambda>x. if address_personId x = b then x\<lparr>address_personId := a\<rparr> else x) xs) =
         map (\<lambda>x. if address_personId x = b then x\<lparr>address_personId := a\<rparr> else x) xs"
  using assms by (intro filter_all) auto

lemma repoint_celebrations_survive:
  assumes "a \<noteq> b"
  shows "filter (\<lambda>c. celebration_personId c \<noteq> b)
           (map (\<lambda>c. if celebration_personId c = b then c\<lparr>celebration_personId := a\<rparr> else c) xs) =
         map (\<lambda>c. if celebration_personId c = b then c\<lparr>celebration_personId := a\<rparr> else c) xs"
  using assms by (intro filter_all) auto

lemma repoint_celebrations_none_left:
  assumes "a \<noteq> b"
  shows "filter (\<lambda>c. celebration_personId c = b)
           (map (\<lambda>c. if celebration_personId c = b then c\<lparr>celebration_personId := a\<rparr> else c) xs) = []"
  using assms by (auto simp: filter_empty_conv)

lemma repoint_guests_stay:
  assumes "a \<noteq> b"
  shows "(\<lambda>g. if guest_personId g = Some b then g\<lparr>guest_personId := None\<rparr> else g) \<circ>
         (\<lambda>g. if guest_personId g = Some b then g\<lparr>guest_personId := Some a\<rparr> else g) =
         (\<lambda>g. if guest_personId g = Some b then g\<lparr>guest_personId := Some a\<rparr> else g)"
  using assms by (auto simp: fun_eq_iff)

lemma reminders_kept:
  "filter (\<lambda>r. case reminder_celebrationId r of None \<Rightarrow> True | Some c \<Rightarrow> c \<notin> set []) xs = xs"
  by (intro filter_all) (auto split: option.splits)

text \<open>The store after a merge of two distinct people that commits.\<close>

lemma merge_transaction_commits:
  assumes ne: "a \<noteq> b"
    and donor: "find (\<lambda>p. person_id p = b) (people db) = Some q"
  shows "transaction None
           [identityUpdateMany b a, addressUpdateMany b a, celebrationUpdateMany b a,
            eventGuestUpdateMany b a, personDelete b] db =
         Some (db\<lparr>people := filter (\<lambda>p. person_id p \<noteq> b) (people db),
                  identities := map (\<lambda>i. if identity_personId i = b then i\<lparr>identity_personId := a\<rparr> else i) (identities db),
                  addresses := map (\<lambda>x. if address_personId x = b then x\<lparr>address_personId := a\<rparr> else x) (addresses db),
                  celebrations := map (\<lambda>c. if celebration_personId c = b then c\<lparr>celebration_personId := a\<rparr> else c) (celebrations db),
                  eventGuests := map (\<lambda>g. if guest_personId g = Some b then g\<lparr>guest_personId := Some a\<rparr> else g) (eventGuests db)\<rparr>)"
  using donor
  by (simp add: transaction_def identityUpdateMany_def addressUpdateMany_def
        celebrationUpdateMany_def eventGuestUpdateMany_def personDelete_def
        cascadeDeletePerson_def Let_def
        repoint_identities_survive[OF ne] repoint_addresses_survive[OF ne]
        repoint_celebrations_survive[OF ne] repoint_celebrations_none_left[OF ne]
        repoint_guests_stay[OF ne] reminders_kept)

lemma merge_transaction_aborts:
  assumes "k \<le> 5"
  shows "transaction (Some k) [s1, s2, s3, s4, s5] db = None"
proof -
  from assms have "k = 0 \<or> k = 1 \<or> k = 2 \<or> k = 3 \<or> k = 4 \<or> k = 5" by arith
  then show ?thesis
    by (auto simp: transaction_def split: option.splits)
qed


lemma length_filter_repointed:
  assumes "a \<noteq> b"
  shows "length (filter (\<lambda>i. identity_personId i = a)
           (map (\<lambda>i. if identity_personId i = b then i\<lparr>identity_personId := a\<rparr> else i) xs)) =
         length (filter (\<lambda>i. identity_personId i = a) xs) +
         length (filter (\<lambda>i. identity_personId i = b) xs)"
  using assms by (induction xs) auto

lemma self_repoint_identities:
  "map (\<lambda>i. if identity_personId i = p then i\<lparr>identity_personId := p\<rparr> else i) xs = xs"
  by (induction xs) auto

lemma self_repoint_addresses:
  "map (\<lambda>x. if address_personId x = p then x\<lparr>address_personId := p\<rparr> else x) xs = xs"
  by (induction xs) auto

lemma self_repoint_celebrations:
  "map (\<lambda>c. if celebration_personId c = p then c\<lparr>celebration_personId := p\<rparr> else c) xs = xs"
  by (induction xs) auto

lemma self_repoint_guests:
  "map (\<lambda>g. if guest_personId g = Some p then g\<lparr>guest_personId := Some p\<rparr> else g) xs = xs"
  by (induction xs) auto

lemma self_merge_transaction:
  assumes "find (\<lambda>q. person_id q = p) (people db) = Some q"
  shows "transaction None
           [identityUpdateMany p p, addressUpdateMany p p, celebrationUpdateMany p p,
            eventGuestUpdateMany p p, personDelete p] db = Some (cascadeDeletePerson p db)"
  using assms
  by (simp add: transaction_def identityUpdateMany_def addressUpdateMany_def
        celebrationUpdateMany_def eventGuestUpdateMany_def personDelete_def
        self_repoint_identities self_repoint_addresses self_repoint_celebrations
        self_repoint_guests)

text \<open>
  Claim C1. For two distinct people owned by the user, a merge that commits re-points
  every identity, address, celebration and event guest of the donor \<open>person2Id\<close> to the
  survivor \<open>person1Id\<close>, deletes the donor and nothing else (the cascade of the delete
  finds no row left to remove, and reminders, users and events are untouched), and returns
  the survivor with the re-pointed rows loaded: the survivor has its own identities and
  the donor's. The five writes are one transaction: when it is aborted, at whichever
  statement or at commit, the call fails and the store is exactly the one before the call.
\<close>

theorem mergePeople_atomic:
  assumes ne: "person1Id \<noteq> person2Id"
    and p1: "findFirstPerson db person1Id userId = Some p1"
    and p2: "findFirstPerson db person2Id userId = Some p2"
  shows "\<exists>survivor db'.
     mergePeople None db userId person1Id person2Id = (Inr survivor, db') \<and>
     people db' = filter (\<lambda>p. person_id p \<noteq> person2Id) (people db) \<and>
     identities db' =
       map (\<lambda>i. if identity_personId i = person2Id then i\<lparr>identity_personId := person1Id\<rparr> else i)
         (identities db) \<and>
     addresses db' =
       map (\<lambda>x. if address_personId x = person2Id then x\<lparr>address_personId := person1Id\<rparr> else x)
         (addresses db) \<and>
     celebrations db' =
       map (\<lambda>c. if celebration_personId c = person2Id then c\<lparr>celebration_personId := person1Id\<rparr> else c)
         (celebrations db) \<and>
     eventGuests db' =
       map (\<lambda>g. if guest_personId g = Some person2Id then g\<lparr>guest_personId := Some person1Id\<rparr> else g)
         (eventGuests db) \<and>
     scheduledReminders db' = scheduledReminders db \<and>
     users db' = users db \<and> events db' = events db \<and>
     person_id (pr_person survivor) = person1Id \<and>
     pr_identities survivor = filter (\<lambda>i. identity_personId i = person1Id) (identities db') \<and>
     pr_addresses survivor = filter (\<lambda>x. address_personId x = person1Id) (addresses db') \<and>
     pr_celebrations survivor = filter (\<lambda>c. celebration_personId c = person1Id) (celebrations db') \<and>
     length (pr_identities survivor) =
       length (filter (\<lambda>i. identity_personId i = person1Id) (identities db)) +
       length (filter (\<lambda>i. identity_personId i = person2Id) (identities db)) \<and>
     (\<forall>k \<le> 5. mergePeople (Some k) db userId person1Id person2Id = (Inl TransactionAborted, db))"
proof -
  let ?db' = "db\<lparr>people := filter (\<lambda>p. person_id p \<noteq> person2Id) (people db),
      identities := map (\<lambda>i. if identity_personId i = person2Id then i\<lparr>identity_personId := person1Id\<rparr> else i) (identities db),
      addresses := map (\<lambda>x. if address_personId x = person2Id then x\<lparr>address_personId := person1Id\<rparr> else x) (addresses db),
      celebrations := map (\<lambda>c. if celebration_personId c = person2Id then c\<lparr>celebration_personId := person1Id\<rparr> else c) (celebrations db),
      eventGuests := map (\<lambda>g. if guest_personId g = Some person2Id then g\<lparr>guest_personId := Some person1Id\<rparr> else g) (eventGuests db)\<rparr>"
  from findFirstPerson_find_id[OF p2] obtain q2 where
    q2: "find (\<lambda>p. person_id p = person2Id) (people db) = Some q2" by blast
  from findFirstPerson_find_id[OF p1] obtain q1 where
    q1: "find (\<lambda>p. person_id p = person1Id) (people db) = Some q1" "person_id q1 = person1Id"
    by blast
  have tx: "transaction None
           [identityUpdateMany person2Id person1Id, addressUpdateMany person2Id person1Id,
            celebrationUpdateMany person2Id person1Id, eventGuestUpdateMany person2Id person1Id,
            personDelete person2Id] db = Some ?db'"
    by (rule merge_transaction_commits[OF ne q2])
  have survivor: "find (\<lambda>p. person_id p = person1Id) (people ?db') = Some q1"
    using q1(1) ne by (simp add: find_filter_implied)
  have ok: "mergePeople None db userId person1Id person2Id = (Inr (includeRelations ?db' q1), ?db')"
    unfolding mergePeople_def Let_def tx using p1 p2 survivor by simp
  have aborted: "\<forall>k \<le> 5. mergePeople (Some k) db userId person1Id person2Id =
      (Inl TransactionAborted, db)"
    using p1 p2 by (simp add: mergePeople_def Let_def merge_transaction_aborts)
  have loaded: "pr_identities (includeRelations ?db' q1) =
       filter (\<lambda>i. identity_personId i = person1Id)
         (map (\<lambda>i. if identity_personId i = person2Id then i\<lparr>identity_personId := person1Id\<rparr> else i)
           (identities db))"
    using q1(2) by (simp add: includeRelations_def)
  have count: "length (pr_identities (includeRelations ?db' q1)) =
       length (filter (\<lambda>i. identity_personId i = person1Id) (identities db)) +
       length (filter (\<lambda>i. identity_personId i = person2Id) (identities db))"
    unfolding loaded by (rule length_filter_repointed[OF ne])
  show ?thesis
    apply (rule exI[of _ "includeRelations ?db' q1"])
    apply (rule exI[of _ ?db'])
    apply (intro conjI)
    apply (rule ok)
    apply simp
    apply simp
    apply simp
    apply simp
    apply simp
    apply simp
    apply simp
    apply simp
    apply (simp add: includeRelations_def q1(2))
    apply (simp add: includeRelations_def q1(2))
    apply (simp add: includeRelations_def q1(2))
    apply (simp add: includeRelations_def q1(2))
    apply (rule count)
    apply (rule aborted)
    done
qed

theorem mergePeople_atomic_witness:
  "findFirstPerson mergeExampleDb ''pa'' ''u1'' = Some (mkPerson ''pa'' ''u1'') \<and>
   findFirstPerson mergeExampleDb ''pb'' ''u1'' = Some (mkPerson ''pb'' ''u1'') \<and>
   (\<exists>survivor db'.
      mergePeople None mergeExampleDb ''u1'' ''pa'' ''pb'' = (Inr survivor, db') \<and>
      length (pr_identities survivor) = 3 \<and>
      length (pr_celebrations survivor) = 1 \<and>
      map person_id (people db') = [''pa''] \<and>
      map guest_personId (eventGuests db') = [Some ''pa'', Some ''pa'', None]) \<and>
   mergePeople (Some 2) mergeExampleDb ''u1'' ''pa'' ''pb'' = (Inl TransactionAborted, mergeExampleDb)"
proof -
  have h1: "findFirstPerson mergeExampleDb ''pa'' ''u1'' = Some (mkPerson ''pa'' ''u1'')"
    by (simp add: findFirstPerson_def mergeExampleDb_def emptyDb_def mkPerson_def)
  have h2: "findFirstPerson mergeExampleDb ''pb'' ''u1'' = Some (mkPerson ''pb'' ''u1'')"
    by (simp add: findFirstPerson_def mergeExampleDb_def emptyDb_def mkPerson_def)
  have ne: "''pa'' \<noteq> ''pb''" by simp
  from mergePeople_atomic[OF ne h1 h2] obtain survivor db' where
    res: "mergePeople None mergeExampleDb ''u1'' ''pa'' ''pb'' = (Inr survivor, db')"
    and ppl: "people db' = filter (\<lambda>p. person_id p \<noteq> ''pb'') (people mergeExampleDb)"
    and cel: "celebrations db' =
       map (\<lambda>c. if celebration_personId c = ''pb'' then c\<lparr>celebration_personId := ''pa''\<rparr> else c)
         (celebrations mergeExampleDb)"
    and gst: "eventGuests db' =
       map (\<lambda>g. if guest_personId g = Some ''pb'' then g\<lparr>guest_personId := Some ''pa''\<rparr> else g)
         (eventGuests mergeExampleDb)"
    and pcs: "pr_celebrations survivor = filter (\<lambda>c. celebration_personId c = ''pa'') (celebrations db')"
    and cnt: "length (pr_identities survivor) =
       length (filter (\<lambda>i. identity_personId i = ''pa'') (identities mergeExampleDb)) +
       length (filter (\<lambda>i. identity_personId i = ''pb'') (identities mergeExampleDb))"
    and abt: "\<forall>k \<le> 5. mergePeople (Some k) mergeExampleDb ''u1'' ''pa'' ''pb'' =
       (Inl TransactionAborted, mergeExampleDb)"
    by blast
  have three: "length (pr_identities survivor) = 3"
    unfolding cnt by (simp add: mergeExampleDb_def emptyDb_def mkIdentity_def)
  have one: "length (pr_celebrations survivor) = 1"
    unfolding pcs cel by (simp add: mergeExampleDb_def emptyDb_def mkCelebration_def)
  have donor_gone: "map person_id (people db') = [''pa'']"
    unfolding ppl by (simp add: mergeExampleDb_def emptyDb_def mkPerson_def)
  have guests: "map guest_personId (eventGuests db') = [Some ''pa'', Some ''pa'', None]"
    unfolding gst by (simp add: mergeExampleDb_def emptyDb_def mkGuest_def)
  have aborted: "mergePeople (Some 2) mergeExampleDb ''u1'' ''pa'' ''pb'' =
      (Inl TransactionAborted, mergeExampleDb)"
    using abt by simp
  from res three one donor_gone guests
  have "\<exists>survivor db'.
      mergePeople None mergeExampleDb ''u1'' ''pa'' ''pb'' = (Inr survivor, db') \<and>
      length (pr_identities survivor) = 3 \<and>
      length (pr_celebrations survivor) = 1 \<and>
      map person_id (people db') = [''pa''] \<and>
      map guest_personId (eventGuests db') = [Some ''pa'', Some ''pa'', None]"
    by (intro exI conjI)
  with h1 h2 aborted show ?thesis by (intro conjI)
qed

text \<open>
  Claim C9. A merge of a person with itself passes the ownership check (both lookups
  find the row), the re-pointing statements change nothing, the delete removes the
  person and, by the cascade, its identities, addresses and celebrations (event guests
  lose their reference), and the final lookup of the survivor fails: the call raises
  \<open>RecordNotFound\<close> with the store already changed.
\<close>

theorem mergePeople_self:
  assumes "findFirstPerson db pid userId = Some p"
  shows "mergePeople None db userId pid pid = (Inl RecordNotFound, cascadeDeletePerson pid db) \<and>
     list_all (\<lambda>q. person_id q \<noteq> pid) (people (cascadeDeletePerson pid db)) \<and>
     list_all (\<lambda>i. identity_personId i \<noteq> pid) (identities (cascadeDeletePerson pid db)) \<and>
     list_all (\<lambda>x. address_personId x \<noteq> pid) (addresses (cascadeDeletePerson pid db)) \<and>
     list_all (\<lambda>c. celebration_personId c \<noteq> pid) (celebrations (cascadeDeletePerson pid db)) \<and>
     list_all (\<lambda>g. guest_personId g \<noteq> Some pid) (eventGuests (cascadeDeletePerson pid db)) \<and>
     length (people (cascadeDeletePerson pid db)) < length (people db) \<and>
     cascadeDeletePerson pid db \<noteq> db"
proof -
  from findFirstPerson_find_id[OF assms] obtain q where
    q: "find (\<lambda>p. person_id p = pid) (people db) = Some q" by blast
  have tx: "transaction None
           [identityUpdateMany pid pid, addressUpdateMany pid pid, celebrationUpdateMany pid pid,
            eventGuestUpdateMany pid pid, personDelete pid] db = Some (cascadeDeletePerson pid db)"
    by (rule self_merge_transaction[OF q])
  have gone: "find (\<lambda>p. person_id p = pid) (people (cascadeDeletePerson pid db)) = None"
    by (simp add: cascadeDeletePerson_def Let_def find_None_iff)
  have result: "mergePeople None db userId pid pid = (Inl RecordNotFound, cascadeDeletePerson pid db)"
    unfolding mergePeople_def Let_def tx using assms gone by simp
  have mem: "p \<in> set (people db)" "person_id p = pid"
    using findFirstPerson_Some[OF assms] by simp_all
  have fewer: "length (people (cascadeDeletePerson pid db)) < length (people db)"
    using mem by (auto simp: cascadeDeletePerson_def Let_def intro!: length_filter_less)
  then have changed: "cascadeDeletePerson pid db \<noteq> db" by auto
  have rows: "list_all (\<lambda>q. person_id q \<noteq> pid) (people (cascadeDeletePerson pid db))"
    "list_all (\<lambda>i. identity_personId i \<noteq> pid) (identities (cascadeDeletePerson pid db))"
    "list_all (\<lambda>x. address_personId x \<noteq> pid) (addresses (cascadeDeletePerson pid db))"
    "list_all (\<lambda>c. celebration_personId c \<noteq> pid) (celebrations (cascadeDeletePerson pid db))"
    "list_all (\<lambda>g. guest_personId g \<noteq> Some pid) (eventGuests (cascadeDeletePerson pid db))"
    by (auto simp: cascadeDeletePerson_def Let_def list_all_iff)
  from result rows fewer changed show ?thesis by (intro conjI)
qed

theorem mergePeople_self_witness:
  "findFirstPerson mergeExampleDb ''pb'' ''u1'' = Some (mkPerson ''pb'' ''u1'') \<and>
   fst (mergePeople None mergeExampleDb ''u1'' ''pb'' ''pb'') = Inl RecordNotFound \<and>
   map person_id (people (snd (mergePeople None mergeExampleDb ''u1'' ''pb'' ''pb''))) = [''pa''] \<and>
   map identity_id (identities (snd (mergePeople None mergeExampleDb ''u1'' ''pb'' ''pb''))) = [''i1''] \<and>
   celebrations (snd (mergePeople None mergeExampleDb ''u1'' ''pb'' ''pb'')) = [] \<and>
   scheduledReminders (snd (mergePeople None mergeExampleDb ''u1'' ''pb'' ''pb'')) = [] \<and>
   snd (mergePeople None mergeExampleDb ''u1'' ''pb'' ''pb'') \<noteq> mergeExampleDb"
proof -
  have h: "findFirstPerson mergeExampleDb ''pb'' ''u1'' = Some (mkPerson ''pb'' ''u1'')"
    by (simp add: findFirstPerson_def mergeExampleDb_def emptyDb_def mkPerson_def)
  from mergePeople_self[OF h]
  have res: "mergePeople None mergeExampleDb ''u1'' ''pb'' ''pb'' =
      (Inl RecordNotFound, cascadeDeletePerson ''pb'' mergeExampleDb)"
    and changed: "cascadeDeletePerson ''pb'' mergeExampleDb \<noteq> mergeExampleDb"
    by blast+
  have rows: "map person_id (people (cascadeDeletePerson ''pb'' mergeExampleDb)) = [''pa'']"
    "map identity_id (identities (cascadeDeletePerson ''pb'' mergeExampleDb)) = [''i1'']"
    "celebrations (cascadeDeletePerson ''pb'' mergeExampleDb) = []"
    "scheduledReminders (cascadeDeletePerson ''pb'' mergeExampleDb) = []"
    by (simp_all add: cascadeDeletePerson_def Let_def mergeExampleDb_def emptyDb_def
          mkPerson_def mkIdentity_def mkCelebration_def celebrationReminderRow_def)
  show ?thesis unfolding res using h rows changed by simp
qed

section \<open>Properties of the celebration routes\<close>








text \<open>
  The update route writes the fields of the request and derives nothing from the type:
  changing the type of a life event to a birthday leaves it without a rule.
\<close>

lemma updateCelebration_type_change:
  "list_all celebrationInvariant (celebrations oneLifeEventDb) \<and>
   map celebration_type
     (celebrations (snd (updateCelebration utcZone timestampColumn exampleId ''u1'' ''c1'' toBirthdayBody oneLifeEventDb))) =
     [BIRTHDAY] \<and>
   map celebration_recurringRule
     (celebrations (snd (updateCelebration utcZone timestampColumn exampleId ''u1'' ''c1'' toBirthdayBody oneLifeEventDb))) =
     [None]"
  by code_simp



section \<open>Properties of processing due reminders\<close>

lemma sendPush_store_error:
  assumes "storeFails env (UserFindUnique (pn_userId n))"
  shows "sendPushNotification env db n = (Inl StoreError, db)"
  using assms by (simp add: sendPushNotification_def)

lemma sendPush_reports:
  assumes "\<not> storeFails env (UserFindUnique (pn_userId n))"
  shows "\<exists>delivered db'. sendPushNotification env db n = (Inr delivered, db') \<and>
           scheduledReminders db' = scheduledReminders db"
  using assms
  by (auto simp: sendPushNotification_def clearPushToken_def
           split: option.splits ExpoOutcome.splits)

lemma sendPush_reminders:
  "scheduledReminders (snd (sendPushNotification env db n)) = scheduledReminders db"
proof (cases "storeFails env (UserFindUnique (pn_userId n))")
  case True
  then show ?thesis by (simp add: sendPush_store_error)
next
  case False
  from sendPush_reports[OF this, of db] show ?thesis by auto
qed

lemma caught_reminders:
  assumes "scheduledReminders (snd r) = rows"
  shows "scheduledReminders
           (snd (case r of (Inl e, db') \<Rightarrow> (Some e, db') | (Inr x, db') \<Rightarrow> (None, db'))) = rows"
  using assms by (auto split: prod.splits sum.splits)

lemma sendBirthdayReminder_reminders:
  "scheduledReminders (snd (sendBirthdayReminder env db u name d)) = scheduledReminders db"
  unfolding sendBirthdayReminder_def by (rule sendPush_reminders)

lemma sendEventReminder_reminders:
  "scheduledReminders (snd (sendEventReminder env db u name d)) = scheduledReminders db"
  unfolding sendEventReminder_def by (rule sendPush_reminders)

lemma notifyCelebration_reminders:
  "scheduledReminders (snd (notifyCelebration env now dr db)) = scheduledReminders db"
  by (simp add: notifyCelebration_def Let_def
        caught_reminders[OF sendBirthdayReminder_reminders] split: option.splits)

lemma notifyEvent_reminders:
  "scheduledReminders (snd (notifyEvent env now dr db)) = scheduledReminders db"
  by (simp add: notifyEvent_def Let_def
        caught_reminders[OF sendEventReminder_reminders] split: option.splits)

lemma birthday_push_result:
  "fst (case sendBirthdayReminder env db u name d of
            (Inl e, db') \<Rightarrow> (Some e, db') | (Inr x, db') \<Rightarrow> (None, db')) = None
   \<longleftrightarrow> \<not> storeFails env (UserFindUnique u)"
proof (cases "storeFails env (UserFindUnique u)")
  case True
  then show ?thesis by (simp add: sendBirthdayReminder_def sendPush_store_error)
next
  case False
  let ?n = "\<lparr>pn_userId = u,
        pn_text = (if d = Some 0 then BirthdayToday name
                   else if d = Some 1 then BirthdayTomorrow name
                   else BirthdayInDays name d)\<rparr>"
  have "\<not> storeFails env (UserFindUnique (pn_userId ?n))" using False by simp
  from sendPush_reports[OF this, of db] obtain b db' where
    "sendPushNotification env db ?n = (Inr b, db')" by blast
  then show ?thesis using False by (simp add: sendBirthdayReminder_def)
qed

lemma event_push_result:
  "fst (case sendEventReminder env db u name d of
            (Inl e, db') \<Rightarrow> (Some e, db') | (Inr x, db') \<Rightarrow> (None, db')) = None
   \<longleftrightarrow> \<not> storeFails env (UserFindUnique u)"
proof (cases "storeFails env (UserFindUnique u)")
  case True
  then show ?thesis by (simp add: sendEventReminder_def sendPush_store_error)
next
  case False
  let ?n = "\<lparr>pn_userId = u,
        pn_text = (case d of
                     None \<Rightarrow> EventInDays name None
                   | Some h \<Rightarrow>
                       if h \<le> 1 then EventStartsSoon name
                       else if h \<le> 24 then EventToday name h
                       else EventInDays name (Some (h div 24)))\<rparr>"
  have "\<not> storeFails env (UserFindUnique (pn_userId ?n))" using False by simp
  from sendPush_reports[OF this, of db] obtain b db' where
    "sendPushNotification env db ?n = (Inr b, db')" by blast
  then show ?thesis using False by (simp add: sendEventReminder_def)
qed

lemma notifyCelebration_result:
  "fst (notifyCelebration env now dr db) = None \<longleftrightarrow>
   \<not> (case dr_celebration dr of
         None \<Rightarrow> False
       | Some cp \<Rightarrow> snd cp = None \<or> dr_user dr = None \<or>
           (wantsPush (dr_user dr) \<and>
            storeFails env (UserFindUnique (reminder_userId (dr_reminder dr)))))"
  by (auto simp: notifyCelebration_def Let_def wantsPush_def birthday_push_result
           split: option.splits)

lemma notifyEvent_result:
  "fst (notifyEvent env now dr db) = None \<longleftrightarrow>
   \<not> (case dr_event dr of
         None \<Rightarrow> False
       | Some event \<Rightarrow> dr_user dr = None \<or>
           (wantsPush (dr_user dr) \<and>
            storeFails env (UserFindUnique (reminder_userId (dr_reminder dr)))))"
  by (auto simp: notifyEvent_def Let_def wantsPush_def event_push_result
           split: option.splits)


lemma processReminder_result:
  "fst (processReminder env now dr db) = None \<longleftrightarrow>
   \<not> raises (storeFails env) dr \<and>
   list_ex (\<lambda>r. reminder_id r = reminder_id (dr_reminder dr)) (scheduledReminders db)"
proof -
  obtain e1 db1 where c: "notifyCelebration env now dr db = (e1, db1)" by (cases "notifyCelebration env now dr db")
  obtain e2 db2 where e: "notifyEvent env now dr db1 = (e2, db2)" by (cases "notifyEvent env now dr db1")
  have r1: "scheduledReminders db1 = scheduledReminders db"
    using notifyCelebration_reminders[of env now dr db] c by simp
  have r2: "scheduledReminders db2 = scheduledReminders db"
    using notifyEvent_reminders[of env now dr db1] e r1 by simp
  have c': "e1 = None \<longleftrightarrow>
     \<not> (case dr_celebration dr of
         None \<Rightarrow> False
       | Some cp \<Rightarrow> snd cp = None \<or> dr_user dr = None \<or>
           (wantsPush (dr_user dr) \<and>
            storeFails env (UserFindUnique (reminder_userId (dr_reminder dr)))))"
    using notifyCelebration_result[of env now dr db] c by simp
  have e': "e2 = None \<longleftrightarrow>
     \<not> (case dr_event dr of
         None \<Rightarrow> False
       | Some event \<Rightarrow> dr_user dr = None \<or>
           (wantsPush (dr_user dr) \<and>
            storeFails env (UserFindUnique (reminder_userId (dr_reminder dr)))))"
    using notifyEvent_result[of env now dr db1] e by simp
  show ?thesis
  proof (cases e1)
    case (Some x)
    then show ?thesis using c c' by (simp add: processReminder_def raises_def)
  next
    case None
    note n1 = this
    show ?thesis
    proof (cases e2)
      case (Some y)
      then show ?thesis using c e n1 e' by (simp add: processReminder_def raises_def)
    next
      case None
      then show ?thesis using c e n1 c' e' r2
        by (simp add: processReminder_def raises_def markSent_def)
    qed
  qed
qed

lemma processReminder_rows:
  "scheduledReminders (snd (processReminder env now dr db)) =
     (if fst (processReminder env now dr db) = None
      then markedRows now {reminder_id (dr_reminder dr)} (scheduledReminders db)
      else scheduledReminders db)"
proof -
  obtain e1 db1 where c: "notifyCelebration env now dr db = (e1, db1)" by (cases "notifyCelebration env now dr db")
  obtain e2 db2 where e: "notifyEvent env now dr db1 = (e2, db2)" by (cases "notifyEvent env now dr db1")
  have r1: "scheduledReminders db1 = scheduledReminders db"
    using notifyCelebration_reminders[of env now dr db] c by simp
  have r2: "scheduledReminders db2 = scheduledReminders db"
    using notifyEvent_reminders[of env now dr db1] e r1 by simp
  show ?thesis
  proof (cases e1)
    case (Some x)
    then show ?thesis using c r1 by (simp add: processReminder_def)
  next
    case None
    note n1 = this
    show ?thesis
    proof (cases e2)
      case (Some y)
      then show ?thesis using c e n1 r2 by (simp add: processReminder_def)
    next
      case None
      then show ?thesis using c e n1 r2
        by (simp add: processReminder_def markSent_def markedRows_def)
    qed
  qed
qed

lemma markedRows_ids: "map reminder_id (markedRows now ids rows) = map reminder_id rows"
  by (induction rows) (simp_all add: markedRows_def markRow_def)

lemma markedRows_again:
  "markedRows now S (markedRows now T rows) = markedRows now (S \<union> T) rows"
  by (induction rows) (auto simp: markedRows_def markRow_def)

lemma markedRows_empty: "markedRows now {} rows = rows"
  by (induction rows) (simp_all add: markedRows_def)

lemma list_ex_ids:
  "list_ex (\<lambda>r. reminder_id r = rid) rows \<longleftrightarrow> rid \<in> set (map reminder_id rows)"
  by (auto simp: list_ex_iff)

lemma processLoop_result:
  assumes "\<forall>dr \<in> set drs. reminder_id (dr_reminder dr) \<in> set (map reminder_id (scheduledReminders db))"
  shows "fst (processLoop env now drs n db) =
           n + length (filter (\<lambda>dr. \<not> raises (storeFails env) dr) drs) \<and>
         scheduledReminders (snd (processLoop env now drs n db)) =
           markedRows now
             (set (map (\<lambda>dr. reminder_id (dr_reminder dr))
                (filter (\<lambda>dr. \<not> raises (storeFails env) dr) drs)))
             (scheduledReminders db)"
  using assms
proof (induction drs arbitrary: n db)
  case Nil
  then show ?case by (simp add: markedRows_empty)
next
  case (Cons dr drs)
  obtain e db' where step: "processReminder env now dr db = (e, db')"
    by (cases "processReminder env now dr db")
  have present: "list_ex (\<lambda>r. reminder_id r = reminder_id (dr_reminder dr)) (scheduledReminders db)"
    using Cons.prems by (simp add: list_ex_ids)
  have res: "e = None \<longleftrightarrow> \<not> raises (storeFails env) dr"
    using processReminder_result[of env now dr db] step present by simp
  have rows: "scheduledReminders db' =
      (if e = None then markedRows now {reminder_id (dr_reminder dr)} (scheduledReminders db)
       else scheduledReminders db)"
    using processReminder_rows[of env now dr db] step by simp
  have ids: "map reminder_id (scheduledReminders db') = map reminder_id (scheduledReminders db)"
    using rows by (simp add: markedRows_ids)
  have rest: "\<forall>d \<in> set drs. reminder_id (dr_reminder d) \<in> set (map reminder_id (scheduledReminders db'))"
    using Cons.prems ids by simp
  show ?case
  proof (cases e)
    case None
    then have ok: "\<not> raises (storeFails env) dr" using res by simp
    from Cons.IH[OF rest, of "n + 1"] None step ok rows show ?thesis
      by (simp add: markedRows_again Un_commute)
  next
    case (Some err)
    then have bad: "raises (storeFails env) dr" using res by simp
    from Cons.IH[OF rest, of n] Some step bad rows show ?thesis
      by simp
  qed
qed

lemma findDueReminders_rows:
  "map dr_reminder (findDueReminders now db) = take 100 (filter (isDue now) (scheduledReminders db))"
  by (simp add: findDueReminders_def joinReminder_def comp_def)

lemma findDueReminders_present:
  assumes "dr \<in> set (findDueReminders now db)"
  shows "dr_reminder dr \<in> set (scheduledReminders db) \<and> isDue now (dr_reminder dr)"
proof -
  from assms have "dr_reminder dr \<in> set (map dr_reminder (findDueReminders now db))" by simp
  then have "dr_reminder dr \<in> set (take 100 (filter (isDue now) (scheduledReminders db)))"
    by (simp only: findDueReminders_rows)
  then have "dr_reminder dr \<in> set (filter (isDue now) (scheduledReminders db))"
    by (rule in_set_takeD)
  then show ?thesis by simp
qed

lemma processDueReminders_result:
  "fst (processDueReminders env now db) =
     length (filter (\<lambda>dr. \<not> raises (storeFails env) dr) (findDueReminders now db)) \<and>
   scheduledReminders (snd (processDueReminders env now db)) =
     markedRows now
       (set (map (\<lambda>dr. reminder_id (dr_reminder dr))
          (filter (\<lambda>dr. \<not> raises (storeFails env) dr) (findDueReminders now db))))
       (scheduledReminders db)"
proof -
  have "\<forall>dr \<in> set (findDueReminders now db).
          reminder_id (dr_reminder dr) \<in> set (map reminder_id (scheduledReminders db))"
    using findDueReminders_present by auto
  from processLoop_result[OF this, of env now 0] show ?thesis
    by (simp add: processDueReminders_def)
qed



lemma markedRows_mem:
  assumes "r' \<in> set (markedRows now ids rows)"
  shows "\<exists>r \<in> set rows. r' = (if reminder_id r \<in> ids then markRow now r else r)"
  using assms by (auto simp: markedRows_def)

lemma markedRows_marked:
  assumes "r' \<in> set (markedRows now ids rows)" "reminder_id r' \<in> ids"
  shows "reminder_sent r' \<and> reminder_sentAt r' = Some now"
proof -
  from markedRows_mem[OF assms(1)] obtain r where
    r: "r \<in> set rows" "r' = (if reminder_id r \<in> ids then markRow now r else r)" by blast
  show ?thesis
  proof (cases "reminder_id r \<in> ids")
    case True
    then show ?thesis using r(2) by (simp add: markRow_def)
  next
    case False
    then have "r' = r" using r(2) by simp
    then show ?thesis using assms(2) False by simp
  qed
qed

lemma markedRows_has_row:
  assumes "rid \<in> set (map reminder_id rows)"
  shows "\<exists>r' \<in> set (markedRows now ids rows). reminder_id r' = rid"
proof -
  have "rid \<in> set (map reminder_id (markedRows now ids rows))"
    using assms by (simp only: markedRows_ids)
  then show ?thesis by auto
qed

lemma loadedIds_due:
  assumes "rid \<in> set (loadedIds now db)"
  shows "\<exists>r \<in> set (scheduledReminders db). reminder_id r = rid \<and> isDue now r"
proof -
  from assms obtain dr where dr: "dr \<in> set (findDueReminders now db)"
    "reminder_id (dr_reminder dr) = rid"
    by (auto simp: loadedIds_def)
  from findDueReminders_present[OF dr(1)] dr(2) show ?thesis by blast
qed

lemma nothing_due_noop:
  assumes "findDueReminders now db = []"
  shows "processDueReminders env now db = (0, db)"
  using assms by (simp add: processDueReminders_def)

lemma no_due_rows:
  assumes "filter (isDue now) (scheduledReminders db) = []"
  shows "findDueReminders now db = []"
  using assms by (simp add: findDueReminders_def)

lemma all_marked_nothing_due:
  assumes ids: "ids = set (map reminder_id (filter (isDue now) rows))"
    and newly: "\<forall>r \<in> set rows. isDue nowLater r \<longrightarrow> isDue now r"
  shows "filter (isDue nowLater) (markedRows now ids rows) = []"
proof -
  have "\<not> isDue nowLater r'" if mem: "r' \<in> set (markedRows now ids rows)" for r'
  proof -
    from markedRows_mem[OF mem] obtain r where
      r: "r \<in> set rows" "r' = (if reminder_id r \<in> ids then markRow now r else r)" by blast
    show ?thesis
    proof (cases "reminder_id r \<in> ids")
      case True
      then show ?thesis using r(2) by (simp add: markRow_def isDue_def)
    next
      case False
      then have same: "r' = r" using r(2) by simp
      have "\<not> isDue now r"
      proof
        assume "isDue now r"
        then have "reminder_id r \<in> ids" using r(1) ids by simp
        then show False using False by simp
      qed
      then show ?thesis using newly r(1) same by blast
    qed
  qed
  then show ?thesis by (simp add: filter_empty_conv)
qed

lemma batch_is_all:
  assumes "length (filter (isDue now) (scheduledReminders db)) \<le> 100"
    and "\<forall>dr \<in> set (findDueReminders now db). \<not> raises fails dr"
  shows "set (map (\<lambda>dr. reminder_id (dr_reminder dr))
           (filter (\<lambda>dr. \<not> raises fails dr) (findDueReminders now db))) =
         set (map reminder_id (filter (isDue now) (scheduledReminders db)))"
proof -
  have "filter (\<lambda>dr. \<not> raises fails dr) (findDueReminders now db) = findDueReminders now db"
    using assms(2) by (simp add: filter_id_conv)
  moreover have "map (\<lambda>dr. reminder_id (dr_reminder dr)) (findDueReminders now db) =
      map reminder_id (map dr_reminder (findDueReminders now db))"
    by simp
  moreover have "map dr_reminder (findDueReminders now db) = filter (isDue now) (scheduledReminders db)"
    using assms(1) by (simp add: findDueReminders_rows)
  ultimately show ?thesis by simp
qed

text \<open>
  Claim C3 as stated fails: a call does not mark every due reminder it loads. When the
  update of a reminder raises, the catch block logs the error and the reminder stays
  unsent; the next call loads it again. Here Expo delivers every message and the store
  raises on the update of \<open>r1\<close>: the call loads \<open>r1\<close>, \<open>r2\<close> and \<open>r3\<close>, counts two and
  leaves \<open>r1\<close> unsent, although its notification was delivered; a second call at the
  same clock reading loads \<open>r1\<close> once more, and its notification is delivered again.
\<close>

theorem processDueReminders_once_counterexample:
  "loadedIds 2000 remindersDb = [''r1'', ''r2'', ''r3''] \<and>
   fst (processDueReminders deliveredNotMarkedEnv 2000 remindersDb) = 2 \<and>
   map reminder_sent
     (scheduledReminders (snd (processDueReminders deliveredNotMarkedEnv 2000 remindersDb))) =
     [False, True, True, False] \<and>
   loadedIds 2000 (snd (processDueReminders deliveredNotMarkedEnv 2000 remindersDb)) = [''r1''] \<and>
   fst (sendBirthdayReminder deliveredNotMarkedEnv remindersDb ''u1'' ''pa''
          (mathMax0 (getDaysUntil (timeZone deliveredNotMarkedEnv) 2000 (dateOf 2020 3 15)))) =
     Inr True \<and>
   fst (sendBirthdayReminder deliveredNotMarkedEnv
          (snd (processDueReminders deliveredNotMarkedEnv 2000 remindersDb)) ''u1'' ''pa''
          (mathMax0 (getDaysUntil (timeZone deliveredNotMarkedEnv) 2000 (dateOf 2020 3 15)))) =
     Inr True"
  by code_simp

text \<open>
  Claim C3, as amended. A call marks exactly the rows with the ids of the loaded
  reminders whose processing raises no error, and leaves every other row as it was. A
  reminder marked by a call is sent in the store after it and no later call, at
  whatever clock reading, loads it again. A call that finds no unsent reminder due is a
  no-op that returns 0; in particular a second call after one in which nothing raised
  and at most 100 reminders were due, with no reminder newly due, returns 0 and changes
  nothing.
\<close>

theorem processDueReminders_once:
  "scheduledReminders (snd (processDueReminders env now db)) =
     markedRows now
       (set (map (\<lambda>dr. reminder_id (dr_reminder dr))
          (filter (\<lambda>dr. \<not> raises (storeFails env) dr) (findDueReminders now db))))
       (scheduledReminders db) \<and>
   (\<forall>dr \<in> set (findDueReminders now db). \<not> raises (storeFails env) dr \<longrightarrow>
      (\<forall>r \<in> set (scheduledReminders (snd (processDueReminders env now db))).
         reminder_id r = reminder_id (dr_reminder dr) \<longrightarrow> reminder_sent r) \<and>
      reminder_id (dr_reminder dr) \<notin>
        set (loadedIds nowLater (snd (processDueReminders env now db)))) \<and>
   (findDueReminders now db = [] \<longrightarrow> processDueReminders env now db = (0, db)) \<and>
   ((\<forall>dr \<in> set (findDueReminders now db). \<not> raises (storeFails env) dr) \<and>
    length (filter (isDue now) (scheduledReminders db)) \<le> 100 \<and>
    (\<forall>r \<in> set (scheduledReminders db). isDue nowLater r \<longrightarrow> isDue now r) \<longrightarrow>
      processDueReminders envLater nowLater (snd (processDueReminders env now db)) =
        (0, snd (processDueReminders env now db)))"
proof (intro conjI ballI impI)
  let ?db' = "snd (processDueReminders env now db)"
  let ?ok = "set (map (\<lambda>dr. reminder_id (dr_reminder dr))
          (filter (\<lambda>dr. \<not> raises (storeFails env) dr) (findDueReminders now db)))"
  show rows: "scheduledReminders ?db' = markedRows now ?ok (scheduledReminders db)"
    using processDueReminders_result[of env now db] by simp
  { fix dr r
    assume dr: "dr \<in> set (findDueReminders now db)" "\<not> raises (storeFails env) dr"
      and r: "r \<in> set (scheduledReminders ?db')" "reminder_id r = reminder_id (dr_reminder dr)"
    have "reminder_id r \<in> ?ok" using dr r(2) by auto
    with r(1) show "reminder_sent r"
      unfolding rows using markedRows_marked by blast
  }
  { fix dr
    assume dr: "dr \<in> set (findDueReminders now db)" "\<not> raises (storeFails env) dr"
    have ok: "reminder_id (dr_reminder dr) \<in> ?ok" using dr by auto
    show "reminder_id (dr_reminder dr) \<notin> set (loadedIds nowLater ?db')"
    proof
      assume "reminder_id (dr_reminder dr) \<in> set (loadedIds nowLater ?db')"
      from loadedIds_due[OF this] obtain r where
        r: "r \<in> set (scheduledReminders ?db')" "reminder_id r = reminder_id (dr_reminder dr)"
           "isDue nowLater r" by blast
      from r(1) have "r \<in> set (markedRows now ?ok (scheduledReminders db))"
        unfolding rows .
      moreover have "reminder_id r \<in> ?ok" using ok r(2) by simp
      ultimately have "reminder_sent r" using markedRows_marked by blast
      then show False using r(3) by (simp add: isDue_def)
    qed
  }
  { assume "findDueReminders now db = []"
    then show "processDueReminders env now db = (0, db)" by (rule nothing_due_noop)
  }
  { assume H: "(\<forall>dr \<in> set (findDueReminders now db). \<not> raises (storeFails env) dr) \<and>
      length (filter (isDue now) (scheduledReminders db)) \<le> 100 \<and>
      (\<forall>r \<in> set (scheduledReminders db). isDue nowLater r \<longrightarrow> isDue now r)"
    then have all_ok: "\<forall>dr \<in> set (findDueReminders now db). \<not> raises (storeFails env) dr"
      and small: "length (filter (isDue now) (scheduledReminders db)) \<le> 100"
      and newly: "\<forall>r \<in> set (scheduledReminders db). isDue nowLater r \<longrightarrow> isDue now r"
      by blast+
    have ids: "?ok = set (map reminder_id (filter (isDue now) (scheduledReminders db)))"
      by (rule batch_is_all[OF small all_ok])
    have "filter (isDue nowLater) (scheduledReminders ?db') = []"
      unfolding rows by (rule all_marked_nothing_due[OF ids newly])
    then have "findDueReminders nowLater ?db' = []" by (rule no_due_rows)
    then show "processDueReminders envLater nowLater ?db' = (0, ?db')" by (rule nothing_due_noop)
  }
qed

theorem processDueReminders_once_witness:
  "loadedIds 2000 remindersDb = [''r1'', ''r2'', ''r3''] \<and>
   list_all (\<lambda>dr. \<not> raises (storeFails expoDownEnv) dr) (findDueReminders 2000 remindersDb) \<and>
   map reminder_sent
     (scheduledReminders (snd (processDueReminders expoDownEnv 2000 remindersDb))) =
     [True, True, True, False] \<and>
   ''r1'' \<notin> set (loadedIds 3000 (snd (processDueReminders expoDownEnv 2000 remindersDb))) \<and>
   processDueReminders expoDownEnv 2000 (snd (processDueReminders expoDownEnv 2000 remindersDb)) =
     (0, snd (processDueReminders expoDownEnv 2000 remindersDb))"
proof -
  let ?db' = "snd (processDueReminders expoDownEnv 2000 remindersDb)"
  let ?dr1 = "joinReminder remindersDb (mkReminder ''r1'' (Some ''c1'') None 1000)"
  have loaded: "loadedIds 2000 remindersDb = [''r1'', ''r2'', ''r3'']"
    by code_simp
  have ok: "list_all (\<lambda>dr. \<not> raises (storeFails expoDownEnv) dr) (findDueReminders 2000 remindersDb)"
    by code_simp
  then have all_ok: "\<forall>dr \<in> set (findDueReminders 2000 remindersDb). \<not> raises (storeFails expoDownEnv) dr"
    by (simp add: list_all_iff)
  have small: "length (filter (isDue 2000) (scheduledReminders remindersDb)) \<le> 100"
    by code_simp
  have newly: "\<forall>r \<in> set (scheduledReminders remindersDb). isDue 2000 r \<longrightarrow> isDue 2000 r"
    by simp
  have dr1: "?dr1 \<in> set (findDueReminders 2000 remindersDb)"
    by code_simp
  have id1: "reminder_id (dr_reminder ?dr1) = ''r1''"
    by (simp add: joinReminder_def mkReminder_def)
  note once = processDueReminders_once
      [where env = expoDownEnv and now = 2000 and db = remindersDb and envLater = expoDownEnv]
  from once[where nowLater = 3000] dr1 all_ok
  have "reminder_id (dr_reminder ?dr1) \<notin> set (loadedIds 3000 ?db')"
    by blast
  then have never: "''r1'' \<notin> set (loadedIds 3000 ?db')"
    unfolding id1 .
  from once[where nowLater = 2000] all_ok small newly
  have again: "processDueReminders expoDownEnv 2000 ?db' = (0, ?db')"
    by blast
  have sent: "map reminder_sent (scheduledReminders ?db') = [True, True, True, False]"
    by code_simp
  from loaded ok sent never again show ?thesis by (intro conjI)
qed

text \<open>
  Claim C4 as stated fails: the lookup of the user in \<open>sendPushNotification\<close> stands
  before its try block, so when the store raises there the notifier throws instead of
  returning \<open>false\<close>; the loop catches the error and goes on without marking the
  reminder. Here Expo would deliver every message and the store raises on the lookup of
  the user: the call loads \<open>r1\<close>, \<open>r2\<close> and \<open>r3\<close>, the notifier throws for each, the count
  is 0 and no reminder is marked sent.
\<close>

theorem processDueReminders_marks_regardless_counterexample:
  "loadedIds 2000 remindersDb = [''r1'', ''r2'', ''r3''] \<and>
   fst (sendPushNotification lookupFailsEnv remindersDb
          \<lparr>pn_userId = ''u1'', pn_text = BirthdayToday ''pa''\<rparr>) = Inl StoreError \<and>
   fst (processDueReminders lookupFailsEnv 2000 remindersDb) = 0 \<and>
   map reminder_sent
     (scheduledReminders (snd (processDueReminders lookupFailsEnv 2000 remindersDb))) =
     [False, False, False, False] \<and>
   map reminder_sentAt
     (scheduledReminders (snd (processDueReminders lookupFailsEnv 2000 remindersDb))) =
     [None, None, None, None]"
  by code_simp

text \<open>
  Claim C4, as amended. The count a call returns is the number of loaded reminders whose
  processing raises no error, and each of them is marked \<open>sent\<close> with \<open>sentAt = now\<close>,
  wherever it stands in the batch: an error on one reminder does not stop the others.
  What the Expo service does with a message (delivery, an error ticket, no ticket, a
  throw) plays no part: with any other Expo behaviour the count and the reminder rows
  after the call are the same. \<open>sendPushNotification\<close> reports every outcome of the
  delivery as a boolean when the store answers its lookup of the user.
\<close>

theorem processDueReminders_marks_regardless:
  "fst (processDueReminders env now db) =
     length (filter (\<lambda>dr. \<not> raises (storeFails env) dr) (findDueReminders now db)) \<and>
   (\<forall>dr \<in> set (findDueReminders now db). \<not> raises (storeFails env) dr \<longrightarrow>
      (\<exists>r \<in> set (scheduledReminders (snd (processDueReminders env now db))).
         reminder_id r = reminder_id (dr_reminder dr)) \<and>
      (\<forall>r \<in> set (scheduledReminders (snd (processDueReminders env now db))).
         reminder_id r = reminder_id (dr_reminder dr) \<longrightarrow>
         reminder_sent r \<and> reminder_sentAt r = Some now)) \<and>
   fst (processDueReminders (env\<lparr>expoSend := send, isExpoPushToken := check\<rparr>) now db) =
     fst (processDueReminders env now db) \<and>
   scheduledReminders
     (snd (processDueReminders (env\<lparr>expoSend := send, isExpoPushToken := check\<rparr>) now db)) =
     scheduledReminders (snd (processDueReminders env now db)) \<and>
   (\<not> storeFails env (UserFindUnique (pn_userId n)) \<longrightarrow>
      (\<exists>delivered db'. sendPushNotification env db n = (Inr delivered, db')))"
proof (intro conjI ballI impI)
  let ?db' = "snd (processDueReminders env now db)"
  let ?env' = "env\<lparr>expoSend := send, isExpoPushToken := check\<rparr>"
  let ?ok = "set (map (\<lambda>dr. reminder_id (dr_reminder dr))
          (filter (\<lambda>dr. \<not> raises (storeFails env) dr) (findDueReminders now db)))"
  have rows: "scheduledReminders ?db' = markedRows now ?ok (scheduledReminders db)"
    using processDueReminders_result[of env now db] by simp
  show "fst (processDueReminders env now db) =
     length (filter (\<lambda>dr. \<not> raises (storeFails env) dr) (findDueReminders now db))"
    using processDueReminders_result[of env now db] by simp
  { fix dr
    assume dr: "dr \<in> set (findDueReminders now db)" "\<not> raises (storeFails env) dr"
    have "reminder_id (dr_reminder dr) \<in> set (map reminder_id (scheduledReminders db))"
      using findDueReminders_present[OF dr(1)] by auto
    then show "\<exists>r \<in> set (scheduledReminders ?db'). reminder_id r = reminder_id (dr_reminder dr)"
      unfolding rows by (rule markedRows_has_row)
  }
  { fix dr r
    assume dr: "dr \<in> set (findDueReminders now db)" "\<not> raises (storeFails env) dr"
      and r: "r \<in> set (scheduledReminders ?db')" "reminder_id r = reminder_id (dr_reminder dr)"
    have "reminder_id r \<in> ?ok" using dr r(2) by auto
    with r(1) have both: "reminder_sent r \<and> reminder_sentAt r = Some now"
      unfolding rows using markedRows_marked by blast
    from both show "reminder_sent r" by simp
    from both show "reminder_sentAt r = Some now" by simp
  }
  have same: "storeFails ?env' = storeFails env" by simp
  show "fst (processDueReminders ?env' now db) = fst (processDueReminders env now db)"
    using processDueReminders_result[of ?env' now db] processDueReminders_result[of env now db]
    unfolding same by simp
  show "scheduledReminders (snd (processDueReminders ?env' now db)) = scheduledReminders ?db'"
    using processDueReminders_result[of ?env' now db] processDueReminders_result[of env now db]
    unfolding same by simp
  { assume "\<not> storeFails env (UserFindUnique (pn_userId n))"
    from sendPush_reports[OF this, of db]
    show "\<exists>delivered db'. sendPushNotification env db n = (Inr delivered, db')" by blast
  }
qed

theorem processDueReminders_marks_regardless_witness:
  "joinReminder remindersDb (mkReminder ''r2'' (Some ''c1'') None 1500)
     \<in> set (findDueReminders 2000 remindersDb) \<and>
   \<not> raises (storeFails updateFailsEnv)
       (joinReminder remindersDb (mkReminder ''r2'' (Some ''c1'') None 1500)) \<and>
   raises (storeFails updateFailsEnv)
       (joinReminder remindersDb (mkReminder ''r1'' (Some ''c1'') None 1000)) \<and>
   fst (processDueReminders updateFailsEnv 2000 remindersDb) = 2 \<and>
   (\<exists>r \<in> set (scheduledReminders (snd (processDueReminders updateFailsEnv 2000 remindersDb))).
      reminder_id r = ''r2'' \<and> reminder_sent r \<and> reminder_sentAt r = Some 2000) \<and>
   (\<exists>db'. sendPushNotification updateFailsEnv remindersDb
            \<lparr>pn_userId = ''u1'', pn_text = BirthdayToday ''pa''\<rparr> = (Inr False, db'))"
proof -
  let ?db' = "snd (processDueReminders updateFailsEnv 2000 remindersDb)"
  let ?dr2 = "joinReminder remindersDb (mkReminder ''r2'' (Some ''c1'') None 1500)"
  let ?dr1 = "joinReminder remindersDb (mkReminder ''r1'' (Some ''c1'') None 1000)"
  let ?n = "\<lparr>pn_userId = ''u1'', pn_text = BirthdayToday ''pa''\<rparr>"
  have dr2: "?dr2 \<in> set (findDueReminders 2000 remindersDb)"
    by code_simp
  have ok2: "\<not> raises (storeFails updateFailsEnv) ?dr2"
    by code_simp
  have bad1: "raises (storeFails updateFailsEnv) ?dr1"
    by code_simp
  have id2: "reminder_id (dr_reminder ?dr2) = ''r2''"
    by (simp add: joinReminder_def mkReminder_def)
  have two: "length (filter (\<lambda>dr. \<not> raises (storeFails updateFailsEnv) dr)
               (findDueReminders 2000 remindersDb)) = 2"
    by code_simp
  have lookup: "\<not> storeFails updateFailsEnv (UserFindUnique (pn_userId ?n))"
    by (simp add: updateFailsEnv_def)
  note inst = processDueReminders_marks_regardless
      [where env = updateFailsEnv and now = 2000 and db = remindersDb and n = ?n]
  from inst two have count: "fst (processDueReminders updateFailsEnv 2000 remindersDb) = 2"
    by simp
  from inst dr2 ok2 have ex: "\<exists>r \<in> set (scheduledReminders ?db').
      reminder_id r = reminder_id (dr_reminder ?dr2)"
    by blast
  from inst dr2 ok2 have all: "\<forall>r \<in> set (scheduledReminders ?db').
      reminder_id r = reminder_id (dr_reminder ?dr2) \<longrightarrow>
      reminder_sent r \<and> reminder_sentAt r = Some 2000"
    by blast
  from ex all have marked: "\<exists>r \<in> set (scheduledReminders ?db').
      reminder_id r = ''r2'' \<and> reminder_sent r \<and> reminder_sentAt r = Some 2000"
    unfolding id2 by blast
  from inst lookup obtain delivered db' where
    sp: "sendPushNotification updateFailsEnv remindersDb ?n = (Inr delivered, db')"
    by blast
  have "fst (sendPushNotification updateFailsEnv remindersDb ?n) = Inr False"
    by code_simp
  with sp have "delivered = False" by simp
  with sp have reported: "\<exists>db'. sendPushNotification updateFailsEnv remindersDb ?n = (Inr False, db')"
    by blast
  from dr2 ok2 bad1 count marked reported show ?thesis by (intro conjI)
qed

end
